theory Spec2Isabelle
  imports Complex_Main
begin

section \<open>Python values, errors and tensors\<close>

text \<open>
  The agents of \<^verbatim>\<open>agents/DQN.py\<close> and \<^verbatim>\<open>agents/A2C.py\<close> are Python classes over
  numpy arrays and torch tensors. Every exception the modelled code can raise is a value
  of \<open>py_error\<close>; a method that may raise returns \<open>py_error + 'a\<close>.
\<close>

datatype py_error =
  KeyError | IndexError | ZeroDivisionError | ValueError | RuntimeError
  | TypeError | AttributeError

text \<open>
  A tensor entry is a number together with its gradient with respect to the trainable
  parameters: \<open>item\<close> is what \<^verbatim>\<open>.item()\<close> reads, \<open>grad\<close> is what \<^verbatim>\<open>backward()\<close>
  would accumulate for it. The gradient lives in an arbitrary real vector space \<open>'g\<close>.
  Numbers are real numbers: rounding, infinities and NaN of the float32 tensors are outside
  this model.
\<close>

datatype 'g scalar = Scalar (item: real) (grad: 'g)

definition const :: "real \<Rightarrow> 'g::real_vector scalar" where
  \<comment> \<open>a Python float or a tensor made by \<^verbatim>\<open>torch.from_numpy\<close>: no gradient\<close>
  "const c = Scalar c 0"

definition detach :: "'g::real_vector scalar \<Rightarrow> 'g scalar" where
  \<comment> \<open>\<^verbatim>\<open>x.detach()\<close>: the same number, cut off from the graph\<close>
  "detach x = Scalar (item x) 0"

definition no_grad :: "'g::real_vector scalar list \<Rightarrow> 'g scalar list" where
  \<comment> \<open>what a \<^verbatim>\<open>with torch.no_grad():\<close> block hands out: values without a graph\<close>
  "no_grad xs = map detach xs"

instantiation scalar :: (real_vector) "{plus, minus, uminus, times}"
begin

definition plus_scalar :: "'a scalar \<Rightarrow> 'a scalar \<Rightarrow> 'a scalar" where
  "plus_scalar x y = Scalar (item x + item y) (grad x + grad y)"

definition minus_scalar :: "'a scalar \<Rightarrow> 'a scalar \<Rightarrow> 'a scalar" where
  "minus_scalar x y = Scalar (item x - item y) (grad x - grad y)"

definition uminus_scalar :: "'a scalar \<Rightarrow> 'a scalar" where
  "uminus_scalar x = Scalar (- item x) (- grad x)"

definition times_scalar :: "'a scalar \<Rightarrow> 'a scalar \<Rightarrow> 'a scalar" where
  "times_scalar x y =
     Scalar (item x * item y) (item x *\<^sub>R grad y + item y *\<^sub>R grad x)"

instance ..

end

definition pow2 :: "'g::real_vector scalar \<Rightarrow> 'g scalar" where
  \<comment> \<open>\<^verbatim>\<open>x.pow(2)\<close>\<close>
  "pow2 x = x * x"

definition t_abs :: "'g::real_vector scalar \<Rightarrow> 'g scalar" where
  "t_abs x = (if item x < 0 then - x else x)"

definition t_mean :: "'g::real_vector scalar list \<Rightarrow> 'g scalar" where
  \<comment> \<open>\<^verbatim>\<open>.mean()\<close> over all entries; on an empty tensor torch gives NaN, which the
      reals do not have: the theorems below are about non-empty tensors\<close>
  "t_mean xs =
     Scalar (sum_list (map item xs) / real (length xs))
            ((1 / real (length xs)) *\<^sub>R sum_list (map grad xs))"

definition np_mean :: "real list \<Rightarrow> real" where
  "np_mean xs = sum_list xs / real (length xs)"

fun sequence_err :: "('e + 'a) list \<Rightarrow> 'e + 'a list" where
  "sequence_err [] = Inr []"
| "sequence_err (x # xs) =
     (case x of Inl e \<Rightarrow> Inl e
      | Inr y \<Rightarrow> (case sequence_err xs of Inl e \<Rightarrow> Inl e | Inr ys \<Rightarrow> Inr (y # ys)))"

definition broadcast2 :: "('a \<Rightarrow> 'b \<Rightarrow> 'c) \<Rightarrow> 'a list \<Rightarrow> 'b list \<Rightarrow> py_error + 'c list" where
  \<comment> \<open>an elementwise operation on two column tensors of shapes \<open>[m, 1]\<close> and \<open>[n, 1]\<close>:
      equal sizes pair up, a size of one is broadcast, anything else raises\<close>
  "broadcast2 f xs ys =
     (if length xs = length ys then Inr (map2 f xs ys)
      else if length xs = 1 then Inr (map (f (hd xs)) ys)
      else if length ys = 1 then Inr (map (\<lambda>x. f x (hd ys)) xs)
      else Inl RuntimeError)"

definition gather1 :: "'a list list \<Rightarrow> int list \<Rightarrow> py_error + 'a list" where
  \<comment> \<open>\<^verbatim>\<open>t.gather(1, index)\<close> for \<open>t\<close> of shape \<open>[B, A]\<close> and \<open>index\<close> of shape \<open>[B', 1]\<close>:
      torch asks for \<open>B' \<le> B\<close> and every index within its row\<close>
  "gather1 rows idx =
     (if length rows < length idx then Inl RuntimeError
      else sequence_err
             (map2 (\<lambda>row i. if 0 \<le> i \<and> i < int (length row) then Inr (row ! nat i)
                             else Inl RuntimeError) rows idx))"

fun row_max :: "'g scalar list \<Rightarrow> py_error + 'g scalar" where
  \<comment> \<open>\<^verbatim>\<open>.max(dim=1)[0]\<close> on one row; a row without entries raises\<close>
  "row_max [] = Inl RuntimeError"
| "row_max (x # xs) = Inr (foldl (\<lambda>b y. if item b < item y then y else b) x xs)"

fun argmax_from :: "nat \<Rightarrow> real \<Rightarrow> nat \<Rightarrow> real list \<Rightarrow> nat" where
  "argmax_from best v i [] = best"
| "argmax_from best v i (x # xs) =
     (if v < x then argmax_from i x (Suc i) xs else argmax_from best v (Suc i) xs)"

fun argmax_row :: "real list \<Rightarrow> py_error + int" where
  \<comment> \<open>\<^verbatim>\<open>torch.argmax(q, dim=1)\<close> on one row: the index of the first maximal entry\<close>
  "argmax_row [] = Inl RuntimeError"
| "argmax_row (x # xs) = Inr (int (argmax_from 0 x 1 xs))"

fun chunks :: "nat \<Rightarrow> 'a list \<Rightarrow> 'a list list" where
  "chunks n xs = (if n = 0 \<or> xs = [] then [] else take n xs # chunks n (drop n xs))"

declare chunks.simps [simp del]

type_synonym observation = "real list"

definition view_feats :: "nat \<Rightarrow> observation list \<Rightarrow> py_error + observation list" where
  \<comment> \<open>\<^verbatim>\<open>.view((-1,) + self.num_feats)\<close>, an observation being the flat list of its
      \<open>num_feats\<close> numbers: the entries are regrouped into rows of \<open>num_feats\<close>, which
      fails when they do not fill whole rows\<close>
  "view_feats n s =
     (let flat = concat s
      in if n = 0 \<or> length flat mod n \<noteq> 0 then Inl RuntimeError else Inr (chunks n flat))"

definition s_normalise :: "real option \<Rightarrow> observation list \<Rightarrow> observation list" where
  \<comment> \<open>\<^verbatim>\<open>X if self.config.s_norm is None else X/self.config.s_norm\<close>\<close>
  "s_normalise sn X = (case sn of None \<Rightarrow> X | Some d \<Rightarrow> map (map (\<lambda>x. x / d)) X)"

definition deque_append :: "nat \<Rightarrow> 'a list \<Rightarrow> 'a \<Rightarrow> 'a list" where
  \<comment> \<open>\<^verbatim>\<open>deque(maxlen=n).append(x)\<close>: a full deque drops its oldest entry\<close>
  "deque_append n d x = (if n = 0 then [] else drop (Suc (length d) - n) (d @ [x]))"

definition smooth_l1 :: "'g::real_vector scalar \<Rightarrow> 'g scalar \<Rightarrow> 'g scalar" where
  \<comment> \<open>one entry of \<^verbatim>\<open>torch.nn.SmoothL1Loss\<close> with its default \<open>beta = 1\<close>\<close>
  "smooth_l1 x y =
     (let d = x - y
      in if \<bar>item d\<bar> < 1 then const 0.5 * pow2 d else t_abs d - const 0.5)"

definition loss_fun :: "'g::real_vector scalar list \<Rightarrow> 'g scalar list \<Rightarrow> py_error + 'g scalar" where
  \<comment> \<open>\<^verbatim>\<open>self.loss_fun = torch.nn.SmoothL1Loss(reduction='mean')\<close>\<close>
  "loss_fun input target =
     (case broadcast2 smooth_l1 input target of
        Inl e \<Rightarrow> Inl e
      | Inr ls \<Rightarrow> Inr (t_mean ls))"

section \<open>Configuration, schedules and the shared agent state\<close>

text \<open>
  Modelled from the spec: the configuration class is not among the sources. Its fields are
  the options of the specification's configuration surface that the two agents read, with
  the types the agents use them at.
\<close>

record config =
  noisy_nets :: bool
  s_norm :: "real option"
  gamma :: real
  learn_start :: int
  batch_size :: nat
  target_net_update_freq :: int
  grad_norm_max :: real
  num_envs :: nat
  epsilon_start :: real
  epsilon_final :: "real list"
  epsilon_decay :: "real list"
  max_tsteps :: int
  value_loss_weight :: real
  entropy_loss_weight :: real

text \<open>
  Modelled from the spec: the schedule classes of \<^verbatim>\<open>utils\<close> are not among the sources;
  the agent only constructs one of them and later calls it. A schedule is the record of
  the constructor call that made it, and its value at a step is a parameter of the model.
\<close>

datatype schedule =
  ExponentialSchedule real real real int
  | LinearSchedule real real real int
  | PiecewiseSchedule real "real list" "real list" int

type_synonym info = "string \<rightharpoonup> (string \<rightharpoonup> real)"

type_synonym tb_scalar = "string \<times> real \<times> int"

text \<open>
  Modelled from the spec: \<^verbatim>\<open>agents/BaseAgent.py\<close> is not among the sources. The record
  holds the fields both agent classes set up on \<^verbatim>\<open>self\<close>. \<open>'p\<close> is a network's
  \<^verbatim>\<open>state_dict\<close>, \<open>'o\<close> the state of the optimizer, \<open>'e\<close> the vectorised environment and
  \<open>'r\<close> the state of the process-wide random generators. \<open>tb_writer\<close> is the list of the
  \<^verbatim>\<open>add_scalar\<close> calls made so far.
\<close>

record ('p, 'o, 'r, 'e) base_agent =
  static_policy :: bool
  num_feats :: nat
  num_actions :: int
  envs :: 'e
  model :: 'p
  optimizer :: 'o
  episode_rewards :: "real list"
  last_100_rewards :: "real list"
  tb_writer :: "tb_scalar list"
  rng :: 'r

definition add_scalar :: "string \<Rightarrow> real \<Rightarrow> int \<Rightarrow> tb_scalar list \<Rightarrow> tb_scalar list" where
  "add_scalar name v t tb = tb @ [(name, v, t)]"

section \<open>The DQN agent\<close>

type_synonym transition = "observation \<times> int \<times> real \<times> observation \<times> int"

type_synonym minibatch =
  "observation list \<times> int list \<times> real list \<times> observation list \<times> int list \<times> nat list \<times> real list"

type_synonym batch_vars =
  "observation list \<times> int list \<times> real list \<times> observation list \<times> real list \<times> nat list \<times> real list"

record ('p, 'o, 'r, 'e, 'm) dqn_agent = "('p, 'o, 'r, 'e) base_agent" +
  target_model :: 'p
  memory :: 'm
  update_count :: int
  anneal_eps :: schedule
  prev_observations :: "observation list option"
  actions :: "int list option"
  rewards :: "real list option"
  dones :: "bool list option"
  observations :: "observation list"
  infos :: "info list"

text \<open>
  What the DQN agent calls and does not define: the Q-network, the replay memory
  (\<^verbatim>\<open>utils/ReplayMemory.py\<close> is not among the sources), torch's optimizer and gradient
  clipping, numpy's random generator, the environment and the schedule's \<^verbatim>\<open>__call__\<close>.
  They are parameters of the model.
\<close>

record ('p, 'g, 'o, 'r, 'e, 'm) dqn_world =
  q_forward :: "'p \<Rightarrow> observation list \<Rightarrow> 'g scalar list list"
  memory_push :: "'m \<Rightarrow> transition \<Rightarrow> 'm"
  memory_sample :: "'m \<Rightarrow> nat \<Rightarrow> 'r \<Rightarrow> py_error + (minibatch \<times> 'r)"
  clip_grad_norm :: "'g \<Rightarrow> real \<Rightarrow> 'g"
  optimizer_step :: "'o \<Rightarrow> 'p \<Rightarrow> 'g \<Rightarrow> 'o \<times> 'p"
  learning_rate :: "'o \<Rightarrow> real"
  weight_norm :: "'p \<Rightarrow> real"
  grad_norm :: "'g \<Rightarrow> real"
  sigma_norm :: "'p \<Rightarrow> real"
  np_random :: "'r \<Rightarrow> real \<times> 'r"
  np_randint :: "int \<Rightarrow> int \<Rightarrow> nat \<Rightarrow> 'r \<Rightarrow> int list \<times> 'r"
  env_reset :: "'e \<Rightarrow> observation list \<times> 'e"
  env_step :: "'e \<Rightarrow> int list \<Rightarrow> (observation list \<times> real list \<times> bool list \<times> info list) \<times> 'e"
  schedule_value :: "schedule \<Rightarrow> int \<Rightarrow> real"

definition make_schedule :: "config \<Rightarrow> py_error + schedule" where
  \<comment> \<open>the \<^verbatim>\<open>if len(self.config.epsilon_final) == 1\<close> statement of \<^verbatim>\<open>training_priors\<close>\<close>
  "make_schedule cfg =
     (if length (epsilon_final cfg) = 1 then
        (case epsilon_decay cfg of
           [] \<Rightarrow> Inl IndexError
         | d0 # _ \<Rightarrow>
             if d0 > 1.0
             then Inr (ExponentialSchedule (epsilon_start cfg) (epsilon_final cfg ! 0) d0 (max_tsteps cfg))
             else Inr (LinearSchedule (epsilon_start cfg) (epsilon_final cfg ! 0) d0 (max_tsteps cfg)))
      else Inr (PiecewiseSchedule (epsilon_start cfg) (epsilon_final cfg) (epsilon_decay cfg)
                  (max_tsteps cfg)))"

definition DQN_training_priors ::
  "('p, 'g, 'o, 'r, 'e, 'm) dqn_world \<Rightarrow> config \<Rightarrow> ('p, 'o, 'r, 'e, 'm) dqn_agent
   \<Rightarrow> py_error + ('p, 'o, 'r, 'e, 'm) dqn_agent" where
  "DQN_training_priors W cfg ag =
     (case make_schedule cfg of
        Inl e \<Rightarrow> Inl e
      | Inr sch \<Rightarrow>
          (case env_reset W (envs ag) of
             (obs, env') \<Rightarrow>
               Inr (ag\<lparr>episode_rewards := replicate (num_envs cfg) 0,
                       last_100_rewards := [],
                       anneal_eps := sch,
                       prev_observations := None, actions := None, rewards := None,
                       dones := None,
                       observations := obs, envs := env'\<rparr>)))"

definition zip5 :: "'a list \<Rightarrow> 'b list \<Rightarrow> 'c list \<Rightarrow> 'd list \<Rightarrow> 'e list
                    \<Rightarrow> ('a \<times> 'b \<times> 'c \<times> 'd \<times> 'e) list" where
  "zip5 s a r s' t = zip s (zip a (zip r (zip s' t)))"

definition append_to_replay ::
  "('p, 'g, 'o, 'r, 'e, 'm) dqn_world \<Rightarrow> observation list \<Rightarrow> int list \<Rightarrow> real list
   \<Rightarrow> observation list \<Rightarrow> int list \<Rightarrow> ('p, 'o, 'r, 'e, 'm) dqn_agent
   \<Rightarrow> ('p, 'o, 'r, 'e, 'm) dqn_agent" where
  "append_to_replay W s a r s' t ag =
     ag\<lparr>memory := foldl (memory_push W) (memory ag) (zip5 s a r s' t)\<rparr>"

definition prep_minibatch ::
  "('p, 'g, 'o, 'r, 'e, 'm) dqn_world \<Rightarrow> config \<Rightarrow> ('p, 'o, 'r, 'e, 'm) dqn_agent
   \<Rightarrow> py_error + (batch_vars \<times> ('p, 'o, 'r, 'e, 'm) dqn_agent)" where
  "prep_minibatch W cfg ag =
     (case memory_sample W (memory ag) (batch_size cfg) (rng ag) of
        Inl e \<Rightarrow> Inl e
      | Inr ((batch_state, batch_action, batch_reward, batch_next_state, batch_terminal,
              indices, weights), r') \<Rightarrow>
          Inr ((s_normalise (s_norm cfg) batch_state, batch_action, batch_reward,
                s_normalise (s_norm cfg) batch_next_state, map real_of_int batch_terminal,
                indices, weights),
               ag\<lparr>rng := r'\<rparr>))"

definition DQN_target ::
  "('p, 'g::real_vector, 'o, 'r, 'e, 'm) dqn_world \<Rightarrow> config \<Rightarrow> ('p, 'o, 'r, 'e, 'm) dqn_agent
   \<Rightarrow> real list \<Rightarrow> observation list \<Rightarrow> real list \<Rightarrow> py_error + 'g scalar list" where
  \<comment> \<open>the \<^verbatim>\<open>with torch.no_grad():\<close> block of \<^verbatim>\<open>compute_loss\<close>\<close>
  "DQN_target W cfg ag batch_reward batch_next_state batch_terminal =
     (case sequence_err (map row_max (q_forward W (target_model ag) batch_next_state)) of
        Inl e \<Rightarrow> Inl e
      | Inr mx \<Rightarrow>
          (case broadcast2 (*) (map (\<lambda>q. const (gamma cfg) * q) mx)
                  (map (\<lambda>t. const 1.0 - const t) batch_terminal) of
             Inl e \<Rightarrow> Inl e
           | Inr next_q_values \<Rightarrow>
               (case broadcast2 (+) (map const batch_reward) next_q_values of
                  Inl e \<Rightarrow> Inl e
                | Inr target \<Rightarrow> Inr (no_grad target))))"

definition DQN_compute_loss ::
  "('p, 'g::real_vector, 'o, 'r, 'e, 'm) dqn_world \<Rightarrow> config \<Rightarrow> batch_vars \<Rightarrow> int
   \<Rightarrow> ('p, 'o, 'r, 'e, 'm) dqn_agent
   \<Rightarrow> py_error + ('g scalar \<times> ('p, 'o, 'r, 'e, 'm) dqn_agent)" where
  "DQN_compute_loss W cfg bv tstep ag =
     (case bv of
        (batch_state, batch_action, batch_reward, batch_next_state, batch_terminal,
         indices, weights) \<Rightarrow>
       (case gather1 (q_forward W (model ag) batch_state) batch_action of
          Inl e \<Rightarrow> Inl e
        | Inr current_q_values \<Rightarrow>
            (case DQN_target W cfg ag batch_reward batch_next_state batch_terminal of
               Inl e \<Rightarrow> Inl e
             | Inr target \<Rightarrow>
                 (case loss_fun current_q_values target of
                    Inl e \<Rightarrow> Inl e
                  | Inr loss \<Rightarrow>
                      Inr (loss,
                           ag\<lparr>tb_writer :=
                                add_scalar ''Policy/Next Value Estimate''
                                  (np_mean (map item target)) tstep
                                  (add_scalar ''Policy/Value Estimate''
                                     (np_mean (map item current_q_values)) tstep
                                     (tb_writer ag))\<rparr>)))))"

definition update_target_model ::
  "config \<Rightarrow> ('p, 'o, 'r, 'e, 'm) dqn_agent \<Rightarrow> py_error + ('p, 'o, 'r, 'e, 'm) dqn_agent" where
  "update_target_model cfg ag =
     (if target_net_update_freq cfg = 0 then Inl ZeroDivisionError
      else
        (let ag' = ag\<lparr>update_count := (update_count ag + 1) mod target_net_update_freq cfg\<rparr>
         in if update_count ag' = 0 then Inr (ag'\<lparr>target_model := model ag'\<rparr>) else Inr ag'))"

definition DQN_log_update ::
  "('p, 'g, 'o, 'r, 'e, 'm) dqn_world \<Rightarrow> config \<Rightarrow> real \<Rightarrow> 'g \<Rightarrow> int
   \<Rightarrow> ('p, 'o, 'r, 'e, 'm) dqn_agent \<Rightarrow> ('p, 'o, 'r, 'e, 'm) dqn_agent" where
  \<comment> \<open>the \<^verbatim>\<open>#more logging\<close> block that ends \<^verbatim>\<open>update_\<close>\<close>
  "DQN_log_update W cfg loss_item g tstep ag =
     (let log1 = add_scalar ''Loss/Total Loss'' loss_item tstep (tb_writer ag);
          log2 = add_scalar ''Learning/Learning Rate'' (learning_rate W (optimizer ag)) tstep log1;
          log3 = add_scalar ''Learning/Weight Norm'' (weight_norm W (model ag)) tstep log2;
          log4 = add_scalar ''Learning/Grad Norm'' (grad_norm W g) tstep log3;
          log5 = (if noisy_nets cfg
                  then add_scalar ''Policy/Sigma Norm'' (sigma_norm W (model ag)) tstep log4
                  else log4)
      in ag\<lparr>tb_writer := log5\<rparr>)"

definition DQN_update' ::
  "('p, 'g::real_vector, 'o, 'r, 'e, 'm) dqn_world \<Rightarrow> config \<Rightarrow> observation list \<Rightarrow> int list
   \<Rightarrow> real list \<Rightarrow> observation list \<Rightarrow> int list \<Rightarrow> int \<Rightarrow> ('p, 'o, 'r, 'e, 'm) dqn_agent
   \<Rightarrow> py_error + ('p, 'o, 'r, 'e, 'm) dqn_agent" where
  \<comment> \<open>the method \<^verbatim>\<open>update_\<close>\<close>
  "DQN_update' W cfg s a r s' terminal tstep ag =
     (if static_policy ag then Inr ag
      else
        (let ag1 = append_to_replay W s a r s' terminal ag
         in if tstep < learn_start cfg then Inr ag1
            else
              (case prep_minibatch W cfg ag1 of
                 Inl e \<Rightarrow> Inl e
               | Inr (bv, ag2) \<Rightarrow>
                   (case DQN_compute_loss W cfg bv tstep ag2 of
                      Inl e \<Rightarrow> Inl e
                    | Inr (loss, ag3) \<Rightarrow>
                        (let g = clip_grad_norm W (grad loss) (grad_norm_max cfg)
                         in case optimizer_step W (optimizer ag3) (model ag3) g of
                              (opt', model') \<Rightarrow>
                                (case update_target_model cfg
                                        (ag3\<lparr>optimizer := opt', model := model'\<rparr>) of
                                   Inl e \<Rightarrow> Inl e
                                 | Inr ag4 \<Rightarrow>
                                     Inr (DQN_log_update W cfg (item loss) g tstep ag4)))))))"

definition DQN_greedy_action ::
  "('p, 'g, 'o, 'r, 'e, 'm) dqn_world \<Rightarrow> config \<Rightarrow> observation list
   \<Rightarrow> ('p, 'o, 'r, 'e, 'm) dqn_agent \<Rightarrow> py_error + int list" where
  \<comment> \<open>the first branch of \<^verbatim>\<open>get_action\<close>: the argmax of the Q-network over the actions\<close>
  "DQN_greedy_action W cfg s ag =
     (case view_feats (num_feats ag) s of
        Inl e \<Rightarrow> Inl e
      | Inr X \<Rightarrow>
          sequence_err
            (map (\<lambda>row. argmax_row (map item row))
               (q_forward W (model ag) (s_normalise (s_norm cfg) X))))"

definition DQN_get_action ::
  "('p, 'g, 'o, 'r, 'e, 'm) dqn_world \<Rightarrow> config \<Rightarrow> observation list \<Rightarrow> real
   \<Rightarrow> ('p, 'o, 'r, 'e, 'm) dqn_agent
   \<Rightarrow> py_error + (int list \<times> ('p, 'o, 'r, 'e, 'm) dqn_agent)" where
  "DQN_get_action W cfg s eps ag =
     (case np_random W (rng ag) of
        (u, r1) \<Rightarrow>
          if u > eps \<or> static_policy ag \<or> noisy_nets cfg then
            (case DQN_greedy_action W cfg s ag of
               Inl e \<Rightarrow> Inl e
             | Inr acts \<Rightarrow> Inr (acts, ag\<lparr>rng := r1\<rparr>))
          else if num_actions ag \<le> 0 then Inl ValueError
          else
            (case np_randint W 0 (num_actions ag) (length s) r1 of
               (acts, r2) \<Rightarrow> Inr (acts, ag\<lparr>rng := r2\<rparr>)))"

definition add_rewards :: "real list \<Rightarrow> real list \<Rightarrow> py_error + real list" where
  \<comment> \<open>\<^verbatim>\<open>self.episode_rewards += rewards\<close> on numpy vectors\<close>
  "add_rewards er r =
     (if length r = length er then Inr (map2 (+) er r)
      else if length r = 1 then Inr (map (\<lambda>x. x + hd r) er)
      else Inl ValueError)"

fun DQN_done_loop ::
  "int \<Rightarrow> nat \<Rightarrow> bool list \<Rightarrow> real list \<times> tb_scalar list
   \<Rightarrow> py_error + (real list \<times> tb_scalar list)" where
  \<comment> \<open>\<^verbatim>\<open>for idx, done in enumerate(self.dones)\<close>, on \<open>(episode_rewards, tb_writer)\<close>\<close>
  "DQN_done_loop t idx [] st = Inr st"
| "DQN_done_loop t idx (done # ds) (er, tb) =
     (if done then
        (if idx < length er
         then DQN_done_loop t (Suc idx) ds
                (er[idx := 0],
                 add_scalar ''Performance/Agent Reward'' (er ! idx) (t + int idx) tb)
         else Inl IndexError)
      else DQN_done_loop t (Suc idx) ds (er, tb))"

fun DQN_info_loop ::
  "int \<Rightarrow> nat \<Rightarrow> info list \<Rightarrow> real list \<times> tb_scalar list
   \<Rightarrow> py_error + (real list \<times> tb_scalar list)" where
  \<comment> \<open>\<^verbatim>\<open>for idx, info in enumerate(self.infos)\<close>, on \<open>(last_100_rewards, tb_writer)\<close>\<close>
  "DQN_info_loop t idx [] st = Inr st"
| "DQN_info_loop t idx (info # is) (win, tb) =
     (case info ''episode'' of
        None \<Rightarrow> DQN_info_loop t (Suc idx) is (win, tb)
      | Some ep \<Rightarrow>
          (case ep ''r'' of
             None \<Rightarrow> Inl KeyError
           | Some r \<Rightarrow>
               (case ep ''l'' of
                  None \<Rightarrow> Inl KeyError
                | Some l \<Rightarrow>
                    DQN_info_loop t (Suc idx) is
                      (deque_append 100 win r,
                       add_scalar ''Performance/Episode Length'' l (t + int idx)
                         (add_scalar ''Performance/Environment Reward'' r (t + int idx) tb)))))"

definition DQN_step ::
  "('p, 'g, 'o, 'r, 'e, 'm) dqn_world \<Rightarrow> config \<Rightarrow> int \<Rightarrow> ('p, 'o, 'r, 'e, 'm) dqn_agent
   \<Rightarrow> py_error + ('p, 'o, 'r, 'e, 'm) dqn_agent" where
  "DQN_step W cfg current_tstep ag =
     (let epsilon = schedule_value W (anneal_eps ag) current_tstep;
          ag0 = ag\<lparr>tb_writer := add_scalar ''Policy/Epsilon'' epsilon current_tstep (tb_writer ag)\<rparr>
      in case DQN_get_action W cfg (observations ag0) epsilon ag0 of
           Inl e \<Rightarrow> Inl e
         | Inr (acts, ag1) \<Rightarrow>
             (case env_step W (envs ag1) acts of
                ((obs, rews, ds, infs), env') \<Rightarrow>
                  (case add_rewards (episode_rewards ag1) rews of
                     Inl e \<Rightarrow> Inl e
                   | Inr er \<Rightarrow>
                       (case DQN_done_loop current_tstep 0 ds (er, tb_writer ag1) of
                          Inl e \<Rightarrow> Inl e
                        | Inr (er', log1) \<Rightarrow>
                            (case DQN_info_loop current_tstep 0 infs
                                    (last_100_rewards ag1, log1) of
                               Inl e \<Rightarrow> Inl e
                             | Inr (win, log2) \<Rightarrow>
                                 Inr (ag1\<lparr>actions := Some acts,
                                          prev_observations := Some (observations ag1),
                                          observations := obs, rewards := Some rews,
                                          dones := Some ds, infos := infs, envs := env',
                                          episode_rewards := er',
                                          last_100_rewards := win,
                                          tb_writer := log2\<rparr>))))))"

definition DQN_update ::
  "('p, 'g::real_vector, 'o, 'r, 'e, 'm) dqn_world \<Rightarrow> config \<Rightarrow> int
   \<Rightarrow> ('p, 'o, 'r, 'e, 'm) dqn_agent \<Rightarrow> py_error + ('p, 'o, 'r, 'e, 'm) dqn_agent" where
  "DQN_update W cfg current_tstep ag =
     (case dones ag of
        None \<Rightarrow> Inl AttributeError
      | Some ds \<Rightarrow>
          (case (prev_observations ag, actions ag, rewards ag) of
             (Some s, Some a, Some r) \<Rightarrow>
               DQN_update' W cfg s a r (observations ag) (map (\<lambda>d. if d then 1 else 0) ds)
                 current_tstep ag
           | _ \<Rightarrow> if static_policy ag then Inr ag else Inl TypeError))"

text \<open>
  A run of \<^verbatim>\<open>update_\<close> calls, each with its own arguments
  \<open>(s, a, r, s_, terminal, tstep)\<close>; the result lists the agent after every call.
\<close>

type_synonym update_args =
  "observation list \<times> int list \<times> real list \<times> observation list \<times> int list \<times> int"

fun DQN_updates ::
  "('p, 'g::real_vector, 'o, 'r, 'e, 'm) dqn_world \<Rightarrow> config \<Rightarrow> update_args list
   \<Rightarrow> ('p, 'o, 'r, 'e, 'm) dqn_agent \<Rightarrow> py_error + ('p, 'o, 'r, 'e, 'm) dqn_agent list" where
  "DQN_updates W cfg [] ag = Inr []"
| "DQN_updates W cfg ((s, a, r, s', terminal, tstep) # calls) ag =
     (case DQN_update' W cfg s a r s' terminal tstep ag of
        Inl e \<Rightarrow> Inl e
      | Inr ag' \<Rightarrow>
          (case DQN_updates W cfg calls ag' of
             Inl e \<Rightarrow> Inl e
           | Inr ags \<Rightarrow> Inr (ag' # ags)))"

text \<open>
  The reading of \<^verbatim>\<open>get_action\<close> in which every environment decides for itself: one
  uniform draw per environment, a random action for that environment when the draw is at
  most \<open>eps\<close>, its greedy action otherwise. It follows the words of the specification and
  is compared with \<open>DQN_get_action\<close> below.
\<close>

fun per_env_actions ::
  "('p, 'g, 'o, 'r, 'e, 'm) dqn_world \<Rightarrow> real \<Rightarrow> int \<Rightarrow> int list \<Rightarrow> 'r \<Rightarrow> int list \<times> 'r" where
  "per_env_actions W eps n [] r = ([], r)"
| "per_env_actions W eps n (greedy # gs) r =
     (case np_random W r of
        (u, r1) \<Rightarrow>
          if u > eps then
            (case per_env_actions W eps n gs r1 of (acts, r') \<Rightarrow> (greedy # acts, r'))
          else
            (case np_randint W 0 n 1 r1 of
               (a, r2) \<Rightarrow>
                 (case per_env_actions W eps n gs r2 of (acts, r') \<Rightarrow> (a @ acts, r'))))"

definition DQN_get_action_per_env ::
  "('p, 'g, 'o, 'r, 'e, 'm) dqn_world \<Rightarrow> config \<Rightarrow> observation list \<Rightarrow> real
   \<Rightarrow> ('p, 'o, 'r, 'e, 'm) dqn_agent
   \<Rightarrow> py_error + (int list \<times> ('p, 'o, 'r, 'e, 'm) dqn_agent)" where
  "DQN_get_action_per_env W cfg s eps ag =
     (case DQN_greedy_action W cfg s ag of
        Inl e \<Rightarrow> Inl e
      | Inr greedy \<Rightarrow>
          (case per_env_actions W eps (num_actions ag) greedy (rng ag) of
             (acts, r') \<Rightarrow> Inr (acts, ag\<lparr>rng := r'\<rparr>)))"

section \<open>A small concrete world\<close>

text \<open>
  Concrete collaborators on which the theorems below are instantiated. The Q-network has
  one weight \<open>w\<close> and two actions with values \<open>0\<close> and \<open>w\<close> times the sum of the
  observation; the replay memory has capacity one; the optimizer is plain gradient descent
  with learning rate one; the random generator is a counter whose uniform draws are \<open>0.05\<close>
  at multiples of three and \<open>0.9\<close> elsewhere, and whose random actions are the highest one.
\<close>

definition toy_batch :: "transition list \<Rightarrow> minibatch" where
  "toy_batch ts =
     (map fst ts, map (\<lambda>t. fst (snd t)) ts, map (\<lambda>t. fst (snd (snd t))) ts,
      map (\<lambda>t. fst (snd (snd (snd t)))) ts, map (\<lambda>t. snd (snd (snd (snd t)))) ts,
      [0..<length ts], replicate (length ts) 1)"

definition toy_world :: "(real, real, nat, nat, nat, transition option) dqn_world" where
  "toy_world =
     \<lparr>q_forward = (\<lambda>w X. map (\<lambda>obs. [Scalar 0 0, Scalar (w * sum_list obs) (sum_list obs)]) X),
      memory_push = (\<lambda>m t. Some t),
      memory_sample = (\<lambda>m n r. case m of None \<Rightarrow> Inl ValueError
                                 | Some t \<Rightarrow> Inr (toy_batch (replicate n t), Suc r)),
      clip_grad_norm = (\<lambda>g mx. max (- mx) (min mx g)),
      optimizer_step = (\<lambda>opt w g. (Suc opt, w - g)),
      learning_rate = (\<lambda>opt. 1),
      weight_norm = (\<lambda>w. \<bar>w\<bar>),
      grad_norm = (\<lambda>g. \<bar>g\<bar>),
      sigma_norm = (\<lambda>w. 0),
      np_random = (\<lambda>r. (if r mod 3 = 0 then 0.05 else 0.9, Suc r)),
      np_randint = (\<lambda>lo hi n r. (replicate n (hi - 1), Suc r)),
      env_reset = (\<lambda>e. ([[1]], e)),
      env_step = (\<lambda>e acts. (([[1]], [1], [False], [Map.empty]), Suc e)),
      schedule_value = (\<lambda>sch t. 0.1)\<rparr>"

definition toy_config :: config where
  "toy_config =
     \<lparr>noisy_nets = False, s_norm = None, gamma = 0.5, learn_start = 2, batch_size = 1,
      target_net_update_freq = 5, grad_norm_max = 10, num_envs = 1, epsilon_start = 1,
      epsilon_final = [0.1], epsilon_decay = [2], max_tsteps = 100,
      value_loss_weight = 1, entropy_loss_weight = 0.01\<rparr>"

definition toy_agent :: "(real, nat, nat, nat, transition option) dqn_agent" where
  "toy_agent =
     \<lparr>static_policy = False, num_feats = 1, num_actions = 2, envs = 0, model = 0,
      optimizer = 0, episode_rewards = [0], last_100_rewards = [], tb_writer = [], rng = 0,
      target_model = 0, memory = None, update_count = 0,
      anneal_eps = ExponentialSchedule 1 0.1 2 100,
      prev_observations = None, actions = None, rewards = None, dones = None,
      observations = [[1]], infos = []\<rparr>"

definition toy_call :: update_args where
  "toy_call = ([[1]], [1], [100], [[1]], [0], 2)"

text \<open>
  The same world with an optimizer whose step leaves the weights where they are, as Adam
  does with learning rate zero.
\<close>

definition toy_frozen_world :: "(real, real, nat, nat, nat, transition option) dqn_world" where
  "toy_frozen_world = toy_world\<lparr>optimizer_step := (\<lambda>opt w g. (Suc opt, w))\<rparr>"

text \<open>
  The same world with an environment whose every step ends an episode of return 7 and
  length 3, reported under the \<^verbatim>\<open>'episode'\<close> key of the info dictionary.
\<close>

definition toy_episode_world :: "(real, real, nat, nat, nat, transition option) dqn_world" where
  "toy_episode_world =
     toy_world\<lparr>env_step :=
       (\<lambda>e acts. (([[1]], [1], [True], [[''episode'' \<mapsto> [''r'' \<mapsto> 7, ''l'' \<mapsto> 3]]]), Suc e))\<rparr>"

section \<open>The A2C agent\<close>

text \<open>
  Modelled from the spec: \<^verbatim>\<open>utils/RolloutStorage.py\<close> is not among the sources. The agent
  reads the storage's tensors and calls its \<^verbatim>\<open>insert\<close>, \<^verbatim>\<open>compute_returns\<close> and
  \<^verbatim>\<open>after_update\<close>; the tensors are the fields of a record (time-major: one list per
  step, one entry per environment, \<open>T + 1\<close> steps of observations, states, masks, value
  predictions and returns for \<open>T\<close> steps of actions, log-probabilities and rewards),
  whatever else the storage keeps is \<open>ro_private\<close>, and the three methods are parameters
  of the model.
\<close>

record 'x rollout_storage =
  ro_observations :: "observation list list"
  ro_states :: "real list list list"
  ro_rewards :: "real list list"
  ro_value_preds :: "real list list"
  ro_returns :: "real list list"
  ro_action_log_probs :: "real list list"
  ro_actions :: "int list list"
  ro_masks :: "real list list"
  ro_private :: 'x

record ('p, 'o, 'r, 'e, 'x) a2c_agent = "('p, 'o, 'r, 'e) base_agent" +
  rollouts :: "'x rollout_storage"
  final_rewards :: "real list"

text \<open>
  What the A2C agent calls and does not define: the actor-critic network (logits, values
  and new recurrent states for a batch), torch's \<^verbatim>\<open>F.log_softmax\<close> and the probabilities,
  entropy and sampler of \<^verbatim>\<open>torch.distributions.Categorical\<close> (each on one row of logits),
  the rollout storage's methods, torch's optimizer and gradient clipping, and the
  environment.
\<close>

record ('p, 'g, 'o, 'r, 'e, 'x) a2c_world =
  ac_forward :: "'p \<Rightarrow> observation list \<Rightarrow> real list list \<Rightarrow> real list
                 \<Rightarrow> 'g scalar list list \<times> 'g scalar list \<times> 'g scalar list list"
  state_size :: nat
  log_softmax :: "'g scalar list \<Rightarrow> 'g scalar list"
  categorical_probs :: "'g scalar list \<Rightarrow> 'g scalar list"
  categorical_entropy :: "'g scalar list \<Rightarrow> 'g scalar"
  categorical_sample :: "real list list \<Rightarrow> 'r \<Rightarrow> int list \<times> 'r"
  ro_insert :: "observation list \<Rightarrow> real list list \<Rightarrow> int list \<Rightarrow> real list \<Rightarrow> real list
                \<Rightarrow> real list \<Rightarrow> real list \<Rightarrow> 'x rollout_storage \<Rightarrow> 'x rollout_storage"
  ro_compute_returns :: "real list \<Rightarrow> real \<Rightarrow> 'x rollout_storage \<Rightarrow> 'x rollout_storage"
  ro_after_update :: "'x rollout_storage \<Rightarrow> 'x rollout_storage"
  ac_clip_grad_norm :: "'g \<Rightarrow> real \<Rightarrow> 'g"
  ac_optimizer_step :: "'o \<Rightarrow> 'p \<Rightarrow> 'g \<Rightarrow> 'o \<times> 'p"
  ac_learning_rate :: "'o \<Rightarrow> real"
  ac_grad_norm :: "'g \<Rightarrow> real"
  ac_sigma_norm :: "'p \<Rightarrow> real"
  ac_env_step :: "'e \<Rightarrow> int list \<Rightarrow> (observation list \<times> real list \<times> bool list \<times> info list) \<times> 'e"

definition py_index :: "'a list \<Rightarrow> int \<Rightarrow> py_error + 'a" where
  \<comment> \<open>\<^verbatim>\<open>xs[i]\<close>: a negative index counts from the end, an index out of range raises\<close>
  "py_index xs i =
     (if 0 \<le> i \<and> i < int (length xs) then Inr (xs ! nat i)
      else if i < 0 \<and> - int (length xs) \<le> i then Inr (xs ! nat (int (length xs) + i))
      else Inl IndexError)"

definition A2C_get_action ::
  "('p, 'g::real_vector, 'o, 'r, 'e, 'x) a2c_world \<Rightarrow> observation list \<Rightarrow> real list list
   \<Rightarrow> real list \<Rightarrow> bool \<Rightarrow> ('p, 'o, 'r, 'e, 'x) a2c_agent
   \<Rightarrow> py_error + (('g scalar list \<times> int list \<times> 'g scalar list \<times> 'g scalar list list)
                    \<times> ('p, 'o, 'r, 'e, 'x) a2c_agent)" where
  "A2C_get_action W s states masks deterministic ag =
     (case ac_forward W (model ag) s states masks of
        (logits, values, states') \<Rightarrow>
          (case (if deterministic
                 then (case sequence_err
                              (map (\<lambda>row. argmax_row (map item (categorical_probs W row))) logits) of
                         Inl e \<Rightarrow> Inl e
                       | Inr acts \<Rightarrow> Inr (acts, rng ag))
                 else Inr (categorical_sample W (map (map item) logits) (rng ag))) of
             Inl e \<Rightarrow> Inl e
           | Inr (acts, r') \<Rightarrow>
               (case gather1 (map (log_softmax W) logits) acts of
                  Inl e \<Rightarrow> Inl e
                | Inr action_log_probs \<Rightarrow>
                    Inr ((values, acts, action_log_probs, states'), ag\<lparr>rng := r'\<rparr>))))"

definition evaluate_actions ::
  "('p, 'g::real_vector, 'o, 'r, 'e, 'x) a2c_world \<Rightarrow> observation list \<Rightarrow> int list
   \<Rightarrow> real list list \<Rightarrow> real list \<Rightarrow> ('p, 'o, 'r, 'e, 'x) a2c_agent
   \<Rightarrow> py_error + ('g scalar list \<times> 'g scalar list \<times> 'g scalar \<times> 'g scalar list list)" where
  "evaluate_actions W s acts states masks ag =
     (case ac_forward W (model ag) s states masks of
        (logits, values, states') \<Rightarrow>
          (case gather1 (map (log_softmax W) logits) acts of
             Inl e \<Rightarrow> Inl e
           | Inr action_log_probs \<Rightarrow>
               Inr (values, action_log_probs, t_mean (map (categorical_entropy W) logits), states')))"

definition get_values ::
  "('p, 'g, 'o, 'r, 'e, 'x) a2c_world \<Rightarrow> observation list \<Rightarrow> real list list \<Rightarrow> real list
   \<Rightarrow> ('p, 'o, 'r, 'e, 'x) a2c_agent \<Rightarrow> 'g scalar list" where
  "get_values W s states masks ag =
     (case ac_forward W (model ag) s states masks of (logits, values, states') \<Rightarrow> values)"

definition A2C_compute_loss ::
  "('p, 'g::real_vector, 'o, 'r, 'e, 'x) a2c_world \<Rightarrow> config \<Rightarrow> 'x rollout_storage
   \<Rightarrow> real list \<Rightarrow> int \<Rightarrow> ('p, 'o, 'r, 'e, 'x) a2c_agent
   \<Rightarrow> py_error + (('g scalar \<times> 'g scalar \<times> 'g scalar \<times> 'g scalar \<times> real)
                    \<times> 'x rollout_storage \<times> ('p, 'o, 'r, 'e, 'x) a2c_agent)" where
  \<comment> \<open>tensors of shape \<open>[num_steps, num_processes, 1]\<close> are flat lists in time-major order;
      the result carries the storage as \<^verbatim>\<open>compute_returns\<close> has left it. The storage
      allocates \<^verbatim>\<open>returns\<close> one step longer than \<^verbatim>\<open>rewards\<close>, for the same environments,
      so \<^verbatim>\<open>returns[:-1]\<close> has the shape of the values; a record whose \<open>ro_returns\<close> has
      another shape is no storage, and the model raises on it\<close>
  "A2C_compute_loss W cfg ro next_value tstep ag =
     (let num_steps = length (ro_rewards ro);
          num_processes = (case ro_rewards ro of [] \<Rightarrow> 0 | r # _ \<Rightarrow> length r);
          ro' = ro_compute_returns W next_value (gamma cfg) ro
      in case py_index (ro_states ro') 0 of
           Inl e \<Rightarrow> Inl e
         | Inr states0 \<Rightarrow>
         (case view_feats (state_size W) states0 of
           Inl e \<Rightarrow> Inl e
         | Inr states \<Rightarrow>
         (case evaluate_actions W (concat (butlast (ro_observations ro')))
                 (concat (ro_actions ro')) states (concat (butlast (ro_masks ro'))) ag of
           Inl e \<Rightarrow> Inl e
         | Inr (values, action_log_probs, dist_entropy, states') \<Rightarrow>
             if length values \<noteq> num_steps * num_processes
                \<or> length action_log_probs \<noteq> num_steps * num_processes
                \<or> map length (butlast (ro_returns ro')) \<noteq> replicate num_steps num_processes
             then Inl RuntimeError
             else
               (let advantages = map2 (-) (map const (concat (butlast (ro_returns ro')))) values;
                    value_loss = t_mean (map (\<lambda>a. pow2 a * const 0.5) advantages);
                    action_loss = - t_mean (map2 (*) (map detach advantages) action_log_probs);
                    loss0 = action_loss + const (value_loss_weight cfg) * value_loss;
                    loss = loss0 - const (entropy_loss_weight cfg) * dist_entropy;
                    tb1 = add_scalar ''Loss/Total Loss'' (item loss) tstep (tb_writer ag);
                    tb2 = add_scalar ''Loss/Policy Loss'' (item action_loss) tstep tb1;
                    tb3 = add_scalar ''Loss/Value Loss'' (item value_loss) tstep tb2;
                    tb4 = add_scalar ''Loss/Forward Dynamics Loss'' 0 tstep tb3;
                    tb5 = add_scalar ''Loss/Inverse Dynamics Loss'' 0 tstep tb4;
                    tb6 = add_scalar ''Policy/Entropy'' (item dist_entropy) tstep tb5;
                    tb7 = add_scalar ''Policy/Value Estimate''
                            (np_mean (map item values)) tstep tb6;
                    tb8 = add_scalar ''Learning/Learning Rate''
                            (ac_learning_rate W (optimizer ag)) tstep tb7
                in Inr ((loss, action_loss, value_loss, dist_entropy, 0),
                        ro', ag\<lparr>tb_writer := tb8\<rparr>)))))"

definition A2C_update' ::
  "('p, 'g::real_vector, 'o, 'r, 'e, 'x) a2c_world \<Rightarrow> config \<Rightarrow> 'x rollout_storage
   \<Rightarrow> real list \<Rightarrow> int \<Rightarrow> ('p, 'o, 'r, 'e, 'x) a2c_agent
   \<Rightarrow> py_error + ((real \<times> real \<times> real \<times> real)
                    \<times> 'x rollout_storage \<times> ('p, 'o, 'r, 'e, 'x) a2c_agent)" where
  \<comment> \<open>the method \<^verbatim>\<open>update_\<close>\<close>
  "A2C_update' W cfg rollout next_value tstep ag =
     (case A2C_compute_loss W cfg rollout next_value tstep ag of
        Inl e \<Rightarrow> Inl e
      | Inr ((loss, action_loss, value_loss, dist_entropy, dynamics_loss), ro', ag1) \<Rightarrow>
          (let g = ac_clip_grad_norm W (grad loss) (grad_norm_max cfg)
           in case ac_optimizer_step W (optimizer ag1) (model ag1) g of
                (opt', model') \<Rightarrow>
                  (let ag2 = ag1\<lparr>optimizer := opt', model := model'\<rparr>;
                       tb1 = add_scalar ''Learning/Grad Norm'' (ac_grad_norm W g) tstep
                               (tb_writer ag2);
                       tb2 = (if noisy_nets cfg
                              then add_scalar ''Policy/Sigma Norm'' (ac_sigma_norm W (model ag2))
                                     tstep tb1
                              else tb1)
                   in Inr ((item value_loss, item action_loss, item dist_entropy, dynamics_loss),
                           ro', ag2\<lparr>tb_writer := tb2\<rparr>))))"

definition np_inplace :: "(real \<Rightarrow> real \<Rightarrow> real) \<Rightarrow> real list \<Rightarrow> real list \<Rightarrow> py_error + real list" where
  \<comment> \<open>\<^verbatim>\<open>x op= y\<close> on numpy vectors: \<open>y\<close> has the size of \<open>x\<close> or is broadcast from size one\<close>
  "np_inplace f xs ys =
     (if length ys = length xs then Inr (map2 f xs ys)
      else if length ys = 1 then Inr (map (\<lambda>x. f x (hd ys)) xs)
      else Inl ValueError)"

definition np_binary :: "(real \<Rightarrow> real \<Rightarrow> real) \<Rightarrow> real list \<Rightarrow> real list \<Rightarrow> py_error + real list" where
  \<comment> \<open>\<^verbatim>\<open>x op y\<close> on numpy vectors\<close>
  "np_binary f xs ys =
     (if length xs = length ys then Inr (map2 f xs ys)
      else if length xs = 1 then Inr (map (f (hd xs)) ys)
      else if length ys = 1 then Inr (map (\<lambda>x. f x (hd ys)) xs)
      else Inl ValueError)"

definition done_masks :: "bool list \<Rightarrow> real list" where
  \<comment> \<open>\<^verbatim>\<open>masks = 1. - done.astype(np.float32)\<close>\<close>
  "done_masks done = map (\<lambda>d. 1 - (if d then 1 else 0)) done"

definition mask_observations :: "real list \<Rightarrow> observation list \<Rightarrow> py_error + observation list" where
  \<comment> \<open>\<^verbatim>\<open>obs *= masks.view(-1, 1, 1, 1)\<close>: every entry of the observation of environment \<open>i\<close>
      (an image, here the flat list of its entries) is multiplied by \<open>masks[i]\<close>\<close>
  "mask_observations masks obs =
     (if length masks = length obs then Inr (map2 (\<lambda>m ob. map (\<lambda>x. x * m) ob) masks obs)
      else if length masks = 1 then Inr (map (map (\<lambda>x. x * hd masks)) obs)
      else Inl RuntimeError)"

fun A2C_info_loop ::
  "int \<Rightarrow> nat \<Rightarrow> info list \<Rightarrow> bool list \<Rightarrow> real list \<Rightarrow> real list \<times> tb_scalar list
   \<Rightarrow> py_error + (real list \<times> tb_scalar list)" where
  \<comment> \<open>\<^verbatim>\<open>for idx, inf in enumerate(info)\<close>, on \<open>(last_100_rewards, tb_writer)\<close>\<close>
  "A2C_info_loop t idx [] done fr st = Inr st"
| "A2C_info_loop t idx (inf' # infs) done fr (win, tb) =
     (case (case inf' ''episode'' of
              None \<Rightarrow> Inr (win, tb)
            | Some ep \<Rightarrow>
                (case ep ''r'' of
                   None \<Rightarrow> Inl KeyError
                 | Some r \<Rightarrow>
                     (case ep ''l'' of
                        None \<Rightarrow> Inl KeyError
                      | Some l \<Rightarrow>
                          Inr (deque_append 100 win r,
                               add_scalar ''Performance/Episode Length'' l (t + int idx)
                                 (add_scalar ''Performance/Environment Reward'' r (t + int idx)
                                    tb))))) of
        Inl e \<Rightarrow> Inl e
      | Inr (win', tb') \<Rightarrow>
          if length done \<le> idx then Inl IndexError
          else if done ! idx then
            (if length fr \<le> idx then Inl IndexError
             else A2C_info_loop t (Suc idx) infs done fr
                    (win', add_scalar ''Performance/Agent Reward'' (fr ! idx) (t + int idx) tb'))
          else A2C_info_loop t (Suc idx) infs done fr (win', tb'))"

definition A2C_step ::
  "('p, 'g::real_vector, 'o, 'r, 'e, 'x) a2c_world \<Rightarrow> config \<Rightarrow> int \<Rightarrow> int
   \<Rightarrow> ('p, 'o, 'r, 'e, 'x) a2c_agent \<Rightarrow> py_error + ('p, 'o, 'r, 'e, 'x) a2c_agent" where
  "A2C_step W cfg current_timestep step ag =
     (case py_index (ro_observations (rollouts ag)) step of Inl e \<Rightarrow> Inl e | Inr s \<Rightarrow>
      case py_index (ro_states (rollouts ag)) step of Inl e \<Rightarrow> Inl e | Inr sts \<Rightarrow>
      case py_index (ro_masks (rollouts ag)) step of Inl e \<Rightarrow> Inl e | Inr ms \<Rightarrow>
      case A2C_get_action W s sts ms False ag of
        Inl e \<Rightarrow> Inl e
      | Inr ((values, acts, action_log_prob, states), ag1) \<Rightarrow>
      case ac_env_step W (envs ag1) acts of
        ((obs0, reward, done, info), env') \<Rightarrow>
      (let obs = s_normalise (s_norm cfg) obs0;
           masks = done_masks done
       in case np_inplace (+) (episode_rewards ag1) reward of Inl e \<Rightarrow> Inl e | Inr er1 \<Rightarrow>
          case np_inplace (*) (final_rewards ag1) masks of Inl e \<Rightarrow> Inl e | Inr fr1 \<Rightarrow>
          case np_binary (*) (map (\<lambda>m. 1 - m) masks) er1 of Inl e \<Rightarrow> Inl e | Inr carry \<Rightarrow>
          case np_inplace (+) fr1 carry of Inl e \<Rightarrow> Inl e | Inr fr2 \<Rightarrow>
          case np_inplace (*) er1 masks of Inl e \<Rightarrow> Inl e | Inr er2 \<Rightarrow>
          case A2C_info_loop current_timestep 0 info done fr2
                 (last_100_rewards ag1, tb_writer ag1) of
            Inl e \<Rightarrow> Inl e
          | Inr (win, tb) \<Rightarrow>
          case mask_observations masks obs of Inl e \<Rightarrow> Inl e | Inr masked \<Rightarrow>
            Inr (ag1\<lparr>envs := env', episode_rewards := er2, final_rewards := fr2,
                     last_100_rewards := win, tb_writer := tb,
                     rollouts :=
                       ro_insert W masked (map (map item) states) acts
                         (map item action_log_prob) (map item values) reward masks
                         (rollouts ag1)\<rparr>)))"

definition A2C_next_value ::
  "('p, 'g::real_vector, 'o, 'r, 'e, 'x) a2c_world \<Rightarrow> ('p, 'o, 'r, 'e, 'x) a2c_agent
   \<Rightarrow> py_error + 'g scalar list" where
  \<comment> \<open>the \<^verbatim>\<open>with torch.no_grad():\<close> block of \<^verbatim>\<open>update\<close>\<close>
  "A2C_next_value W ag =
     (case py_index (ro_observations (rollouts ag)) (- 1) of Inl e \<Rightarrow> Inl e | Inr s \<Rightarrow>
      case py_index (ro_states (rollouts ag)) (- 1) of Inl e \<Rightarrow> Inl e | Inr sts \<Rightarrow>
      case py_index (ro_masks (rollouts ag)) (- 1) of Inl e \<Rightarrow> Inl e | Inr ms \<Rightarrow>
        Inr (no_grad (get_values W s sts ms ag)))"

definition A2C_update ::
  "('p, 'g::real_vector, 'o, 'r, 'e, 'x) a2c_world \<Rightarrow> config \<Rightarrow> int
   \<Rightarrow> ('p, 'o, 'r, 'e, 'x) a2c_agent \<Rightarrow> py_error + ('p, 'o, 'r, 'e, 'x) a2c_agent" where
  "A2C_update W cfg current_tstep ag =
     (case A2C_next_value W ag of
        Inl e \<Rightarrow> Inl e
      | Inr next_value \<Rightarrow>
          (case (if learn_start cfg \<le> current_tstep
                 then (case A2C_update' W cfg (rollouts ag) (map item next_value) current_tstep ag of
                         Inl e \<Rightarrow> Inl e
                       | Inr (losses, ro', ag') \<Rightarrow> Inr (ag'\<lparr>rollouts := ro'\<rparr>))
                 else Inr ag) of
             Inl e \<Rightarrow> Inl e
           | Inr ag1 \<Rightarrow> Inr (ag1\<lparr>rollouts := ro_after_update W (rollouts ag1)\<rparr>)))"

section \<open>A small concrete world for the A2C agent\<close>

text \<open>
  Two environments, a window of two steps. The policy has a single action, so its
  log-probability and its entropy are zero; the critic is \<open>w\<close> times the sum of the
  observation. The storage writes a step at its step pointer (observation, state and mask
  one slot later), computes discounted returns backwards from the bootstrap value, and
  counts its \<^verbatim>\<open>after_update\<close> calls in the second component of \<open>ro_private\<close>. The
  environment always answers with the first environment done and reporting an episode of
  return \<open>7\<close>.
\<close>

definition toy_returns :: "real \<Rightarrow> real list list \<Rightarrow> real list list \<Rightarrow> real list \<Rightarrow> real list list" where
  "toy_returns g rews msks next_value =
     foldr (\<lambda>(rew, msk) acc. map2 (+) (map2 (\<lambda>x m. x * g * m) (hd acc) msk) rew # acc)
       (zip rews (tl msks)) [next_value]"

definition toy_a2c_world :: "(real, real, nat, nat, nat, nat \<times> nat) a2c_world" where
  "toy_a2c_world =
     \<lparr>ac_forward = (\<lambda>w s states masks.
          (map (\<lambda>ob. [Scalar 0 0]) s,
           map (\<lambda>ob. Scalar (w * sum_list ob) (sum_list ob)) s,
           map (map const) states)),
      state_size = 1,
      log_softmax = (\<lambda>row. map (\<lambda>x. x - hd row) row),
      categorical_probs = (\<lambda>row. map (\<lambda>x. const 1) row),
      categorical_entropy = (\<lambda>row. const 0),
      categorical_sample = (\<lambda>logits r. (map (\<lambda>row. 0) logits, Suc r)),
      ro_insert = (\<lambda>obs states acts logp vals rews masks ro.
          (case ro_private ro of
             (step, n) \<Rightarrow>
               ro\<lparr>ro_observations := (ro_observations ro)[Suc step := obs],
                  ro_states := (ro_states ro)[Suc step := states],
                  ro_actions := (ro_actions ro)[step := acts],
                  ro_action_log_probs := (ro_action_log_probs ro)[step := logp],
                  ro_value_preds := (ro_value_preds ro)[step := vals],
                  ro_rewards := (ro_rewards ro)[step := rews],
                  ro_masks := (ro_masks ro)[Suc step := masks],
                  ro_private := (Suc step mod length (ro_rewards ro), n)\<rparr>)),
      ro_compute_returns = (\<lambda>next_value g ro.
          ro\<lparr>ro_returns := toy_returns g (ro_rewards ro) (ro_masks ro) next_value\<rparr>),
      ro_after_update = (\<lambda>ro.
          (case ro_private ro of
             (step, n) \<Rightarrow>
               ro\<lparr>ro_observations := (ro_observations ro)[0 := last (ro_observations ro)],
                  ro_states := (ro_states ro)[0 := last (ro_states ro)],
                  ro_masks := (ro_masks ro)[0 := last (ro_masks ro)],
                  ro_private := (step, Suc n)\<rparr>)),
      ac_clip_grad_norm = (\<lambda>g mx. max (- mx) (min mx g)),
      ac_optimizer_step = (\<lambda>opt w g. (Suc opt, w - g)),
      ac_learning_rate = (\<lambda>opt. 1),
      ac_grad_norm = (\<lambda>g. \<bar>g\<bar>),
      ac_sigma_norm = (\<lambda>w. 0),
      ac_env_step = (\<lambda>e acts.
          (([[2, 3], [4, 5]], [1, 1], [True, False],
            [[''episode'' \<mapsto> [''r'' \<mapsto> 7, ''l'' \<mapsto> 3]], Map.empty]), Suc e))\<rparr>"

definition toy_rollouts :: "(nat \<times> nat) rollout_storage" where
  "toy_rollouts =
     \<lparr>ro_observations = [[[1, 1], [1, 1]], [[1, 1], [1, 1]], [[1, 1], [1, 1]]],
      ro_states = [[[0], [0]], [[0], [0]], [[0], [0]]],
      ro_rewards = [[2, 1], [1, 1]],
      ro_value_preds = [[0, 0], [0, 0], [0, 0]],
      ro_returns = [[0, 0], [0, 0], [0, 0]],
      ro_action_log_probs = [[0, 0], [0, 0]],
      ro_actions = [[0, 0], [0, 0]],
      ro_masks = [[1, 1], [1, 1], [1, 1]],
      ro_private = (0, 0)\<rparr>"

definition toy_a2c_agent :: "(real, nat, nat, nat, nat \<times> nat) a2c_agent" where
  "toy_a2c_agent =
     \<lparr>static_policy = False, num_feats = 2, num_actions = 1, envs = 0, model = 1,
      optimizer = 0, episode_rewards = [0, 0], last_100_rewards = [], tb_writer = [], rng = 0,
      rollouts = toy_rollouts, final_rewards = [0, 0]\<rparr>"

section \<open>Frame lemmas for the DQN update\<close>

lemma prep_minibatch_frame:
  "prep_minibatch W cfg ag = Inr (bv, ag2) \<Longrightarrow> \<exists>r'. ag2 = ag\<lparr>rng := r'\<rparr>"
  unfolding prep_minibatch_def
  by (auto split: sum.splits prod.splits)

lemma DQN_compute_loss_frame:
  "DQN_compute_loss W cfg bv tstep ag = Inr (l, ag3) \<Longrightarrow> \<exists>tb. ag3 = ag\<lparr>tb_writer := tb\<rparr>"
  unfolding DQN_compute_loss_def
  by (auto split: sum.splits prod.splits)

lemma update_target_model_count:
  "update_target_model cfg ag = Inr ag' \<Longrightarrow>
     update_count ag' = (update_count ag + 1) mod target_net_update_freq cfg
   \<and> model ag' = model ag \<and> static_policy ag' = static_policy ag
   \<and> target_model ag' = (if update_count ag' = 0 then model ag else target_model ag)"
  unfolding update_target_model_def
  by (auto simp: Let_def split: if_splits)

lemma DQN_log_update_frame:
  "\<exists>tb. DQN_log_update W cfg li g tstep ag = ag\<lparr>tb_writer := tb\<rparr>"
  unfolding DQN_log_update_def Let_def by blast

lemma DQN_update'_learning:
  assumes "DQN_update' W cfg s a r s' t tstep ag = Inr ag'"
    and "\<not> static_policy ag" and "learn_start cfg \<le> tstep"
  shows "update_count ag' = (update_count ag + 1) mod target_net_update_freq cfg
       \<and> static_policy ag' = static_policy ag
       \<and> target_model ag' = (if update_count ag' = 0 then model ag' else target_model ag)"
proof -
  let ?ag1 = "append_to_replay W s a r s' t ag"
  from assms obtain bv ag2 where p: "prep_minibatch W cfg ?ag1 = Inr (bv, ag2)"
    by (auto simp: DQN_update'_def Let_def split: sum.splits)
  from assms p obtain l ag3 where c: "DQN_compute_loss W cfg bv tstep ag2 = Inr (l, ag3)"
    by (auto simp: DQN_update'_def Let_def split: sum.splits)
  obtain opt' model' where o: "optimizer_step W (optimizer ag3) (model ag3)
      (clip_grad_norm W (grad l) (grad_norm_max cfg)) = (opt', model')"
    by (cases "optimizer_step W (optimizer ag3) (model ag3)
      (clip_grad_norm W (grad l) (grad_norm_max cfg))") auto
  from assms p c o obtain ag4 where
    u: "update_target_model cfg (ag3\<lparr>optimizer := opt', model := model'\<rparr>) = Inr ag4"
    and r: "ag' = DQN_log_update W cfg (item l) (clip_grad_norm W (grad l) (grad_norm_max cfg)) tstep ag4"
    by (auto simp: DQN_update'_def Let_def split: sum.splits)
  from prep_minibatch_frame[OF p] obtain r' where ag2: "ag2 = ?ag1\<lparr>rng := r'\<rparr>" by blast
  from DQN_compute_loss_frame[OF c] obtain tb where ag3: "ag3 = ag2\<lparr>tb_writer := tb\<rparr>" by blast
  from DQN_log_update_frame[of W cfg "item l" "clip_grad_norm W (grad l) (grad_norm_max cfg)" tstep ag4] r
  obtain tb' where ag': "ag' = ag4\<lparr>tb_writer := tb'\<rparr>" by auto
  note k = update_target_model_count[OF u]
  show ?thesis using k by (simp add: ag' ag3 ag2 append_to_replay_def)
qed

lemma DQN_updates_length:
  "DQN_updates W cfg calls ag = Inr ags \<Longrightarrow> length ags = length calls"
  by (induction calls arbitrary: ag ags) (auto split: sum.splits)

lemma DQN_updates_inv:
  assumes "DQN_updates W cfg calls ag = Inr ags"
    and "\<not> static_policy ag"
    and "\<forall>c \<in> set calls. learn_start cfg \<le> snd (snd (snd (snd (snd c))))"
    and "n < length ags"
  shows "update_count (ags ! n) = (update_count ag + int (Suc n)) mod target_net_update_freq cfg
       \<and> target_model (ags ! n) =
           (if update_count (ags ! n) = 0 then model (ags ! n) else target_model ((ag # ags) ! n))"
  using assms
proof (induction calls arbitrary: ag ags n)
  case Nil
  then show ?case by simp
next
  case (Cons c calls)
  obtain s a r s' t tstep where c: "c = (s, a, r, s', t, tstep)" by (cases c) auto
  from Cons.prems(1) c obtain ag' ags' where
    st: "DQN_update' W cfg s a r s' t tstep ag = Inr ag'"
    and rest: "DQN_updates W cfg calls ag' = Inr ags'"
    and ags: "ags = ag' # ags'"
    by (auto split: sum.splits)
  from Cons.prems(3) c have ts: "learn_start cfg \<le> tstep" by simp
  note one = DQN_update'_learning[OF st Cons.prems(2) ts]
  show ?case
  proof (cases n)
    case 0
    then show ?thesis using one ags by simp
  next
    case (Suc m)
    with Cons.prems(4) ags have m: "m < length ags'" by simp
    have ns: "\<not> static_policy ag'" using one Cons.prems(2) by simp
    from Cons.prems(3) have all: "\<forall>c \<in> set calls. learn_start cfg \<le> snd (snd (snd (snd (snd c))))"
      by simp
    note ih = Cons.IH[OF rest ns all m]
    have "((update_count ag + 1) mod target_net_update_freq cfg + int (Suc m))
            mod target_net_update_freq cfg
        = ((update_count ag + 1) + int (Suc m)) mod target_net_update_freq cfg"
      by (rule mod_add_left_eq)
    then have "(update_count ag' + int (Suc m)) mod target_net_update_freq cfg
        = (update_count ag + int (Suc n)) mod target_net_update_freq cfg"
      using one Suc by (simp add: add.assoc)
    then show ?thesis using ih Suc ags by simp
  qed
qed

section \<open>The concrete world, evaluated\<close>

lemma toy_world_sel:
  "q_forward toy_world = (\<lambda>w X. map (\<lambda>obs. [Scalar 0 0, Scalar (w * sum_list obs) (sum_list obs)]) X)"
  "memory_push toy_world = (\<lambda>m t. Some t)"
  "memory_sample toy_world = (\<lambda>m n r. case m of None \<Rightarrow> Inl ValueError
                                 | Some t \<Rightarrow> Inr (toy_batch (replicate n t), Suc r))"
  "clip_grad_norm toy_world = (\<lambda>g mx. max (- mx) (min mx g))"
  "optimizer_step toy_world = (\<lambda>opt w g. (Suc opt, w - g))"
  "np_random toy_world = (\<lambda>r. (if r mod 3 = 0 then 0.05 else 0.9, Suc r))"
  "np_randint toy_world = (\<lambda>lo hi n r. (replicate n (hi - 1), Suc r))"
  by (simp_all add: toy_world_def)

lemma toy_config_sel:
  "noisy_nets toy_config = False" "s_norm toy_config = None" "gamma toy_config = 0.5"
  "learn_start toy_config = 2" "batch_size toy_config = 1" "target_net_update_freq toy_config = 5"
  "grad_norm_max toy_config = 10"
  by (simp_all add: toy_config_def)

lemma toy_target:
  assumes "0 \<le> target_model ag" "target_model ag \<le> 10"
  shows "DQN_target toy_world toy_config ag [100] [[1]] [0]
         = Inr [Scalar (100 + target_model ag / 2) 0]"
  using assms
  by (simp add: DQN_target_def toy_world_sel toy_config_sel broadcast2_def const_def no_grad_def
      detach_def plus_scalar_def minus_scalar_def times_scalar_def)

lemma toy_compute_loss:
  assumes "0 \<le> model ag" "model ag \<le> 10" "0 \<le> target_model ag" "target_model ag \<le> 10"
  shows "\<exists>l ag'. DQN_compute_loss toy_world toy_config ([[1]], [1], [100], [[1]], [0], [0], [1]) 2 ag
         = Inr (l, ag') \<and> grad l = - 1"
  using assms
  by (simp add: DQN_compute_loss_def toy_target gather1_def toy_world_sel loss_fun_def broadcast2_def
      smooth_l1_def t_mean_def t_abs_def const_def minus_scalar_def uminus_scalar_def)

section \<open>The exploration schedule\<close>

text \<open>
  Claim C10. \<^verbatim>\<open>training_priors\<close> of the DQN agent chooses the schedule by the shape of
  the configuration: when \<open>epsilon_final\<close> has exactly one element it constructs an
  \<open>ExponentialSchedule\<close> if \<open>epsilon_decay[0] > 1.0\<close> and a \<open>LinearSchedule\<close> otherwise;
  when \<open>epsilon_final\<close> has more than one element it constructs a \<open>PiecewiseSchedule\<close>.
  The constructors receive \<open>epsilon_start\<close>, the final value(s), the decay(s) and
  \<open>max_tsteps\<close>, and the schedule is what the agent holds in \<open>anneal_eps\<close> afterwards.
\<close>

theorem training_priors_schedule_dispatch:
  "(length (epsilon_final cfg) = 1 \<and> epsilon_decay cfg \<noteq> [] \<and> epsilon_decay cfg ! 0 > 1.0 \<longrightarrow>
      (\<exists>ag'. DQN_training_priors W cfg ag = Inr ag' \<and>
         anneal_eps ag' = ExponentialSchedule (epsilon_start cfg) (epsilon_final cfg ! 0)
                            (epsilon_decay cfg ! 0) (max_tsteps cfg)))
 \<and> (length (epsilon_final cfg) = 1 \<and> epsilon_decay cfg \<noteq> [] \<and> \<not> epsilon_decay cfg ! 0 > 1.0 \<longrightarrow>
      (\<exists>ag'. DQN_training_priors W cfg ag = Inr ag' \<and>
         anneal_eps ag' = LinearSchedule (epsilon_start cfg) (epsilon_final cfg ! 0)
                            (epsilon_decay cfg ! 0) (max_tsteps cfg)))
 \<and> (length (epsilon_final cfg) > 1 \<longrightarrow>
      (\<exists>ag'. DQN_training_priors W cfg ag = Inr ag' \<and>
         anneal_eps ag' = PiecewiseSchedule (epsilon_start cfg) (epsilon_final cfg)
                            (epsilon_decay cfg) (max_tsteps cfg)))"
proof -
  obtain obs env' where r: "env_reset W (envs ag) = (obs, env')"
    by (cases "env_reset W (envs ag)") auto
  show ?thesis
    by (auto simp: DQN_training_priors_def make_schedule_def r split: list.splits)
qed

theorem training_priors_schedule_dispatch_witness:
  "(\<exists>ag'. DQN_training_priors toy_world toy_config toy_agent = Inr ag' \<and>
          anneal_eps ag' = ExponentialSchedule 1 0.1 2 100)
 \<and> (\<exists>ag'. DQN_training_priors toy_world (toy_config\<lparr>epsilon_decay := [0.5]\<rparr>) toy_agent = Inr ag' \<and>
          anneal_eps ag' = LinearSchedule 1 0.1 0.5 100)
 \<and> (\<exists>ag'. DQN_training_priors toy_world
                 (toy_config\<lparr>epsilon_final := [0.5, 0.1], epsilon_decay := [0.3, 0.6]\<rparr>) toy_agent
               = Inr ag' \<and>
          anneal_eps ag' = PiecewiseSchedule 1 [0.5, 0.1] [0.3, 0.6] 100)"
  using training_priors_schedule_dispatch [of toy_config toy_world toy_agent]
    training_priors_schedule_dispatch [of "toy_config\<lparr>epsilon_decay := [0.5]\<rparr>" toy_world toy_agent]
    training_priors_schedule_dispatch
      [of "toy_config\<lparr>epsilon_final := [0.5, 0.1], epsilon_decay := [0.3, 0.6]\<rparr>" toy_world toy_agent]
  by (simp add: toy_config_def)

lemma toy_update_step:
  assumes "\<not> static_policy ag"
    "0 \<le> model ag" "model ag \<le> 10" "0 \<le> target_model ag" "target_model ag \<le> 10"
  shows "\<exists>ag'. DQN_update' toy_world toy_config [[1]] [1] [100] [[1]] [0] 2 ag = Inr ag'
           \<and> model ag' = model ag + 1"
proof -
  let ?ag1 = "append_to_replay toy_world [[1]] [1] [100] [[1]] [0] ag"
  have m: "memory ?ag1 = Some ([1], 1, 100, [1], 0)"
    by (simp add: append_to_replay_def zip5_def toy_world_sel)
  have p: "prep_minibatch toy_world toy_config ?ag1
        = Inr (([[1]], [1], [100], [[1]], [0], [0], [1]), ?ag1\<lparr>rng := Suc (rng ?ag1)\<rparr>)"
    by (simp add: prep_minibatch_def m toy_world_sel toy_config_sel toy_batch_def s_normalise_def)
  let ?ag2 = "?ag1\<lparr>rng := Suc (rng ?ag1)\<rparr>"
  have b: "0 \<le> model ?ag2" "model ?ag2 \<le> 10" "0 \<le> target_model ?ag2" "target_model ?ag2 \<le> 10"
    using assms by (simp_all add: append_to_replay_def)
  from toy_compute_loss[OF b] obtain l ag3 where
    c: "DQN_compute_loss toy_world toy_config ([[1]], [1], [100], [[1]], [0], [0], [1]) 2 ?ag2
         = Inr (l, ag3)" and g: "grad l = - 1" by blast
  from DQN_compute_loss_frame[OF c] obtain tb where ag3: "ag3 = ?ag2\<lparr>tb_writer := tb\<rparr>" by blast
  have mo: "model ag3 = model ag" by (simp add: ag3 append_to_replay_def)
  show ?thesis
    using assms(1) p c g mo
    by (simp add: DQN_update'_def Let_def toy_world_sel toy_config_sel update_target_model_def
        DQN_log_update_def)
qed

lemma toy_updates_run:
  assumes "\<not> static_policy ag" "0 \<le> model ag" "model ag + real n \<le> 10"
    "0 \<le> target_model ag" "target_model ag \<le> 10"
  shows "\<exists>ags. DQN_updates toy_world toy_config (replicate n toy_call) ag = Inr ags
           \<and> (\<forall>i<n. model (ags ! i) = model ag + real (Suc i))"
  using assms
proof (induction n arbitrary: ag)
  case 0
  then show ?case by simp
next
  case (Suc n)
  have le: "model ag \<le> 10" using Suc.prems(3) by simp
  from toy_update_step[OF Suc.prems(1) Suc.prems(2) le Suc.prems(4) Suc.prems(5)]
  obtain ag' where st: "DQN_update' toy_world toy_config [[1]] [1] [100] [[1]] [0] 2 ag = Inr ag'"
    and mo: "model ag' = model ag + 1" by blast
  have ls: "learn_start toy_config \<le> 2" by (simp add: toy_config_sel)
  note one = DQN_update'_learning[OF st Suc.prems(1) ls]
  have ns: "\<not> static_policy ag'" using one Suc.prems(1) by simp
  have t: "0 \<le> target_model ag'" "target_model ag' \<le> 10"
    using one mo Suc.prems by (auto split: if_splits)
  have m0: "0 \<le> model ag'" "model ag' + real n \<le> 10" using mo Suc.prems by simp_all
  from Suc.IH[OF ns m0 t] obtain ags where
    run: "DQN_updates toy_world toy_config (replicate n toy_call) ag' = Inr ags"
    and ms: "\<forall>i<n. model (ags ! i) = model ag' + real (Suc i)" by blast
  have "DQN_updates toy_world toy_config (replicate (Suc n) toy_call) ag = Inr (ag' # ags)"
    using st run by (simp add: toy_call_def)
  moreover have "\<forall>i<Suc n. model ((ag' # ags) ! i) = model ag + real (Suc i)"
  proof (intro allI impI)
    fix i assume "i < Suc n"
    then show "model ((ag' # ags) ! i) = model ag + real (Suc i)"
      using mo ms by (cases i) auto
  qed
  ultimately show ?case by blast
qed

section \<open>Target-network synchronisation\<close>

text \<open>
  Claim C3, as the code has it. Let \<open>K = target_net_update_freq > 0\<close> and let the agent
  start, as \<^verbatim>\<open>__init__\<close> leaves it, with \<open>update_count = 0\<close>. In a run of \<^verbatim>\<open>update_\<close>
  calls with learning active (\<open>static_policy\<close> false, \<open>tstep \<ge> learn_start\<close>) the counter
  after the \<open>n\<close>-th call is \<open>n mod K\<close>; on every \<open>K\<close>-th call the target network becomes an
  exact copy of the online network as the optimizer has just left it, and every other call
  leaves the target network as it was. For \<open>K = 5\<close>: after the 5th call target equals
  online; after each of the calls 6 to 9 the target is still the online network of call 5,
  so that target and online are equal then exactly when the online network is what it was
  after call 5; the 10th call makes them equal again. Whether the two differ in between is
  the optimizer's doing, not the agent's.
\<close>

theorem target_sync_every_K:
  assumes run: "DQN_updates W cfg calls ag = Inr ags"
    and ns: "\<not> static_policy ag"
    and learning: "\<forall>(s, a, r, s', terminal, tstep) \<in> set calls. learn_start cfg \<le> tstep"
    and K: "0 < target_net_update_freq cfg"
    and c0: "update_count ag = 0"
  shows "length ags = length calls
    \<and> (\<forall>n < length ags.
          update_count (ags ! n) = int (Suc n) mod target_net_update_freq cfg
        \<and> (int (Suc n) mod target_net_update_freq cfg = 0 \<longrightarrow>
             target_model (ags ! n) = model (ags ! n))
        \<and> (int (Suc n) mod target_net_update_freq cfg \<noteq> 0 \<longrightarrow>
             target_model (ags ! n) = target_model ((ag # ags) ! n)))
    \<and> (target_net_update_freq cfg = 5 \<and> 10 \<le> length ags \<longrightarrow>
          target_model (ags ! 4) = model (ags ! 4)
        \<and> (\<forall>n \<in> {5, 6, 7, 8}.
              target_model (ags ! n) = model (ags ! 4)
            \<and> (target_model (ags ! n) = model (ags ! n)) = (model (ags ! n) = model (ags ! 4)))
        \<and> target_model (ags ! 9) = model (ags ! 9))"
proof -
  from learning have learning': "\<forall>c \<in> set calls. learn_start cfg \<le> snd (snd (snd (snd (snd c))))"
    by auto
  have inv: "update_count (ags ! n) = int (Suc n) mod target_net_update_freq cfg
       \<and> target_model (ags ! n) =
           (if update_count (ags ! n) = 0 then model (ags ! n) else target_model ((ag # ags) ! n))"
    if "n < length ags" for n
    using DQN_updates_inv[OF run ns learning' that] c0 by simp
  have five: "target_model (ags ! 4) = model (ags ! 4)
        \<and> (\<forall>n \<in> {5, 6, 7, 8}.
              target_model (ags ! n) = model (ags ! 4)
            \<and> (target_model (ags ! n) = model (ags ! n)) = (model (ags ! n) = model (ags ! 4)))
        \<and> target_model (ags ! 9) = model (ags ! 9)"
    if k: "target_net_update_freq cfg = 5" and len: "10 \<le> length ags"
  proof -
    have a4: "target_model (ags ! 4) = model (ags ! 4)" using inv[of 4] k len by simp
    have a5: "target_model (ags ! 5) = model (ags ! 4)" using inv[of 5] k len a4 by simp
    have a6: "target_model (ags ! 6) = model (ags ! 4)" using inv[of 6] k len a5 by simp
    have a7: "target_model (ags ! 7) = model (ags ! 4)" using inv[of 7] k len a6 by simp
    have a8: "target_model (ags ! 8) = model (ags ! 4)" using inv[of 8] k len a7 by simp
    have a9: "target_model (ags ! 9) = model (ags ! 9)" using inv[of 9] k len by simp
    show ?thesis using a4 a5 a6 a7 a8 a9 by auto
  qed
  show ?thesis
    using DQN_updates_length[OF run] inv five by auto
qed

theorem target_sync_every_K_witness:
  "\<exists>ags. DQN_updates toy_world toy_config (replicate 10 toy_call) toy_agent = Inr ags
     \<and> \<not> static_policy toy_agent
     \<and> (\<forall>(s, a, r, s', terminal, tstep) \<in> set (replicate 10 toy_call). learn_start toy_config \<le> tstep)
     \<and> 0 < target_net_update_freq toy_config \<and> update_count toy_agent = 0
     \<and> target_net_update_freq toy_config = 5 \<and> length ags = 10
     \<and> model (ags ! 4) = 5 \<and> target_model (ags ! 4) = 5
     \<and> model (ags ! 5) = 6 \<and> target_model (ags ! 5) = 5
     \<and> model (ags ! 6) = 7 \<and> target_model (ags ! 6) = 5
     \<and> model (ags ! 7) = 8 \<and> target_model (ags ! 7) = 5
     \<and> model (ags ! 8) = 9 \<and> target_model (ags ! 8) = 5
     \<and> model (ags ! 9) = 10 \<and> target_model (ags ! 9) = 10"
proof -
  have a: "\<not> static_policy toy_agent" "0 \<le> model toy_agent" "model toy_agent + real 10 \<le> 10"
    "0 \<le> target_model toy_agent" "target_model toy_agent \<le> 10"
    by (simp_all add: toy_agent_def)
  from toy_updates_run[OF a] obtain ags where
    run: "DQN_updates toy_world toy_config (replicate 10 toy_call) toy_agent = Inr ags"
    and ms: "\<forall>i<10. model (ags ! i) = model toy_agent + real (Suc i)" by blast
  have l: "\<forall>(s, a, r, s', terminal, tstep) \<in> set (replicate 10 toy_call). learn_start toy_config \<le> tstep"
    by (simp add: toy_call_def toy_config_sel)
  have k: "0 < target_net_update_freq toy_config" "target_net_update_freq toy_config = 5"
    by (simp_all add: toy_config_sel)
  have c: "update_count toy_agent = 0" by (simp add: toy_agent_def)
  note th = target_sync_every_K[OF run a(1) l k(1) c]
  have len: "length ags = 10" using th by simp
  have m: "model (ags ! i) = real (Suc i)" if "i < 10" for i
    using ms that by (simp add: toy_agent_def)
  show ?thesis
    using run a(1) l k c len th m[of 4] m[of 5] m[of 6] m[of 7] m[of 8] m[of 9]
    by (intro exI[of _ ags]) simp
qed

lemma toy_frozen_world_sel:
  "q_forward toy_frozen_world = q_forward toy_world"
  "memory_push toy_frozen_world = memory_push toy_world"
  "memory_sample toy_frozen_world = memory_sample toy_world"
  "clip_grad_norm toy_frozen_world = clip_grad_norm toy_world"
  "optimizer_step toy_frozen_world = (\<lambda>opt w g. (Suc opt, w))"
  by (simp_all add: toy_frozen_world_def)

lemma toy_frozen_target:
  "DQN_target toy_frozen_world cfg ag br bns bt = DQN_target toy_world cfg ag br bns bt"
  by (simp add: DQN_target_def toy_frozen_world_sel)

lemma toy_frozen_compute_loss:
  "DQN_compute_loss toy_frozen_world cfg bv t ag = DQN_compute_loss toy_world cfg bv t ag"
  by (simp add: DQN_compute_loss_def toy_frozen_target toy_frozen_world_sel
      split: prod.splits sum.splits)

lemma toy_frozen_update_step:
  assumes "\<not> static_policy ag"
    "0 \<le> model ag" "model ag \<le> 10" "0 \<le> target_model ag" "target_model ag \<le> 10"
  shows "\<exists>ag'. DQN_update' toy_frozen_world toy_config [[1]] [1] [100] [[1]] [0] 2 ag = Inr ag'
           \<and> model ag' = model ag"
proof -
  let ?ag1 = "append_to_replay toy_frozen_world [[1]] [1] [100] [[1]] [0] ag"
  have m: "memory ?ag1 = Some ([1], 1, 100, [1], 0)"
    by (simp add: append_to_replay_def zip5_def toy_frozen_world_sel toy_world_sel)
  have p: "prep_minibatch toy_frozen_world toy_config ?ag1
        = Inr (([[1]], [1], [100], [[1]], [0], [0], [1]), ?ag1\<lparr>rng := Suc (rng ?ag1)\<rparr>)"
    by (simp add: prep_minibatch_def m toy_frozen_world_sel toy_world_sel toy_config_sel
        toy_batch_def s_normalise_def)
  let ?ag2 = "?ag1\<lparr>rng := Suc (rng ?ag1)\<rparr>"
  have b: "0 \<le> model ?ag2" "model ?ag2 \<le> 10" "0 \<le> target_model ?ag2" "target_model ?ag2 \<le> 10"
    using assms by (simp_all add: append_to_replay_def)
  from toy_compute_loss[OF b] obtain l ag3 where
    c: "DQN_compute_loss toy_frozen_world toy_config ([[1]], [1], [100], [[1]], [0], [0], [1]) 2 ?ag2
         = Inr (l, ag3)"
    unfolding toy_frozen_compute_loss by blast
  from DQN_compute_loss_frame[OF c] obtain tb where ag3: "ag3 = ?ag2\<lparr>tb_writer := tb\<rparr>" by blast
  have mo: "model ag3 = model ag" by (simp add: ag3 append_to_replay_def)
  show ?thesis
    using assms(1) p c mo
    by (simp add: DQN_update'_def Let_def toy_frozen_world_sel toy_config_sel
        update_target_model_def DQN_log_update_def)
qed

lemma toy_frozen_updates_run:
  assumes "\<not> static_policy ag" "model ag = 0" "target_model ag = 0"
  shows "\<exists>ags. DQN_updates toy_frozen_world toy_config (replicate n toy_call) ag = Inr ags
           \<and> length ags = n
           \<and> (\<forall>i<n. model (ags ! i) = 0 \<and> target_model (ags ! i) = 0)"
  using assms
proof (induction n arbitrary: ag)
  case 0
  then show ?case by simp
next
  case (Suc n)
  have b: "0 \<le> model ag" "model ag \<le> 10" "0 \<le> target_model ag" "target_model ag \<le> 10"
    using Suc.prems by simp_all
  from toy_frozen_update_step[OF Suc.prems(1) b]
  obtain ag' where
    st: "DQN_update' toy_frozen_world toy_config [[1]] [1] [100] [[1]] [0] 2 ag = Inr ag'"
    and mo: "model ag' = model ag" by blast
  have ls: "learn_start toy_config \<le> 2" by (simp add: toy_config_sel)
  note one = DQN_update'_learning[OF st Suc.prems(1) ls]
  have ns: "\<not> static_policy ag'" using one Suc.prems(1) by simp
  have m0: "model ag' = 0" using mo Suc.prems by simp
  have t0: "target_model ag' = 0" using one m0 Suc.prems by (auto split: if_splits)
  from Suc.IH[OF ns m0 t0] obtain ags where
    run: "DQN_updates toy_frozen_world toy_config (replicate n toy_call) ag' = Inr ags"
    and len: "length ags = n"
    and ms: "\<forall>i<n. model (ags ! i) = 0 \<and> target_model (ags ! i) = 0" by blast
  have "DQN_updates toy_frozen_world toy_config (replicate (Suc n) toy_call) ag = Inr (ag' # ags)"
    using st run by (simp add: toy_call_def)
  moreover have "\<forall>i<Suc n. model ((ag' # ags) ! i) = 0 \<and> target_model ((ag' # ags) ! i) = 0"
  proof (intro allI impI)
    fix i assume "i < Suc n"
    then show "model ((ag' # ags) ! i) = 0 \<and> target_model ((ag' # ags) ! i) = 0"
      using m0 t0 ms by (cases i) auto
  qed
  ultimately show ?case using len by auto
qed

text \<open>
  Claim C3, as the specification words it (target and online diverge during calls 6 to 9),
  fails: with \<open>K = 5\<close>, learning active in every call and an optimizer whose step leaves the
  weights unchanged, ten calls succeed and target and online are equal after every one of
  them, calls 6 to 9 included.
\<close>

theorem target_sync_no_divergence_counterexample:
  "\<exists>ags. DQN_updates toy_frozen_world toy_config (replicate 10 toy_call) toy_agent = Inr ags
     \<and> length ags = 10
     \<and> \<not> static_policy toy_agent \<and> update_count toy_agent = 0
     \<and> target_net_update_freq toy_config = 5
     \<and> snd (snd (snd (snd (snd toy_call)))) = 2 \<and> learn_start toy_config \<le> 2
     \<and> target_model (ags ! 4) = model (ags ! 4)
     \<and> target_model (ags ! 5) = model (ags ! 5)
     \<and> target_model (ags ! 6) = model (ags ! 6)
     \<and> target_model (ags ! 7) = model (ags ! 7)
     \<and> target_model (ags ! 8) = model (ags ! 8)
     \<and> target_model (ags ! 9) = model (ags ! 9)"
proof -
  have a: "\<not> static_policy toy_agent" "model toy_agent = 0" "target_model toy_agent = 0"
    "update_count toy_agent = 0"
    by (simp_all add: toy_agent_def)
  from toy_frozen_updates_run[OF a(1,2,3), of 10] obtain ags where
    run: "DQN_updates toy_frozen_world toy_config (replicate 10 toy_call) toy_agent = Inr ags"
    and len: "length ags = 10"
    and ms: "\<forall>i<10. model (ags ! i) = 0 \<and> target_model (ags ! i) = 0" by blast
  have c: "target_net_update_freq toy_config = 5" "snd (snd (snd (snd (snd toy_call)))) = 2"
    "learn_start toy_config \<le> 2"
    by (simp_all add: toy_config_sel toy_call_def)
  show ?thesis
    using run len a(1,4) c ms by (intro exI[of _ ags]) simp
qed

section \<open>Lemmas on the tensor operations\<close>

lemma chunks_concat:
  assumes "\<forall>x \<in> set s. length x = n" "0 < n"
  shows "chunks n (concat s) = s"
  using assms
proof (induction s)
  case Nil
  then show ?case by (simp add: chunks.simps)
next
  case (Cons x s)
  then have "x \<noteq> []" by auto
  then show ?case using Cons by (subst chunks.simps) simp
qed

lemma view_feats_id:
  assumes "\<forall>x \<in> set s. length x = n" "0 < n"
  shows "view_feats n s = Inr s"
proof -
  have "length (concat s) = n * length s"
    using assms(1) by (induction s) simp_all
  then show ?thesis using assms by (simp add: view_feats_def chunks_concat)
qed

lemma sequence_err_map_Inr:
  assumes "\<forall>x \<in> set xs. f x = Inr (g x)"
  shows "sequence_err (map f xs) = Inr (map g xs)"
  using assms by (induction xs) simp_all

lemma sequence_err_Inr_nth:
  "sequence_err xs = Inr ys \<Longrightarrow> length ys = length xs \<and> (\<forall>i < length xs. xs ! i = Inr (ys ! i))"
proof (induction xs arbitrary: ys)
  case Nil
  then show ?case by simp
next
  case (Cons x xs)
  then show ?case
    by (auto split: sum.splits simp: nth_Cons split: nat.splits)
qed

lemma argmax_from_spec:
  assumes "length L = i" "b < i" "L ! b = v" "\<forall>j < i. L ! j \<le> v" "\<forall>j < b. L ! j < v"
  shows "argmax_from b v i xs < length (L @ xs)
       \<and> (\<forall>j < length (L @ xs). (L @ xs) ! j \<le> (L @ xs) ! argmax_from b v i xs)
       \<and> (\<forall>j < argmax_from b v i xs. (L @ xs) ! j < (L @ xs) ! argmax_from b v i xs)"
  using assms
proof (induction xs arbitrary: L b v i)
  case Nil
  then show ?case by simp
next
  case (Cons x xs)
  show ?case
  proof (cases "v < x")
    case True
    have "argmax_from i x (Suc i) xs < length ((L @ [x]) @ xs)
       \<and> (\<forall>j < length ((L @ [x]) @ xs). ((L @ [x]) @ xs) ! j \<le> ((L @ [x]) @ xs) ! argmax_from i x (Suc i) xs)
       \<and> (\<forall>j < argmax_from i x (Suc i) xs. ((L @ [x]) @ xs) ! j < ((L @ [x]) @ xs) ! argmax_from i x (Suc i) xs)"
    proof (rule Cons.IH)
      show "length (L @ [x]) = Suc i" using Cons.prems by simp
      show "i < Suc i" by simp
      show "(L @ [x]) ! i = x" using Cons.prems(1) by (simp add: nth_append)
      show "\<forall>j<Suc i. (L @ [x]) ! j \<le> x"
        using Cons.prems True by (auto simp: nth_append less_Suc_eq intro: less_imp_le order_trans)
      show "\<forall>j<i. (L @ [x]) ! j < x"
        using Cons.prems True by (auto simp: nth_append intro: le_less_trans)
    qed
    then show ?thesis using True by simp
  next
    case False
    have "argmax_from b v (Suc i) xs < length ((L @ [x]) @ xs)
       \<and> (\<forall>j < length ((L @ [x]) @ xs). ((L @ [x]) @ xs) ! j \<le> ((L @ [x]) @ xs) ! argmax_from b v (Suc i) xs)
       \<and> (\<forall>j < argmax_from b v (Suc i) xs. ((L @ [x]) @ xs) ! j < ((L @ [x]) @ xs) ! argmax_from b v (Suc i) xs)"
    proof (rule Cons.IH)
      show "length (L @ [x]) = Suc i" using Cons.prems by simp
      show "b < Suc i" using Cons.prems by simp
      show "(L @ [x]) ! b = v" using Cons.prems by (simp add: nth_append)
      show "\<forall>j<Suc i. (L @ [x]) ! j \<le> v"
        using Cons.prems False by (auto simp: nth_append less_Suc_eq)
      show "\<forall>j<b. (L @ [x]) ! j < v"
        using Cons.prems by (auto simp: nth_append)
    qed
    then show ?thesis using False by simp
  qed
qed

lemma argmax_row_spec:
  assumes "xs \<noteq> []"
  shows "\<exists>k. argmax_row xs = Inr (int k) \<and> k < length xs
           \<and> (\<forall>j < length xs. xs ! j \<le> xs ! k) \<and> (\<forall>j < k. xs ! j < xs ! k)"
proof -
  obtain x ys where xs: "xs = x # ys" using assms by (cases xs) auto
  have "argmax_from 0 x 1 ys < length ([x] @ ys)
       \<and> (\<forall>j < length ([x] @ ys). ([x] @ ys) ! j \<le> ([x] @ ys) ! argmax_from 0 x 1 ys)
       \<and> (\<forall>j < argmax_from 0 x 1 ys. ([x] @ ys) ! j < ([x] @ ys) ! argmax_from 0 x 1 ys)"
    by (rule argmax_from_spec) simp_all
  then show ?thesis using xs by simp
qed

lemma foldl_max_item:
  "item (foldl (\<lambda>b y. if item b < item y then y else b) x xs) = fold max (map item xs) (item x)"
proof (induction xs arbitrary: x)
  case Nil
  then show ?case by simp
next
  case (Cons y ys)
  have "item (if item x < item y then y else x) = max (item y) (item x)"
    by (simp add: max_def)
  then show ?case using Cons[of "if item x < item y then y else x"] by simp
qed

lemma row_max_item:
  assumes "row \<noteq> []"
  shows "\<exists>m. row_max row = Inr m \<and> item m = Max (set (map item row))"
proof (cases row)
  case Nil
  then show ?thesis using assms by simp
next
  case (Cons x xs)
  have "Max (set (map item (x # xs))) = fold max (map item xs) (item x)"
    using Max.set_eq_fold[of "item x" "map item xs"] by simp
  then show ?thesis using Cons foldl_max_item[of x xs] by simp
qed

section \<open>Replay and the start of learning\<close>

lemma DQN_update'_memory:
  assumes "DQN_update' W cfg s a r s' t tstep ag = Inr ag'" and "\<not> static_policy ag"
  shows "memory ag' = foldl (memory_push W) (memory ag) (zip5 s a r s' t)"
proof (cases "tstep < learn_start cfg")
  case True
  then show ?thesis using assms by (auto simp: DQN_update'_def Let_def append_to_replay_def)
next
  case False
  let ?ag1 = "append_to_replay W s a r s' t ag"
  from assms False obtain bv ag2 where p: "prep_minibatch W cfg ?ag1 = Inr (bv, ag2)"
    by (auto simp: DQN_update'_def Let_def split: sum.splits)
  from assms False p obtain l ag3 where c: "DQN_compute_loss W cfg bv tstep ag2 = Inr (l, ag3)"
    by (auto simp: DQN_update'_def Let_def split: sum.splits)
  obtain opt' model' where o: "optimizer_step W (optimizer ag3) (model ag3)
      (clip_grad_norm W (grad l) (grad_norm_max cfg)) = (opt', model')"
    by (cases "optimizer_step W (optimizer ag3) (model ag3)
      (clip_grad_norm W (grad l) (grad_norm_max cfg))") auto
  from assms False p c o obtain ag4 where
    u: "update_target_model cfg (ag3\<lparr>optimizer := opt', model := model'\<rparr>) = Inr ag4"
    and r: "ag' = DQN_log_update W cfg (item l) (clip_grad_norm W (grad l) (grad_norm_max cfg)) tstep ag4"
    by (auto simp: DQN_update'_def Let_def split: sum.splits)
  from prep_minibatch_frame[OF p] obtain r' where ag2: "ag2 = ?ag1\<lparr>rng := r'\<rparr>" by blast
  from DQN_compute_loss_frame[OF c] obtain tb where ag3: "ag3 = ag2\<lparr>tb_writer := tb\<rparr>" by blast
  from DQN_log_update_frame[of W cfg "item l" "clip_grad_norm W (grad l) (grad_norm_max cfg)" tstep ag4] r
  obtain tb' where ag': "ag' = ag4\<lparr>tb_writer := tb'\<rparr>" by auto
  have "memory ag4 = memory (ag3\<lparr>optimizer := opt', model := model'\<rparr>)"
    using u by (auto simp: update_target_model_def Let_def split: if_splits)
  then show ?thesis by (simp add: ag' ag3 ag2 append_to_replay_def)
qed

lemma zip5_nth:
  assumes "length s = n" "length a = n" "length r = n" "length s' = n" "length t = n"
  shows "length (zip5 s a r s' t) = n
       \<and> (\<forall>i < n. zip5 s a r s' t ! i = (s ! i, a ! i, r ! i, s' ! i, t ! i))"
  using assms by (simp add: zip5_def)

text \<open>
  Claim C4. A call of \<^verbatim>\<open>update_\<close> with \<open>static_policy\<close> false pushes the zipped
  transitions \<open>(state, action, reward, next_state, terminal)\<close> to the replay memory, one per
  parallel environment; that is all that ever happens to the memory in the call. When
  \<open>tstep < learn_start\<close> the call returns right after: the agent that comes back is the
  given one with only its memory changed, so nothing was sampled (the random state is the
  same), no loss was logged, the optimizer, the online network, the target network and the
  update counter are untouched. With \<open>tstep \<ge> learn_start\<close> a call that returns has counted
  one update.
\<close>

theorem update_appends_then_gates_learning:
  assumes "\<not> static_policy ag"
  shows "(tstep < learn_start cfg \<longrightarrow>
            DQN_update' W cfg s a r s' terminal tstep ag
            = Inr (ag\<lparr>memory := foldl (memory_push W) (memory ag) (zip5 s a r s' terminal)\<rparr>))
       \<and> (\<forall>ag'. DQN_update' W cfg s a r s' terminal tstep ag = Inr ag' \<longrightarrow>
            memory ag' = foldl (memory_push W) (memory ag) (zip5 s a r s' terminal))
       \<and> (\<forall>n. length s = n \<and> length a = n \<and> length r = n \<and> length s' = n \<and> length terminal = n \<longrightarrow>
            length (zip5 s a r s' terminal) = n
          \<and> (\<forall>i < n. zip5 s a r s' terminal ! i = (s ! i, a ! i, r ! i, s' ! i, terminal ! i)))
       \<and> (\<forall>ag'. learn_start cfg \<le> tstep \<and> DQN_update' W cfg s a r s' terminal tstep ag = Inr ag' \<longrightarrow>
            update_count ag' = (update_count ag + 1) mod target_net_update_freq cfg)"
proof -
  have 1: "tstep < learn_start cfg \<longrightarrow>
            DQN_update' W cfg s a r s' terminal tstep ag
            = Inr (ag\<lparr>memory := foldl (memory_push W) (memory ag) (zip5 s a r s' terminal)\<rparr>)"
    using assms by (simp add: DQN_update'_def Let_def append_to_replay_def)
  have 2: "\<forall>ag'. DQN_update' W cfg s a r s' terminal tstep ag = Inr ag' \<longrightarrow>
            memory ag' = foldl (memory_push W) (memory ag) (zip5 s a r s' terminal)"
    using DQN_update'_memory assms by blast
  have 3: "\<forall>n. length s = n \<and> length a = n \<and> length r = n \<and> length s' = n \<and> length terminal = n \<longrightarrow>
            length (zip5 s a r s' terminal) = n
          \<and> (\<forall>i < n. zip5 s a r s' terminal ! i = (s ! i, a ! i, r ! i, s' ! i, terminal ! i))"
    using zip5_nth by blast
  have 4: "\<forall>ag'. learn_start cfg \<le> tstep \<and> DQN_update' W cfg s a r s' terminal tstep ag = Inr ag' \<longrightarrow>
            update_count ag' = (update_count ag + 1) mod target_net_update_freq cfg"
    using DQN_update'_learning assms by blast
  show ?thesis using 1 2 3 4 by blast
qed

theorem update_appends_then_gates_learning_witness:
  "\<not> static_policy toy_agent \<and> (0::int) < learn_start toy_config
   \<and> DQN_update' toy_world toy_config [[1]] [1] [100] [[1]] [0] 0 toy_agent
       = Inr (toy_agent\<lparr>memory := Some ([1], 1, 100, [1], 0)\<rparr>)
   \<and> zip5 [[1::real]] [1::int] [100::real] [[1::real]] [0::int] = [([1], 1, 100, [1], 0)]
   \<and> learn_start toy_config \<le> 2
   \<and> (\<exists>ag'. DQN_update' toy_world toy_config [[1]] [1] [100] [[1]] [0] 2 toy_agent = Inr ag'
          \<and> memory ag' = Some ([1], 1, 100, [1], 0) \<and> update_count ag' = 1)"
proof -
  have a: "\<not> static_policy toy_agent" "0 \<le> model toy_agent" "model toy_agent \<le> 10"
    "0 \<le> target_model toy_agent" "target_model toy_agent \<le> 10"
    by (simp_all add: toy_agent_def)
  from toy_update_step[OF a] obtain ag' where
    st: "DQN_update' toy_world toy_config [[1]] [1] [100] [[1]] [0] 2 toy_agent = Inr ag'" by blast
  show ?thesis
    using update_appends_then_gates_learning
            [OF a(1), of 0 toy_config toy_world "[[1]]" "[1]" "[100]" "[[1]]" "[0]"]
          update_appends_then_gates_learning
            [OF a(1), of 2 toy_config toy_world "[[1]]" "[1]" "[100]" "[[1]]" "[0]"] st
    by (simp add: toy_agent_def toy_config_sel toy_world_sel zip5_def)
qed

section \<open>Action selection of the DQN agent\<close>

lemma DQN_greedy_action_randint:
  "DQN_greedy_action (W\<lparr>np_randint := f\<rparr>) cfg s ag = DQN_greedy_action W cfg s ag"
  by (simp add: DQN_greedy_action_def split: sum.splits)

lemma sequence_err_map_total:
  assumes "\<forall>x \<in> set xs. \<exists>y. f x = Inr y"
  shows "\<exists>ys. sequence_err (map f xs) = Inr ys"
  using assms by (induction xs) auto

lemma DQN_greedy_action_argmax:
  assumes shape: "\<forall>obs \<in> set s. length obs = num_feats ag" "0 < num_feats ag"
    and rows: "\<forall>row \<in> set (q_forward W (model ag) (s_normalise (s_norm cfg) s)). row \<noteq> []"
  shows "\<exists>acts. DQN_greedy_action W cfg s ag = Inr acts
           \<and> length acts = length (q_forward W (model ag) (s_normalise (s_norm cfg) s))
           \<and> (\<forall>i < length acts. \<exists>k. acts ! i = int k
                \<and> k < length (q_forward W (model ag) (s_normalise (s_norm cfg) s) ! i)
                \<and> (\<forall>j < length (q_forward W (model ag) (s_normalise (s_norm cfg) s) ! i).
                      item (q_forward W (model ag) (s_normalise (s_norm cfg) s) ! i ! j)
                      \<le> item (q_forward W (model ag) (s_normalise (s_norm cfg) s) ! i ! k))
                \<and> (\<forall>j < k.
                      item (q_forward W (model ag) (s_normalise (s_norm cfg) s) ! i ! j)
                      < item (q_forward W (model ag) (s_normalise (s_norm cfg) s) ! i ! k)))"
proof -
  let ?Q = "q_forward W (model ag) (s_normalise (s_norm cfg) s)"
  have v: "view_feats (num_feats ag) s = Inr s" using shape by (rule view_feats_id)
  have "\<forall>row \<in> set ?Q. \<exists>y. argmax_row (map item row) = Inr y"
  proof
    fix row assume "row \<in> set ?Q"
    then have "map item row \<noteq> []" using rows by simp
    from argmax_row_spec[OF this] show "\<exists>y. argmax_row (map item row) = Inr y" by blast
  qed
  from sequence_err_map_total[OF this] obtain acts where
    sq: "sequence_err (map (\<lambda>row. argmax_row (map item row)) ?Q) = Inr acts" by blast
  then have g: "DQN_greedy_action W cfg s ag = Inr acts"
    by (simp add: DQN_greedy_action_def v)
  from sequence_err_Inr_nth[OF sq] have len: "length acts = length ?Q"
    and nth: "\<forall>i < length ?Q. argmax_row (map item (?Q ! i)) = Inr (acts ! i)" by simp_all
  have "\<exists>k. acts ! i = int k \<and> k < length (?Q ! i)
          \<and> (\<forall>j < length (?Q ! i). item (?Q ! i ! j) \<le> item (?Q ! i ! k))
          \<and> (\<forall>j < k. item (?Q ! i ! j) < item (?Q ! i ! k))" if i: "i < length acts" for i
  proof -
    have "?Q ! i \<in> set ?Q" using i len by simp
    then have "map item (?Q ! i) \<noteq> []" using rows by simp
    from argmax_row_spec[OF this] obtain k where
      k: "argmax_row (map item (?Q ! i)) = Inr (int k)" "k < length (?Q ! i)"
      "\<forall>j < length (?Q ! i). map item (?Q ! i) ! j \<le> map item (?Q ! i) ! k"
      "\<forall>j < k. map item (?Q ! i) ! j < map item (?Q ! i) ! k" by auto
    have "acts ! i = int k" using nth i len k(1) by simp
    then show ?thesis using k by auto
  qed
  then show ?thesis using g len by blast
qed

lemma toy_greedy:
  assumes "s_norm cfg = None" "model ag = 0" "num_feats ag = 1"
  shows "DQN_greedy_action toy_world cfg [[1], [1]] ag = Inr [0, 0]"
proof -
  have v: "view_feats (Suc 0) [[1], [1]] = Inr [[1], [1]]"
    by (rule view_feats_id) simp_all
  show ?thesis
    by (simp add: DQN_greedy_action_def v assms s_normalise_def toy_world_sel)
qed

text \<open>
  Claim C6. With \<open>noisy_nets\<close> enabled, or with \<open>static_policy\<close> set, \<^verbatim>\<open>get_action\<close>
  returns the greedy actions whatever \<open>eps\<close> and whatever the uniform draw are: the draw is
  made and thrown away, \<^verbatim>\<open>np.random.randint\<close> is never consulted (replacing it by any
  other function changes nothing), and on well-shaped observations every returned action is
  the index of the first maximal entry of the Q-network's output row for that environment.
\<close>

theorem noisy_or_static_is_greedy:
  assumes "noisy_nets cfg \<or> static_policy ag"
  shows "DQN_get_action W cfg s eps ag
         = (case DQN_greedy_action W cfg s ag of
              Inl e \<Rightarrow> Inl e
            | Inr acts \<Rightarrow> Inr (acts, ag\<lparr>rng := snd (np_random W (rng ag))\<rparr>))
       \<and> DQN_get_action (W\<lparr>np_randint := f\<rparr>) cfg s eps ag = DQN_get_action W cfg s eps ag
       \<and> ((\<forall>obs \<in> set s. length obs = num_feats ag) \<and> 0 < num_feats ag
           \<and> (\<forall>row \<in> set (q_forward W (model ag) (s_normalise (s_norm cfg) s)). row \<noteq> []) \<longrightarrow>
          (\<exists>acts ag'. DQN_get_action W cfg s eps ag = Inr (acts, ag')
             \<and> length acts = length (q_forward W (model ag) (s_normalise (s_norm cfg) s))
             \<and> (\<forall>i < length acts. \<exists>k. acts ! i = int k
                  \<and> k < length (q_forward W (model ag) (s_normalise (s_norm cfg) s) ! i)
                  \<and> (\<forall>j < length (q_forward W (model ag) (s_normalise (s_norm cfg) s) ! i).
                        item (q_forward W (model ag) (s_normalise (s_norm cfg) s) ! i ! j)
                        \<le> item (q_forward W (model ag) (s_normalise (s_norm cfg) s) ! i ! k))
                  \<and> (\<forall>j < k.
                        item (q_forward W (model ag) (s_normalise (s_norm cfg) s) ! i ! j)
                        < item (q_forward W (model ag) (s_normalise (s_norm cfg) s) ! i ! k)))))"
proof -
  obtain u r1 where d: "np_random W (rng ag) = (u, r1)" by (cases "np_random W (rng ag)") auto
  have 1: "DQN_get_action W cfg s eps ag
         = (case DQN_greedy_action W cfg s ag of
              Inl e \<Rightarrow> Inl e
            | Inr acts \<Rightarrow> Inr (acts, ag\<lparr>rng := snd (np_random W (rng ag))\<rparr>))"
    using assms by (auto simp: DQN_get_action_def d split: sum.splits)
  have 2: "DQN_get_action (W\<lparr>np_randint := f\<rparr>) cfg s eps ag = DQN_get_action W cfg s eps ag"
    using assms by (auto simp: DQN_get_action_def d DQN_greedy_action_randint split: sum.splits)
  show ?thesis
  proof (intro conjI impI)
    show "DQN_get_action W cfg s eps ag
         = (case DQN_greedy_action W cfg s ag of
              Inl e \<Rightarrow> Inl e
            | Inr acts \<Rightarrow> Inr (acts, ag\<lparr>rng := snd (np_random W (rng ag))\<rparr>))" by (rule 1)
    show "DQN_get_action (W\<lparr>np_randint := f\<rparr>) cfg s eps ag = DQN_get_action W cfg s eps ag"
      by (rule 2)
  next
    assume h: "(\<forall>obs \<in> set s. length obs = num_feats ag) \<and> 0 < num_feats ag
           \<and> (\<forall>row \<in> set (q_forward W (model ag) (s_normalise (s_norm cfg) s)). row \<noteq> [])"
    then have a: "\<forall>obs \<in> set s. length obs = num_feats ag" "0 < num_feats ag"
      "\<forall>row \<in> set (q_forward W (model ag) (s_normalise (s_norm cfg) s)). row \<noteq> []" by auto
    from DQN_greedy_action_argmax[OF a] obtain acts where
      g: "DQN_greedy_action W cfg s ag = Inr acts" and
      rest: "length acts = length (q_forward W (model ag) (s_normalise (s_norm cfg) s))
           \<and> (\<forall>i < length acts. \<exists>k. acts ! i = int k
                \<and> k < length (q_forward W (model ag) (s_normalise (s_norm cfg) s) ! i)
                \<and> (\<forall>j < length (q_forward W (model ag) (s_normalise (s_norm cfg) s) ! i).
                      item (q_forward W (model ag) (s_normalise (s_norm cfg) s) ! i ! j)
                      \<le> item (q_forward W (model ag) (s_normalise (s_norm cfg) s) ! i ! k))
                \<and> (\<forall>j < k.
                      item (q_forward W (model ag) (s_normalise (s_norm cfg) s) ! i ! j)
                      < item (q_forward W (model ag) (s_normalise (s_norm cfg) s) ! i ! k)))"
      by blast
    have "DQN_get_action W cfg s eps ag = Inr (acts, ag\<lparr>rng := snd (np_random W (rng ag))\<rparr>)"
      using 1 g by simp
    then show "\<exists>acts ag'. DQN_get_action W cfg s eps ag = Inr (acts, ag')
             \<and> length acts = length (q_forward W (model ag) (s_normalise (s_norm cfg) s))
             \<and> (\<forall>i < length acts. \<exists>k. acts ! i = int k
                  \<and> k < length (q_forward W (model ag) (s_normalise (s_norm cfg) s) ! i)
                  \<and> (\<forall>j < length (q_forward W (model ag) (s_normalise (s_norm cfg) s) ! i).
                        item (q_forward W (model ag) (s_normalise (s_norm cfg) s) ! i ! j)
                        \<le> item (q_forward W (model ag) (s_normalise (s_norm cfg) s) ! i ! k))
                  \<and> (\<forall>j < k.
                        item (q_forward W (model ag) (s_normalise (s_norm cfg) s) ! i ! j)
                        < item (q_forward W (model ag) (s_normalise (s_norm cfg) s) ! i ! k)))"
      using rest by blast
  qed
qed

theorem noisy_or_static_is_greedy_witness:
  "(noisy_nets (toy_config\<lparr>noisy_nets := True\<rparr>) \<or> static_policy toy_agent)
   \<and> DQN_get_action toy_world (toy_config\<lparr>noisy_nets := True\<rparr>) [[1], [1]] 1 toy_agent
       = Inr ([0, 0], toy_agent\<lparr>rng := 1\<rparr>)
   \<and> (noisy_nets toy_config \<or> static_policy (toy_agent\<lparr>static_policy := True\<rparr>))
   \<and> DQN_get_action toy_world toy_config [[1], [1]] 1 (toy_agent\<lparr>static_policy := True\<rparr>)
       = Inr ([0, 0], toy_agent\<lparr>static_policy := True, rng := 1\<rparr>)"
proof -
  have g1: "DQN_greedy_action toy_world (toy_config\<lparr>noisy_nets := True\<rparr>) [[1], [1]] toy_agent = Inr [0, 0]"
    by (rule toy_greedy) (simp_all add: toy_config_def toy_agent_def)
  have g2: "DQN_greedy_action toy_world toy_config [[1], [1]] (toy_agent\<lparr>static_policy := True\<rparr>) = Inr [0, 0]"
    by (rule toy_greedy) (simp_all add: toy_config_def toy_agent_def)
  show ?thesis
    using noisy_or_static_is_greedy
            [of "toy_config\<lparr>noisy_nets := True\<rparr>" toy_agent toy_world "[[1], [1]]" 1]
          noisy_or_static_is_greedy
            [of toy_config "toy_agent\<lparr>static_policy := True\<rparr>" toy_world "[[1], [1]]" 1]
    by (simp add: g1 g2) (simp add: toy_agent_def toy_world_sel toy_config_def)
qed

text \<open>
  Claim C5, as the code has it. With neither \<open>static_policy\<close> nor \<open>noisy_nets\<close>,
  \<^verbatim>\<open>get_action\<close> makes one uniform draw \<open>u\<close> per call and the whole batch follows it:
  if \<open>u > eps\<close> every environment receives the argmax of its row of Q-values, otherwise
  every environment receives a random action, all drawn by a single
  \<^verbatim>\<open>np.random.randint(0, num_actions, s.shape[0])\<close>. The decision is not made per
  environment.
\<close>

theorem epsilon_greedy_one_draw_per_call:
  assumes "\<not> noisy_nets cfg" "\<not> static_policy ag"
  shows "DQN_get_action W cfg s eps ag
         = (if fst (np_random W (rng ag)) > eps then
              (case DQN_greedy_action W cfg s ag of
                 Inl e \<Rightarrow> Inl e
               | Inr acts \<Rightarrow> Inr (acts, ag\<lparr>rng := snd (np_random W (rng ag))\<rparr>))
            else if num_actions ag \<le> 0 then Inl ValueError
            else
              (case np_randint W 0 (num_actions ag) (length s) (snd (np_random W (rng ag))) of
                 (acts, r2) \<Rightarrow> Inr (acts, ag\<lparr>rng := r2\<rparr>)))
       \<and> ((\<forall>obs \<in> set s. length obs = num_feats ag) \<and> 0 < num_feats ag
           \<and> (\<forall>row \<in> set (q_forward W (model ag) (s_normalise (s_norm cfg) s)). row \<noteq> []) \<longrightarrow>
          (let Q = q_forward W (model ag) (s_normalise (s_norm cfg) s)
           in \<exists>acts. DQN_greedy_action W cfg s ag = Inr acts \<and> length acts = length Q
                \<and> (\<forall>i < length acts. \<exists>k. acts ! i = int k \<and> k < length (Q ! i)
                      \<and> (\<forall>j < length (Q ! i). item (Q ! i ! j) \<le> item (Q ! i ! k))
                      \<and> (\<forall>j < k. item (Q ! i ! j) < item (Q ! i ! k)))))"
proof -
  obtain u r1 where d: "np_random W (rng ag) = (u, r1)" by (cases "np_random W (rng ag)") auto
  have 1: "DQN_get_action W cfg s eps ag
         = (if fst (np_random W (rng ag)) > eps then
              (case DQN_greedy_action W cfg s ag of
                 Inl e \<Rightarrow> Inl e
               | Inr acts \<Rightarrow> Inr (acts, ag\<lparr>rng := snd (np_random W (rng ag))\<rparr>))
            else if num_actions ag \<le> 0 then Inl ValueError
            else
              (case np_randint W 0 (num_actions ag) (length s) (snd (np_random W (rng ag))) of
                 (acts, r2) \<Rightarrow> Inr (acts, ag\<lparr>rng := r2\<rparr>)))"
    using assms by (auto simp: DQN_get_action_def d split: sum.splits)
  have 2: "(\<forall>obs \<in> set s. length obs = num_feats ag) \<and> 0 < num_feats ag
           \<and> (\<forall>row \<in> set (q_forward W (model ag) (s_normalise (s_norm cfg) s)). row \<noteq> []) \<longrightarrow>
          (let Q = q_forward W (model ag) (s_normalise (s_norm cfg) s)
           in \<exists>acts. DQN_greedy_action W cfg s ag = Inr acts \<and> length acts = length Q
                \<and> (\<forall>i < length acts. \<exists>k. acts ! i = int k \<and> k < length (Q ! i)
                      \<and> (\<forall>j < length (Q ! i). item (Q ! i ! j) \<le> item (Q ! i ! k))
                      \<and> (\<forall>j < k. item (Q ! i ! j) < item (Q ! i ! k))))"
    unfolding Let_def using DQN_greedy_action_argmax[of s ag W cfg] by blast
  show ?thesis using 1 2 by blast
qed

theorem epsilon_greedy_one_draw_per_call_witness:
  "\<not> noisy_nets toy_config \<and> \<not> static_policy toy_agent
   \<and> fst (np_random toy_world (rng toy_agent)) \<le> 0.1
   \<and> DQN_get_action toy_world toy_config [[1], [1]] 0.1 toy_agent
       = Inr ([1, 1], toy_agent\<lparr>rng := 2\<rparr>)
   \<and> fst (np_random toy_world (rng (toy_agent\<lparr>rng := 4\<rparr>))) > 0.1
   \<and> DQN_get_action toy_world toy_config [[1], [1]] 0.1 (toy_agent\<lparr>rng := 4\<rparr>)
       = Inr ([0, 0], toy_agent\<lparr>rng := 5\<rparr>)"
proof -
  have n: "\<not> noisy_nets toy_config" by (simp add: toy_config_sel)
  have s0: "\<not> static_policy toy_agent" and s1: "\<not> static_policy (toy_agent\<lparr>rng := 4\<rparr>)"
    by (simp_all add: toy_agent_def)
  have r0: "rng toy_agent = 0" and na: "num_actions toy_agent = 2"
    by (simp_all add: toy_agent_def)
  have g: "DQN_greedy_action toy_world toy_config [[1], [1]] (toy_agent\<lparr>rng := 4\<rparr>) = Inr [0, 0]"
    by (rule toy_greedy) (simp_all add: toy_config_def toy_agent_def)
  note t0 = epsilon_greedy_one_draw_per_call [OF n s0, of toy_world "[[1], [1]]" "0.1", THEN conjunct1]
  note t1 = epsilon_greedy_one_draw_per_call [OF n s1, of toy_world "[[1], [1]]" "0.1", THEN conjunct1]
  have a: "DQN_get_action toy_world toy_config [[1], [1]] 0.1 toy_agent
       = Inr ([1, 1], toy_agent\<lparr>rng := 2\<rparr>)"
    unfolding t0 by (simp add: r0 na toy_world_sel)
  have b: "DQN_get_action toy_world toy_config [[1], [1]] 0.1 (toy_agent\<lparr>rng := 4\<rparr>)
       = Inr ([0, 0], toy_agent\<lparr>rng := 5\<rparr>)"
    unfolding t1 by (simp add: g toy_world_sel)
  show ?thesis using n s0 a b by (simp add: r0 toy_world_sel)
qed

text \<open>
  Claim C5, as the specification words it (each environment decides independently), fails:
  with two environments, \<open>eps = 0.1\<close> and a generator whose first uniform draw is \<open>0.05\<close>
  and whose later ones are \<open>0.9\<close>, the code gives both environments the random action \<open>1\<close>,
  while a per-environment decision gives the second environment its greedy action \<open>0\<close>.
\<close>

theorem epsilon_greedy_per_env_counterexample:
  "DQN_get_action toy_world toy_config [[1], [1]] 0.1 toy_agent
     = Inr ([1, 1], toy_agent\<lparr>rng := 2\<rparr>)
   \<and> DQN_get_action_per_env toy_world toy_config [[1], [1]] 0.1 toy_agent
     = Inr ([1, 0], toy_agent\<lparr>rng := 3\<rparr>)
   \<and> map_sum id fst (DQN_get_action toy_world toy_config [[1], [1]] 0.1 toy_agent)
     \<noteq> map_sum id fst (DQN_get_action_per_env toy_world toy_config [[1], [1]] 0.1 toy_agent)"
proof -
  have g: "DQN_greedy_action toy_world toy_config [[1], [1]] toy_agent = Inr [0, 0]"
    by (rule toy_greedy) (simp_all add: toy_config_def toy_agent_def)
  have a: "DQN_get_action toy_world toy_config [[1], [1]] 0.1 toy_agent
     = Inr ([1, 1], toy_agent\<lparr>rng := 2\<rparr>)"
    by (simp add: DQN_get_action_def toy_world_sel toy_config_sel toy_agent_def)
  have b: "DQN_get_action_per_env toy_world toy_config [[1], [1]] 0.1 toy_agent
     = Inr ([1, 0], toy_agent\<lparr>rng := 3\<rparr>)"
    by (simp add: DQN_get_action_per_env_def g) (simp add: toy_agent_def toy_world_sel)
  show ?thesis by (simp add: a b)
qed

section \<open>The regression target and the loss of the DQN agent\<close>

lemma broadcast2_same_length:
  "length xs = length ys \<Longrightarrow> broadcast2 f xs ys = Inr (map2 f xs ys)"
  by (simp add: broadcast2_def)

lemma smooth_l1_item:
  "item (smooth_l1 x y)
   = (if \<bar>item x - item y\<bar> < 1 then (item x - item y)\<^sup>2 / 2 else \<bar>item x - item y\<bar> - 1 / 2)"
  by (simp add: smooth_l1_def Let_def const_def pow2_def t_abs_def minus_scalar_def
      times_scalar_def uminus_scalar_def power2_eq_square)

lemma smooth_l1_grad:
  assumes "grad y = 0"
  shows "grad (smooth_l1 x y)
   = (if \<bar>item x - item y\<bar> < 1 then item x - item y else sgn (item x - item y)) *\<^sub>R grad x"
  using assms
  by (auto simp: smooth_l1_def Let_def const_def pow2_def t_abs_def minus_scalar_def
      times_scalar_def uminus_scalar_def scaleR_add_left[symmetric] sgn_if)

lemma gather1_in_range:
  assumes "length idx = length rows"
    and "\<forall>i < length rows. 0 \<le> idx ! i \<and> idx ! i < int (length (rows ! i))"
  shows "gather1 rows idx = Inr (map2 (\<lambda>row i. row ! nat i) rows idx)"
proof -
  have "sequence_err (map (\<lambda>(row, i). if 0 \<le> i \<and> i < int (length row) then Inr (row ! nat i)
                             else Inl RuntimeError) (zip rows idx))
        = Inr (map (\<lambda>(row, i). row ! nat i) (zip rows idx))"
  proof (rule sequence_err_map_Inr, rule ballI)
    fix p assume "p \<in> set (zip rows idx)"
    then obtain i where "i < length rows" "p = (rows ! i, idx ! i)"
      using assms(1) by (auto simp: set_zip)
    then show "(case p of (row, i) \<Rightarrow> if 0 \<le> i \<and> i < int (length row) then Inr (row ! nat i)
                             else Inl RuntimeError) = Inr (case p of (row, i) \<Rightarrow> row ! nat i)"
      using assms(2) by simp
  qed
  then show ?thesis using assms(1) by (simp add: gather1_def)
qed

lemma row_max_all:
  assumes "\<forall>row \<in> set Q. row \<noteq> []"
  shows "\<exists>mx. sequence_err (map row_max Q) = Inr mx \<and> length mx = length Q
           \<and> (\<forall>i < length Q. item (mx ! i) = Max (set (map item (Q ! i))))"
proof -
  have "\<forall>row \<in> set Q. \<exists>y. row_max row = Inr y"
    using assms row_max_item by blast
  from sequence_err_map_total[OF this] obtain mx where
    sq: "sequence_err (map row_max Q) = Inr mx" by blast
  from sequence_err_Inr_nth[OF sq] have len: "length mx = length Q"
    and nth: "\<forall>i < length Q. row_max (Q ! i) = Inr (mx ! i)" by simp_all
  have "item (mx ! i) = Max (set (map item (Q ! i)))" if "i < length Q" for i
  proof -
    have "Q ! i \<noteq> []" using assms that by simp
    from row_max_item[OF this] nth that show ?thesis by auto
  qed
  then show ?thesis using sq len by blast
qed

lemma DQN_target_spec:
  assumes "length batch_reward = B" "length batch_terminal = B"
    and "length (q_forward W (target_model ag) batch_next_state) = B"
    and "\<forall>row \<in> set (q_forward W (target_model ag) batch_next_state). row \<noteq> []"
  shows "\<exists>target. DQN_target W cfg ag batch_reward batch_next_state batch_terminal = Inr target
          \<and> length target = B
          \<and> (\<forall>i < B. item (target ! i)
                       = batch_reward ! i
                         + gamma cfg * (1 - batch_terminal ! i)
                           * Max (set (map item (q_forward W (target_model ag) batch_next_state ! i)))
                     \<and> grad (target ! i) = 0)"
proof -
  let ?Q = "q_forward W (target_model ag) batch_next_state"
  from row_max_all[OF assms(4)] obtain mx where
    sq: "sequence_err (map row_max ?Q) = Inr mx" and len: "length mx = B"
    and it: "\<forall>i < B. item (mx ! i) = Max (set (map item (?Q ! i)))"
    using assms(3) by auto
  let ?nq = "map2 (*) (map (\<lambda>q. const (gamma cfg) * q) mx)
                (map (\<lambda>t. const 1.0 - const t) batch_terminal)"
  have b1: "broadcast2 (*) (map (\<lambda>q. const (gamma cfg) * q) mx)
                (map (\<lambda>t. const 1.0 - const t) batch_terminal) = Inr ?nq"
    by (rule broadcast2_same_length) (simp add: len assms)
  let ?tg = "map2 (+) (map const batch_reward) ?nq"
  have b2: "broadcast2 (+) (map const batch_reward) ?nq = Inr ?tg"
    by (rule broadcast2_same_length) (simp add: len assms)
  have t: "DQN_target W cfg ag batch_reward batch_next_state batch_terminal = Inr (no_grad ?tg)"
    by (simp only: DQN_target_def sq b1 b2 sum.case)
  have l: "length (no_grad ?tg) = B" by (simp add: no_grad_def len assms)
  have "item (no_grad ?tg ! i)
          = batch_reward ! i + gamma cfg * (1 - batch_terminal ! i) * Max (set (map item (?Q ! i)))
        \<and> grad (no_grad ?tg ! i) = 0" if "i < B" for i
    using that it len assms(1,2)
    by (simp add: no_grad_def detach_def plus_scalar_def times_scalar_def minus_scalar_def
        const_def)
  then show ?thesis using t l by blast
qed

lemma sum_list_map_map2_nth:
  fixes g :: "'c \<Rightarrow> 'd::comm_monoid_add"
  assumes "length xs = n" "length ys = n"
  shows "sum_list (map g (map2 f xs ys)) = (\<Sum>i = 0..<n. g (f (xs ! i) (ys ! i)))"
proof -
  have "sum_list (map g (map2 f xs ys))
        = (\<Sum>i = 0..<length (map g (map2 f xs ys)). map g (map2 f xs ys) ! i)"
    by (rule sum_list_sum_nth)
  also have "\<dots> = (\<Sum>i = 0..<n. g (f (xs ! i) (ys ! i)))"
    using assms by (intro sum.cong) simp_all
  finally show ?thesis .
qed

text \<open>
  Claim C1. For a minibatch of \<open>B > 0\<close> transitions whose tensors fit together (one reward,
  one terminal flag and one non-empty row of target Q-values per transition, every action
  an index into its row of online Q-values), \<^verbatim>\<open>compute_loss\<close> succeeds; its regression
  target is, entry by entry,
  \<open>batch_reward + gamma * (1 - batch_terminal) * max over the actions of the target network
  on batch_next_state\<close>; the target carries no gradient, whatever gradients the target
  network's outputs carry; the current values are the online Q-values gathered at the
  actions taken; and the loss is the mean over the batch of the SmoothL1 (Huber, \<open>beta = 1\<close>)
  function of \<open>current - target\<close>, whose gradient flows through the current values only.
\<close>

theorem dqn_target_and_smooth_l1_loss:
  assumes "0 < B"
    and "length batch_reward = B" "length batch_terminal = B"
    and "length (q_forward W (target_model ag) batch_next_state) = B"
    and "\<forall>row \<in> set (q_forward W (target_model ag) batch_next_state). row \<noteq> []"
    and "length batch_action = B" "length (q_forward W (model ag) batch_state) = B"
    and "\<forall>i < B. 0 \<le> batch_action ! i
              \<and> batch_action ! i < int (length (q_forward W (model ag) batch_state ! i))"
  shows "\<exists>target current loss ag'.
           DQN_target W cfg ag batch_reward batch_next_state batch_terminal = Inr target
         \<and> length target = B
         \<and> (\<forall>i < B. item (target ! i)
                       = batch_reward ! i
                         + gamma cfg * (1 - batch_terminal ! i)
                           * Max (set (map item (q_forward W (target_model ag) batch_next_state ! i)))
                     \<and> grad (target ! i) = 0)
         \<and> gather1 (q_forward W (model ag) batch_state) batch_action = Inr current
         \<and> length current = B
         \<and> (\<forall>i < B. current ! i = q_forward W (model ag) batch_state ! i ! nat (batch_action ! i))
         \<and> DQN_compute_loss W cfg
               (batch_state, batch_action, batch_reward, batch_next_state, batch_terminal,
                indices, weights) tstep ag = Inr (loss, ag')
         \<and> item loss
             = (\<Sum>i = 0..<B. if \<bar>item (current ! i) - item (target ! i)\<bar> < 1
                              then (item (current ! i) - item (target ! i))\<^sup>2 / 2
                              else \<bar>item (current ! i) - item (target ! i)\<bar> - 1 / 2) / real B
         \<and> grad loss
             = (1 / real B) *\<^sub>R
               (\<Sum>i = 0..<B. (if \<bar>item (current ! i) - item (target ! i)\<bar> < 1
                               then item (current ! i) - item (target ! i)
                               else sgn (item (current ! i) - item (target ! i)))
                              *\<^sub>R grad (current ! i))"
proof -
  let ?Qo = "q_forward W (model ag) batch_state"
  from DQN_target_spec[OF assms(2,3,4,5), of cfg] obtain target where
    t: "DQN_target W cfg ag batch_reward batch_next_state batch_terminal = Inr target"
    and tl: "length target = B"
    and ti: "\<forall>i < B. item (target ! i)
                       = batch_reward ! i
                         + gamma cfg * (1 - batch_terminal ! i)
                           * Max (set (map item (q_forward W (target_model ag) batch_next_state ! i)))
                     \<and> grad (target ! i) = 0"
    by blast
  let ?cur = "map2 (\<lambda>row i. row ! nat i) ?Qo batch_action"
  have g: "gather1 ?Qo batch_action = Inr ?cur"
    by (rule gather1_in_range) (use assms in simp_all)
  have cl: "length ?cur = B" using assms by simp
  have cn: "\<forall>i < B. ?cur ! i = ?Qo ! i ! nat (batch_action ! i)" using assms by simp
  let ?ls = "map2 smooth_l1 ?cur target"
  have lf: "loss_fun ?cur target = Inr (t_mean ?ls)"
    using cl tl by (simp add: loss_fun_def broadcast2_same_length)
  let ?ag' = "ag\<lparr>tb_writer :=
                    add_scalar ''Policy/Next Value Estimate'' (np_mean (map item target)) tstep
                      (add_scalar ''Policy/Value Estimate'' (np_mean (map item ?cur)) tstep
                         (tb_writer ag))\<rparr>"
  have c: "DQN_compute_loss W cfg
               (batch_state, batch_action, batch_reward, batch_next_state, batch_terminal,
                indices, weights) tstep ag = Inr (t_mean ?ls, ?ag')"
    by (simp only: DQN_compute_loss_def prod.case g t lf sum.case)
  have il: "item (t_mean ?ls)
             = (\<Sum>i = 0..<B. if \<bar>item (?cur ! i) - item (target ! i)\<bar> < 1
                              then (item (?cur ! i) - item (target ! i))\<^sup>2 / 2
                              else \<bar>item (?cur ! i) - item (target ! i)\<bar> - 1 / 2) / real B"
  proof -
    have "sum_list (map item ?ls) = (\<Sum>i = 0..<B. item (smooth_l1 (?cur ! i) (target ! i)))"
      by (rule sum_list_map_map2_nth[OF cl tl])
    then show ?thesis using cl tl by (simp add: t_mean_def smooth_l1_item)
  qed
  have gl: "grad (t_mean ?ls)
             = (1 / real B) *\<^sub>R
               (\<Sum>i = 0..<B. (if \<bar>item (?cur ! i) - item (target ! i)\<bar> < 1
                               then item (?cur ! i) - item (target ! i)
                               else sgn (item (?cur ! i) - item (target ! i)))
                              *\<^sub>R grad (?cur ! i))"
  proof -
    have "sum_list (map grad ?ls) = (\<Sum>i = 0..<B. grad (smooth_l1 (?cur ! i) (target ! i)))"
      by (rule sum_list_map_map2_nth[OF cl tl])
    also have "\<dots> = (\<Sum>i = 0..<B. (if \<bar>item (?cur ! i) - item (target ! i)\<bar> < 1
                               then item (?cur ! i) - item (target ! i)
                               else sgn (item (?cur ! i) - item (target ! i)))
                              *\<^sub>R grad (?cur ! i))"
      using ti by (intro sum.cong refl smooth_l1_grad) simp
    finally show ?thesis using cl tl by (simp add: t_mean_def)
  qed
  show ?thesis
    using t tl ti g cl cn c il gl by blast
qed

theorem dqn_target_and_smooth_l1_loss_witness:
  "length [100::real] = 1 \<and> length [0::real] = 1
   \<and> q_forward toy_world (target_model toy_agent) [[1]] = [[Scalar 0 0, Scalar 0 1]]
   \<and> length [1::int] = 1
   \<and> q_forward toy_world (model toy_agent) [[1]] = [[Scalar 0 0, Scalar 0 1]]
   \<and> (0::int) \<le> [1] ! 0
   \<and> [1] ! 0 < int (length (q_forward toy_world (model toy_agent) [[1]] ! 0))
   \<and> DQN_target toy_world toy_config toy_agent [100] [[1]] [0] = Inr [Scalar 100 0]
   \<and> gather1 (q_forward toy_world (model toy_agent) [[1]]) [1] = Inr [Scalar 0 1]
   \<and> (\<exists>loss ag'. DQN_compute_loss toy_world toy_config
                        ([[1]], [1], [100], [[1]], [0], [0], [1]) 2 toy_agent = Inr (loss, ag')
          \<and> item loss = 199 / 2 \<and> grad loss = - 1)"
proof -
  have h: "(0::nat) < 1" "length [100::real] = 1" "length [0::real] = 1"
    "length (q_forward toy_world (target_model toy_agent) [[1]]) = 1"
    "\<forall>row \<in> set (q_forward toy_world (target_model toy_agent) [[1]]). row \<noteq> []"
    "length [1::int] = 1" "length (q_forward toy_world (model toy_agent) [[1]]) = 1"
    "\<forall>i < 1. 0 \<le> [1::int] ! i
            \<and> [1::int] ! i < int (length (q_forward toy_world (model toy_agent) [[1]] ! i))"
    by (simp_all add: toy_world_sel)
  from dqn_target_and_smooth_l1_loss[OF h, of toy_config "[0]" "[1]" 2]
  obtain target current loss ag' where
    t: "DQN_target toy_world toy_config toy_agent [100] [[1]] [0] = Inr target"
    and g: "gather1 (q_forward toy_world (model toy_agent) [[1]]) [1] = Inr current"
    and c: "DQN_compute_loss toy_world toy_config
              ([[1]], [1], [100], [[1]], [0], [0], [1]) 2 toy_agent = Inr (loss, ag')"
    and il: "item loss
             = (\<Sum>i = 0..<1. if \<bar>item (current ! i) - item (target ! i)\<bar> < 1
                              then (item (current ! i) - item (target ! i))\<^sup>2 / 2
                              else \<bar>item (current ! i) - item (target ! i)\<bar> - 1 / 2) / real 1"
    and gl: "grad loss
             = (1 / real 1) *\<^sub>R
               (\<Sum>i = 0..<1. (if \<bar>item (current ! i) - item (target ! i)\<bar> < 1
                               then item (current ! i) - item (target ! i)
                               else sgn (item (current ! i) - item (target ! i)))
                              *\<^sub>R grad (current ! i))"
    by blast
  have t0: "DQN_target toy_world toy_config toy_agent [100] [[1]] [0] = Inr [Scalar 100 0]"
    using toy_target[of toy_agent] by (simp add: toy_agent_def)
  have g0: "gather1 (q_forward toy_world (model toy_agent) [[1]]) [1] = Inr [Scalar 0 1]"
    by (simp add: gather1_def toy_world_sel toy_agent_def)
  have tv: "target = [Scalar 100 0]" using t t0 by simp
  have cv: "current = [Scalar 0 1]" using g g0 by simp
  have "item loss = 199 / 2" using il by (simp add: tv cv)
  moreover have "grad loss = - 1" using gl by (simp add: tv cv)
  moreover have "q_forward toy_world (target_model toy_agent) [[1]] = [[Scalar 0 0, Scalar 0 1]]"
    "q_forward toy_world (model toy_agent) [[1]] = [[Scalar 0 0, Scalar 0 1]]"
    "(0::int) \<le> [1] ! 0"
    "[1] ! 0 < int (length (q_forward toy_world (model toy_agent) [[1]] ! 0))"
    by (simp_all add: toy_world_sel toy_agent_def)
  ultimately show ?thesis using h(2,3,6) t0 g0 c by blast
qed

section \<open>The window of the last hundred episode returns\<close>

lemma deque_append_100:
  "length win \<le> 100 \<Longrightarrow>
     deque_append 100 win r = (if length win < 100 then win else tl win) @ [r]"
  by (cases win) (auto simp: deque_append_def Suc_diff_le)

lemma DQN_info_loop_window:
  "DQN_info_loop t idx infs (win, tb) = Inr (win', tb') \<Longrightarrow>
     win' = foldl (deque_append 100) win
              (map (\<lambda>info. the (the (info ''episode'') ''r''))
                 (filter (\<lambda>info. info ''episode'' \<noteq> None) infs))"
proof (induction infs arbitrary: idx win tb)
  case Nil
  then show ?case by simp
next
  case (Cons info infs)
  then show ?case by (auto split: option.splits)
qed

lemma DQN_info_loop_total:
  assumes "\<forall>info \<in> set infs. \<forall>ep. info ''episode'' = Some ep \<longrightarrow> ep ''r'' \<noteq> None \<and> ep ''l'' \<noteq> None"
  shows "\<exists>win' tb'. DQN_info_loop t idx infs (win, tb) = Inr (win', tb')"
  using assms
proof (induction infs arbitrary: idx win tb)
  case Nil
  then show ?case by simp
next
  case (Cons info infs)
  then show ?case by (cases "info ''episode''") auto
qed

lemma A2C_info_loop_window:
  "A2C_info_loop t idx infs done fr (win, tb) = Inr (win', tb') \<Longrightarrow>
     win' = foldl (deque_append 100) win
              (map (\<lambda>info. the (the (info ''episode'') ''r''))
                 (filter (\<lambda>info. info ''episode'' \<noteq> None) infs))"
proof (induction infs arbitrary: idx win tb)
  case Nil
  then show ?case by simp
next
  case (Cons info infs)
  then show ?case by (auto split: option.splits if_splits)
qed

lemma A2C_info_loop_total:
  assumes "\<forall>info \<in> set infs. \<forall>ep. info ''episode'' = Some ep \<longrightarrow> ep ''r'' \<noteq> None \<and> ep ''l'' \<noteq> None"
    and "idx + length infs \<le> length done" "length done \<le> length fr"
  shows "\<exists>win' tb'. A2C_info_loop t idx infs done fr (win, tb) = Inr (win', tb')"
  using assms
proof (induction infs arbitrary: idx win tb)
  case Nil
  then show ?case by simp
next
  case (Cons info infs)
  then show ?case by (cases "info ''episode''") auto
qed

lemma DQN_get_action_frame:
  "DQN_get_action W cfg s eps ag = Inr (acts, ag1) \<Longrightarrow> \<exists>r'. ag1 = ag\<lparr>rng := r'\<rparr>"
  unfolding DQN_get_action_def
  by (auto split: prod.splits sum.splits if_splits)

lemma DQN_step_window:
  assumes "DQN_step W cfg t ag = Inr ag'"
  shows "\<exists>acts ag1 obs rews ds infs env'.
            DQN_get_action W cfg (observations ag) (schedule_value W (anneal_eps ag) t)
              (ag\<lparr>tb_writer := add_scalar ''Policy/Epsilon''
                                  (schedule_value W (anneal_eps ag) t) t (tb_writer ag)\<rparr>)
            = Inr (acts, ag1)
          \<and> env_step W (envs ag) acts = ((obs, rews, ds, infs), env')
          \<and> infos ag' = infs
          \<and> last_100_rewards ag'
              = foldl (deque_append 100) (last_100_rewards ag)
                  (map (\<lambda>info. the (the (info ''episode'') ''r''))
                     (filter (\<lambda>info. info ''episode'' \<noteq> None) infs))"
proof -
  let ?ag0 = "ag\<lparr>tb_writer := add_scalar ''Policy/Epsilon''
                 (schedule_value W (anneal_eps ag) t) t (tb_writer ag)\<rparr>"
  from assms obtain acts ag1 where
    ga: "DQN_get_action W cfg (observations ?ag0) (schedule_value W (anneal_eps ag) t) ?ag0
         = Inr (acts, ag1)"
    by (auto simp: DQN_step_def Let_def split: sum.splits)
  obtain obs rews ds infs env' where
    es: "env_step W (envs ag1) acts = ((obs, rews, ds, infs), env')"
    by (cases "env_step W (envs ag1) acts") auto
  from assms ga es obtain er where ar: "add_rewards (episode_rewards ag1) rews = Inr er"
    by (auto simp: DQN_step_def Let_def split: sum.splits)
  from assms ga es ar obtain er' log1 where
    dl: "DQN_done_loop t 0 ds (er, tb_writer ag1) = Inr (er', log1)"
    by (auto simp: DQN_step_def Let_def split: sum.splits)
  from assms ga es ar dl obtain win log2 where
    il: "DQN_info_loop t 0 infs (last_100_rewards ag1, log1) = Inr (win, log2)"
    and r: "infos ag' = infs" "last_100_rewards ag' = win"
    by (auto simp: DQN_step_def Let_def split: sum.splits)
  from DQN_get_action_frame[OF ga] obtain r' where f: "ag1 = ?ag0\<lparr>rng := r'\<rparr>" by blast
  have l: "last_100_rewards ag1 = last_100_rewards ag" using f by simp
  have e: "env_step W (envs ag) acts = ((obs, rews, ds, infs), env')" using es f by simp
  have g: "DQN_get_action W cfg (observations ag) (schedule_value W (anneal_eps ag) t) ?ag0
         = Inr (acts, ag1)" using ga by simp
  have w: "last_100_rewards ag'
              = foldl (deque_append 100) (last_100_rewards ag)
                  (map (\<lambda>info. the (the (info ''episode'') ''r''))
                     (filter (\<lambda>info. info ''episode'' \<noteq> None) infs))"
    using DQN_info_loop_window[OF il] r l by simp
  show ?thesis using g e r(1) w by blast
qed

lemma A2C_get_action_frame:
  "A2C_get_action W s sts ms det ag = Inr (res, ag1) \<Longrightarrow> \<exists>r'. ag1 = ag\<lparr>rng := r'\<rparr>"
  unfolding A2C_get_action_def
  by (auto split: prod.splits sum.splits if_splits)

lemma A2C_step_decomp:
  assumes "A2C_step W cfg t stp ag = Inr ag'"
  shows "\<exists>s sts ms values acts logp states ag1 obs0 reward done info env' fr2 er2 win tb masked.
           py_index (ro_observations (rollouts ag)) stp = Inr s
         \<and> py_index (ro_states (rollouts ag)) stp = Inr sts
         \<and> py_index (ro_masks (rollouts ag)) stp = Inr ms
         \<and> A2C_get_action W s sts ms False ag = Inr ((values, acts, logp, states), ag1)
         \<and> ac_env_step W (envs ag1) acts = ((obs0, reward, done, info), env')
         \<and> A2C_info_loop t 0 info done fr2 (last_100_rewards ag1, tb_writer ag1) = Inr (win, tb)
         \<and> mask_observations (done_masks done) (s_normalise (s_norm cfg) obs0) = Inr masked
         \<and> ag' = ag1\<lparr>envs := env', episode_rewards := er2, final_rewards := fr2,
                     last_100_rewards := win, tb_writer := tb,
                     rollouts :=
                       ro_insert W masked (map (map item) states) acts
                         (map item logp) (map item values) reward (done_masks done)
                         (rollouts ag1)\<rparr>"
proof -
  from assms obtain s where 1: "py_index (ro_observations (rollouts ag)) stp = Inr s"
    by (auto simp: A2C_step_def split: sum.splits)
  from assms 1 obtain sts where 2: "py_index (ro_states (rollouts ag)) stp = Inr sts"
    by (auto simp: A2C_step_def split: sum.splits)
  from assms 1 2 obtain ms where 3: "py_index (ro_masks (rollouts ag)) stp = Inr ms"
    by (auto simp: A2C_step_def split: sum.splits)
  from assms 1 2 3 obtain vals acts logp states ag1 where
    4: "A2C_get_action W s sts ms False ag = Inr ((vals, acts, logp, states), ag1)"
    by (auto simp: A2C_step_def split: sum.splits)
  obtain obs0 reward dn info env' where
    5: "ac_env_step W (envs ag1) acts = ((obs0, reward, dn, info), env')"
    by (cases "ac_env_step W (envs ag1) acts") auto
  note pre = assms[unfolded A2C_step_def, simplified 1 2 3 4 5 sum.case prod.case Let_def]
  from pre obtain er1 where 6: "np_inplace (+) (episode_rewards ag1) reward = Inr er1"
    by (auto split: sum.splits)
  from pre 6 obtain fr1 where 7: "np_inplace (*) (final_rewards ag1) (done_masks dn) = Inr fr1"
    by (auto split: sum.splits)
  from pre 6 7 obtain carry where
    8: "np_binary (*) (map (\<lambda>m. 1 - m) (done_masks dn)) er1 = Inr carry"
    by (auto split: sum.splits)
  from pre 6 7 8 obtain fr2 where 9: "np_inplace (+) fr1 carry = Inr fr2"
    by (auto split: sum.splits)
  from pre 6 7 8 9 obtain er2 where 10: "np_inplace (*) er1 (done_masks dn) = Inr er2"
    by (auto split: sum.splits)
  note pre2 = pre[simplified 6 7 8 9 10 sum.case]
  from pre2 obtain win tb where
    11: "A2C_info_loop t 0 info dn fr2 (last_100_rewards ag1, tb_writer ag1) = Inr (win, tb)"
    by (auto split: sum.splits)
  from pre2 11 obtain masked where
    12: "mask_observations (done_masks dn) (s_normalise (s_norm cfg) obs0) = Inr masked"
    by (auto split: sum.splits)
  from pre2 11 12 have
    13: "ag' = ag1\<lparr>envs := env', episode_rewards := er2, final_rewards := fr2,
                     last_100_rewards := win, tb_writer := tb,
                     rollouts :=
                       ro_insert W masked (map (map item) states) acts
                         (map item logp) (map item vals) reward (done_masks dn)
                         (rollouts ag1)\<rparr>"
    by simp
  show ?thesis using 1 2 3 4 5 11 12 13 by blast
qed

lemma A2C_step_window:
  assumes "A2C_step W cfg t stp ag = Inr ag'"
  shows "\<exists>s sts ms vals acts logp states ag1 obs reward dn info env'.
            py_index (ro_observations (rollouts ag)) stp = Inr s
          \<and> py_index (ro_states (rollouts ag)) stp = Inr sts
          \<and> py_index (ro_masks (rollouts ag)) stp = Inr ms
          \<and> A2C_get_action W s sts ms False ag = Inr ((vals, acts, logp, states), ag1)
          \<and> ac_env_step W (envs ag) acts = ((obs, reward, dn, info), env')
          \<and> last_100_rewards ag'
              = foldl (deque_append 100) (last_100_rewards ag)
                  (map (\<lambda>info. the (the (info ''episode'') ''r''))
                     (filter (\<lambda>info. info ''episode'' \<noteq> None) info))"
proof -
  from A2C_step_decomp[OF assms] obtain s sts ms vals acts logp states ag1 obs0 reward dn info env'
      fr2 er2 win tb masked where
    1: "py_index (ro_observations (rollouts ag)) stp = Inr s"
    "py_index (ro_states (rollouts ag)) stp = Inr sts"
    "py_index (ro_masks (rollouts ag)) stp = Inr ms"
    and 4: "A2C_get_action W s sts ms False ag = Inr ((vals, acts, logp, states), ag1)"
    and 5: "ac_env_step W (envs ag1) acts = ((obs0, reward, dn, info), env')"
    and 6: "A2C_info_loop t 0 info dn fr2 (last_100_rewards ag1, tb_writer ag1) = Inr (win, tb)"
    and 8: "ag' = ag1\<lparr>envs := env', episode_rewards := er2, final_rewards := fr2,
                     last_100_rewards := win, tb_writer := tb,
                     rollouts :=
                       ro_insert W masked (map (map item) states) acts
                         (map item logp) (map item vals) reward (done_masks dn)
                         (rollouts ag1)\<rparr>"
    by blast
  from A2C_get_action_frame[OF 4] obtain r' where f: "ag1 = ag\<lparr>rng := r'\<rparr>" by blast
  have e: "ac_env_step W (envs ag) acts = ((obs0, reward, dn, info), env')" using 5 f by simp
  have "last_100_rewards ag'
              = foldl (deque_append 100) (last_100_rewards ag)
                  (map (\<lambda>info. the (the (info ''episode'') ''r''))
                     (filter (\<lambda>info. info ''episode'' \<noteq> None) info))"
    using A2C_info_loop_window[OF 6] 8 f by simp
  then show ?thesis using 1 4 e by blast
qed

text \<open>
  Claim C8. In the \<^verbatim>\<open>step\<close> methods of both agents the \<^verbatim>\<open>'episode'\<close> key of an
  environment's info dictionary is optional. An info without the key raises nothing and
  leaves \<open>last_100_rewards\<close> as it is; an info with the key (and its \<^verbatim>\<open>'r'\<close> and \<^verbatim>\<open>'l'\<close>
  entries) appends exactly \<^verbatim>\<open>info['episode']['r']\<close> to the window, a \<^verbatim>\<open>deque(maxlen=100)\<close>
  that drops its oldest entry when full. Over the whole list of infos the loop succeeds and
  the window receives, in order, the returns of exactly the infos that carry the key. A
  successful \<^verbatim>\<open>step\<close> of either agent runs that loop over the infos which the environment's
  \<^verbatim>\<open>step\<close> returned for the actions the agent chose: \<^verbatim>\<open>DQN.step\<close> stores those infos in
  \<^verbatim>\<open>self.infos\<close> and leaves the old window extended by their episode returns, and so does
  \<^verbatim>\<open>A2C.step\<close>. (In the A2C loop the same iteration also reads \<^verbatim>\<open>done[idx]\<close>, so \<open>done\<close>
  must cover the infos.)
\<close>

theorem episode_key_is_optional:
  "(info ''episode'' = None \<longrightarrow>
      DQN_info_loop t idx (info # infs) (win, tb) = DQN_info_loop t (Suc idx) infs (win, tb))
 \<and> (info ''episode'' = Some ep \<and> ep ''r'' = Some r \<and> ep ''l'' = Some l \<longrightarrow>
      (\<exists>tb'. DQN_info_loop t idx (info # infs) (win, tb)
             = DQN_info_loop t (Suc idx) infs (deque_append 100 win r, tb')))
 \<and> (info ''episode'' = None \<and> idx < length dn \<and> (dn ! idx \<longrightarrow> idx < length fr) \<longrightarrow>
      (\<exists>tb'. A2C_info_loop t idx (info # infs) dn fr (win, tb)
             = A2C_info_loop t (Suc idx) infs dn fr (win, tb')))
 \<and> (info ''episode'' = Some ep \<and> ep ''r'' = Some r \<and> ep ''l'' = Some l
      \<and> idx < length dn \<and> (dn ! idx \<longrightarrow> idx < length fr) \<longrightarrow>
      (\<exists>tb'. A2C_info_loop t idx (info # infs) dn fr (win, tb)
             = A2C_info_loop t (Suc idx) infs dn fr (deque_append 100 win r, tb')))
 \<and> ((\<forall>i \<in> set infs. \<forall>e. i ''episode'' = Some e \<longrightarrow> e ''r'' \<noteq> None \<and> e ''l'' \<noteq> None) \<longrightarrow>
      (\<exists>tb'. DQN_info_loop t idx infs (win, tb)
             = Inr (foldl (deque_append 100) win
                      (map (\<lambda>i. the (the (i ''episode'') ''r''))
                         (filter (\<lambda>i. i ''episode'' \<noteq> None) infs)), tb'))
    \<and> (idx + length infs \<le> length dn \<and> length dn \<le> length fr \<longrightarrow>
         (\<exists>tb'. A2C_info_loop t idx infs dn fr (win, tb)
                = Inr (foldl (deque_append 100) win
                         (map (\<lambda>i. the (the (i ''episode'') ''r''))
                            (filter (\<lambda>i. i ''episode'' \<noteq> None) infs)), tb'))))
 \<and> (\<forall>ag'. DQN_step W cfg t ag = Inr ag' \<longrightarrow>
      (\<exists>acts ag1 obs rews ds infs' env'.
            DQN_get_action W cfg (observations ag) (schedule_value W (anneal_eps ag) t)
              (ag\<lparr>tb_writer := add_scalar ''Policy/Epsilon''
                                  (schedule_value W (anneal_eps ag) t) t (tb_writer ag)\<rparr>)
            = Inr (acts, ag1)
          \<and> env_step W (envs ag) acts = ((obs, rews, ds, infs'), env')
          \<and> infos ag' = infs'
          \<and> last_100_rewards ag'
              = foldl (deque_append 100) (last_100_rewards ag)
                  (map (\<lambda>i. the (the (i ''episode'') ''r''))
                     (filter (\<lambda>i. i ''episode'' \<noteq> None) infs'))))
 \<and> (\<forall>ag'. A2C_step W' cfg t stp ag2 = Inr ag' \<longrightarrow>
      (\<exists>s sts ms vals acts logp states ag1 obs reward dn' info' env'.
            py_index (ro_observations (rollouts ag2)) stp = Inr s
          \<and> py_index (ro_states (rollouts ag2)) stp = Inr sts
          \<and> py_index (ro_masks (rollouts ag2)) stp = Inr ms
          \<and> A2C_get_action W' s sts ms False ag2 = Inr ((vals, acts, logp, states), ag1)
          \<and> ac_env_step W' (envs ag2) acts = ((obs, reward, dn', info'), env')
          \<and> last_100_rewards ag'
              = foldl (deque_append 100) (last_100_rewards ag2)
                  (map (\<lambda>i. the (the (i ''episode'') ''r''))
                     (filter (\<lambda>i. i ''episode'' \<noteq> None) info'))))
 \<and> (length win \<le> 100 \<longrightarrow>
      deque_append 100 win r = (if length win < 100 then win else tl win) @ [r])"
proof -
  have a: "info ''episode'' = None \<longrightarrow>
      DQN_info_loop t idx (info # infs) (win, tb) = DQN_info_loop t (Suc idx) infs (win, tb)"
    by simp
  have b: "info ''episode'' = Some ep \<and> ep ''r'' = Some r \<and> ep ''l'' = Some l \<longrightarrow>
      (\<exists>tb'. DQN_info_loop t idx (info # infs) (win, tb)
             = DQN_info_loop t (Suc idx) infs (deque_append 100 win r, tb'))"
    by auto
  have c: "info ''episode'' = None \<and> idx < length dn \<and> (dn ! idx \<longrightarrow> idx < length fr) \<longrightarrow>
      (\<exists>tb'. A2C_info_loop t idx (info # infs) dn fr (win, tb)
             = A2C_info_loop t (Suc idx) infs dn fr (win, tb'))"
    by auto
  have d: "info ''episode'' = Some ep \<and> ep ''r'' = Some r \<and> ep ''l'' = Some l
      \<and> idx < length dn \<and> (dn ! idx \<longrightarrow> idx < length fr) \<longrightarrow>
      (\<exists>tb'. A2C_info_loop t idx (info # infs) dn fr (win, tb)
             = A2C_info_loop t (Suc idx) infs dn fr (deque_append 100 win r, tb'))"
    by auto
  have e: "(\<forall>i \<in> set infs. \<forall>e. i ''episode'' = Some e \<longrightarrow> e ''r'' \<noteq> None \<and> e ''l'' \<noteq> None) \<longrightarrow>
      (\<exists>tb'. DQN_info_loop t idx infs (win, tb)
             = Inr (foldl (deque_append 100) win
                      (map (\<lambda>i. the (the (i ''episode'') ''r''))
                         (filter (\<lambda>i. i ''episode'' \<noteq> None) infs)), tb'))
    \<and> (idx + length infs \<le> length dn \<and> length dn \<le> length fr \<longrightarrow>
         (\<exists>tb'. A2C_info_loop t idx infs dn fr (win, tb)
                = Inr (foldl (deque_append 100) win
                         (map (\<lambda>i. the (the (i ''episode'') ''r''))
                            (filter (\<lambda>i. i ''episode'' \<noteq> None) infs)), tb')))"
  proof (intro impI conjI)
    assume wf: "\<forall>i \<in> set infs. \<forall>e. i ''episode'' = Some e \<longrightarrow> e ''r'' \<noteq> None \<and> e ''l'' \<noteq> None"
    from DQN_info_loop_total[OF wf, of t idx win tb] obtain win' tb' where
      l: "DQN_info_loop t idx infs (win, tb) = Inr (win', tb')" by blast
    from DQN_info_loop_window[OF l] l
    show "\<exists>tb'. DQN_info_loop t idx infs (win, tb)
             = Inr (foldl (deque_append 100) win
                      (map (\<lambda>i. the (the (i ''episode'') ''r''))
                         (filter (\<lambda>i. i ''episode'' \<noteq> None) infs)), tb')" by blast
  next
    assume wf: "\<forall>i \<in> set infs. \<forall>e. i ''episode'' = Some e \<longrightarrow> e ''r'' \<noteq> None \<and> e ''l'' \<noteq> None"
      and len: "idx + length infs \<le> length dn \<and> length dn \<le> length fr"
    from len have l1: "idx + length infs \<le> length dn" and l2: "length dn \<le> length fr" by simp_all
    from A2C_info_loop_total[OF wf l1 l2, of t win tb] obtain win' tb' where
      l: "A2C_info_loop t idx infs dn fr (win, tb) = Inr (win', tb')" by blast
    from A2C_info_loop_window[OF l] l
    show "\<exists>tb'. A2C_info_loop t idx infs dn fr (win, tb)
                = Inr (foldl (deque_append 100) win
                         (map (\<lambda>i. the (the (i ''episode'') ''r''))
                            (filter (\<lambda>i. i ''episode'' \<noteq> None) infs)), tb')" by blast
  qed
  have f: "\<forall>ag'. DQN_step W cfg t ag = Inr ag' \<longrightarrow>
      (\<exists>acts ag1 obs rews ds infs' env'.
            DQN_get_action W cfg (observations ag) (schedule_value W (anneal_eps ag) t)
              (ag\<lparr>tb_writer := add_scalar ''Policy/Epsilon''
                                  (schedule_value W (anneal_eps ag) t) t (tb_writer ag)\<rparr>)
            = Inr (acts, ag1)
          \<and> env_step W (envs ag) acts = ((obs, rews, ds, infs'), env')
          \<and> infos ag' = infs'
          \<and> last_100_rewards ag'
              = foldl (deque_append 100) (last_100_rewards ag)
                  (map (\<lambda>i. the (the (i ''episode'') ''r''))
                     (filter (\<lambda>i. i ''episode'' \<noteq> None) infs')))"
    using DQN_step_window by blast
  have g: "\<forall>ag'. A2C_step W' cfg t stp ag2 = Inr ag' \<longrightarrow>
      (\<exists>s sts ms vals acts logp states ag1 obs reward dn' info' env'.
            py_index (ro_observations (rollouts ag2)) stp = Inr s
          \<and> py_index (ro_states (rollouts ag2)) stp = Inr sts
          \<and> py_index (ro_masks (rollouts ag2)) stp = Inr ms
          \<and> A2C_get_action W' s sts ms False ag2 = Inr ((vals, acts, logp, states), ag1)
          \<and> ac_env_step W' (envs ag2) acts = ((obs, reward, dn', info'), env')
          \<and> last_100_rewards ag'
              = foldl (deque_append 100) (last_100_rewards ag2)
                  (map (\<lambda>i. the (the (i ''episode'') ''r''))
                     (filter (\<lambda>i. i ''episode'' \<noteq> None) info')))"
    using A2C_step_window by blast
  have h: "length win \<le> 100 \<longrightarrow>
      deque_append 100 win r = (if length win < 100 then win else tl win) @ [r]"
    using deque_append_100[of win r] by (rule impI)
  show ?thesis using a b c d e f g h by blast
qed

theorem episode_key_is_optional_witness:
  "(Map.empty :: info) ''episode'' = None
 \<and> ([''episode'' \<mapsto> [''r'' \<mapsto> 7, ''l'' \<mapsto> 3]] :: info) ''episode''
     = Some [''r'' \<mapsto> 7, ''l'' \<mapsto> 3]
 \<and> DQN_info_loop 5 0 [Map.empty, [''episode'' \<mapsto> [''r'' \<mapsto> 7, ''l'' \<mapsto> 3]]] ([1], [])
     = Inr ([1, 7], [(''Performance/Environment Reward'', 7, 6),
                     (''Performance/Episode Length'', 3, 6)])
 \<and> A2C_info_loop 5 0 [Map.empty, [''episode'' \<mapsto> [''r'' \<mapsto> 7, ''l'' \<mapsto> 3]]]
       [False, True] [0, 2] ([1], [])
     = Inr ([1, 7], [(''Performance/Environment Reward'', 7, 6),
                     (''Performance/Episode Length'', 3, 6),
                     (''Performance/Agent Reward'', 2, 6)])
 \<and> map_sum id last_100_rewards (A2C_step toy_a2c_world toy_config 5 0 toy_a2c_agent) = Inr [7]
 \<and> (case env_step toy_episode_world (envs toy_agent) [1] of
      ((obs, rews, ds, infs), env') \<Rightarrow>
        map (\<lambda>i. map_option (\<lambda>e. (e ''r'', e ''l'')) (i ''episode'')) infs)
     = [Some (Some 7, Some 3)]
 \<and> map_sum id
      (\<lambda>ag'. (map (\<lambda>i. map_option (\<lambda>e. (e ''r'', e ''l'')) (i ''episode'')) (infos ag'),
              last_100_rewards ag'))
      (DQN_step toy_episode_world toy_config 5 toy_agent)
     = Inr ([Some (Some 7, Some 3)], [7])
 \<and> map_sum id last_100_rewards (DQN_step toy_world toy_config 5 toy_agent) = Inr []"
proof -
  have a: "DQN_info_loop 5 0 [Map.empty, [''episode'' \<mapsto> [''r'' \<mapsto> 7, ''l'' \<mapsto> 3]]] ([1], [])
     = Inr ([1, 7], [(''Performance/Environment Reward'', 7, 6),
                     (''Performance/Episode Length'', 3, 6)])"
    by (simp add: deque_append_def add_scalar_def)
  have b: "A2C_info_loop 5 0 [Map.empty, [''episode'' \<mapsto> [''r'' \<mapsto> 7, ''l'' \<mapsto> 3]]]
       [False, True] [0, 2] ([1], [])
     = Inr ([1, 7], [(''Performance/Environment Reward'', 7, 6),
                     (''Performance/Episode Length'', 3, 6),
                     (''Performance/Agent Reward'', 2, 6)])"
    by (simp add: deque_append_def add_scalar_def)
  have c: "map_sum id last_100_rewards (A2C_step toy_a2c_world toy_config 5 0 toy_a2c_agent) = Inr [7]"
    by code_simp
  have d: "map_sum id last_100_rewards (DQN_step toy_world toy_config 5 toy_agent) = Inr []"
    by code_simp
  have e: "(case env_step toy_episode_world (envs toy_agent) [1] of
      ((obs, rews, ds, infs), env') \<Rightarrow>
        map (\<lambda>i. map_option (\<lambda>e. (e ''r'', e ''l'')) (i ''episode'')) infs)
     = [Some (Some 7, Some 3)]"
    by (simp add: toy_episode_world_def)
  have f: "map_sum id
      (\<lambda>ag'. (map (\<lambda>i. map_option (\<lambda>e. (e ''r'', e ''l'')) (i ''episode'')) (infos ag'),
              last_100_rewards ag'))
      (DQN_step toy_episode_world toy_config 5 toy_agent)
     = Inr ([Some (Some 7, Some 3)], [7])"
    by code_simp
  show ?thesis
    using episode_key_is_optional
            [of "[''episode'' \<mapsto> [''r'' \<mapsto> 7, ''l'' \<mapsto> 3]]" 5 1 "[]" "[1]"
                "[(''Performance/Environment Reward'', 7, 6)]" "[''r'' \<mapsto> 7, ''l'' \<mapsto> 3]" 7 3
                "[False, True]" "[0, 2]" toy_episode_world toy_config toy_agent
                toy_a2c_world 0 toy_a2c_agent]
          a b c d e f
    by simp
qed

section \<open>The A2C step masks what it stores\<close>

lemma mask_observations_spec:
  assumes "length dn = length obs"
  shows "\<exists>masked. mask_observations (done_masks dn) obs = Inr masked
           \<and> length masked = length obs
           \<and> (\<forall>i < length obs.
                  masked ! i = map (\<lambda>x. x * (1 - (if dn ! i then 1 else 0))) (obs ! i)
                \<and> (dn ! i \<longrightarrow> masked ! i = replicate (length (obs ! i)) 0)
                \<and> (\<not> dn ! i \<longrightarrow> masked ! i = obs ! i)
                \<and> done_masks dn ! i = 1 - (if dn ! i then 1 else 0))"
proof -
  let ?m = "map2 (\<lambda>m ob. map (\<lambda>x. x * m) ob) (done_masks dn) obs"
  have m: "mask_observations (done_masks dn) obs = Inr ?m"
    using assms by (simp add: mask_observations_def done_masks_def)
  have l: "length ?m = length obs" using assms by (simp add: done_masks_def)
  have "?m ! i = map (\<lambda>x. x * (1 - (if dn ! i then 1 else 0))) (obs ! i)
                \<and> (dn ! i \<longrightarrow> ?m ! i = replicate (length (obs ! i)) 0)
                \<and> (\<not> dn ! i \<longrightarrow> ?m ! i = obs ! i)
                \<and> done_masks dn ! i = 1 - (if dn ! i then 1 else 0)" if "i < length obs" for i
    using that assms by (simp add: done_masks_def map_replicate_const)
  then show ?thesis using m l by blast
qed

lemma s_normalise_length:
  "length (s_normalise sn X) = length X"
  "i < length X \<Longrightarrow> length (s_normalise sn X ! i) = length (X ! i)"
  by (simp_all add: s_normalise_def split: option.splits)

text \<open>
  Claim C7. A successful \<^verbatim>\<open>step\<close> of the A2C agent hands \<^verbatim>\<open>rollouts.insert\<close> the
  environment's (normalised) observations multiplied entry by entry with the mask
  \<open>1 - done\<close>, together with that same mask: for every environment whose done flag is set
  the inserted observation is zero in every entry, for every other environment it is the
  observation itself, and the inserted mask of environment \<open>i\<close> is \<open>1 - done[i]\<close>.
\<close>

theorem step_stores_masked_observation:
  assumes "A2C_step W cfg t stp ag = Inr ag'"
  shows "\<exists>s sts ms vals acts logp states ag1 obs reward dn info env' masked.
            py_index (ro_observations (rollouts ag)) stp = Inr s
          \<and> py_index (ro_states (rollouts ag)) stp = Inr sts
          \<and> py_index (ro_masks (rollouts ag)) stp = Inr ms
          \<and> A2C_get_action W s sts ms False ag = Inr ((vals, acts, logp, states), ag1)
          \<and> ac_env_step W (envs ag) acts = ((obs, reward, dn, info), env')
          \<and> mask_observations (done_masks dn) (s_normalise (s_norm cfg) obs) = Inr masked
          \<and> rollouts ag'
              = ro_insert W masked (map (map item) states) acts (map item logp) (map item vals)
                  reward (done_masks dn) (rollouts ag)
          \<and> (length dn = length obs \<longrightarrow>
                length masked = length obs
              \<and> (\<forall>i < length obs.
                     masked ! i
                     = map (\<lambda>x. x * (1 - (if dn ! i then 1 else 0)))
                         (s_normalise (s_norm cfg) obs ! i)
                   \<and> (dn ! i \<longrightarrow> masked ! i = replicate (length (obs ! i)) 0)
                   \<and> (\<not> dn ! i \<longrightarrow> masked ! i = s_normalise (s_norm cfg) obs ! i)
                   \<and> done_masks dn ! i = 1 - (if dn ! i then 1 else 0)))"
proof -
  from A2C_step_decomp[OF assms] obtain s sts ms vals acts logp states ag1 obs reward dn info env'
      fr2 er2 win tb masked where
    1: "py_index (ro_observations (rollouts ag)) stp = Inr s"
    "py_index (ro_states (rollouts ag)) stp = Inr sts"
    "py_index (ro_masks (rollouts ag)) stp = Inr ms"
    and 4: "A2C_get_action W s sts ms False ag = Inr ((vals, acts, logp, states), ag1)"
    and 5: "ac_env_step W (envs ag1) acts = ((obs, reward, dn, info), env')"
    and 7: "mask_observations (done_masks dn) (s_normalise (s_norm cfg) obs) = Inr masked"
    and 8: "ag' = ag1\<lparr>envs := env', episode_rewards := er2, final_rewards := fr2,
                     last_100_rewards := win, tb_writer := tb,
                     rollouts :=
                       ro_insert W masked (map (map item) states) acts
                         (map item logp) (map item vals) reward (done_masks dn)
                         (rollouts ag1)\<rparr>"
    by blast
  from A2C_get_action_frame[OF 4] obtain r' where f: "ag1 = ag\<lparr>rng := r'\<rparr>" by blast
  have e: "ac_env_step W (envs ag) acts = ((obs, reward, dn, info), env')" using 5 f by simp
  have r: "rollouts ag'
              = ro_insert W masked (map (map item) states) acts (map item logp) (map item vals)
                  reward (done_masks dn) (rollouts ag)"
    using 8 f by simp
  have p: "length dn = length obs \<longrightarrow>
                length masked = length obs
              \<and> (\<forall>i < length obs.
                     masked ! i
                     = map (\<lambda>x. x * (1 - (if dn ! i then 1 else 0)))
                         (s_normalise (s_norm cfg) obs ! i)
                   \<and> (dn ! i \<longrightarrow> masked ! i = replicate (length (obs ! i)) 0)
                   \<and> (\<not> dn ! i \<longrightarrow> masked ! i = s_normalise (s_norm cfg) obs ! i)
                   \<and> done_masks dn ! i = 1 - (if dn ! i then 1 else 0))"
  proof
    assume len: "length dn = length obs"
    then have "length dn = length (s_normalise (s_norm cfg) obs)"
      by (simp add: s_normalise_length)
    from mask_observations_spec[OF this] 7
    show "length masked = length obs
              \<and> (\<forall>i < length obs.
                     masked ! i
                     = map (\<lambda>x. x * (1 - (if dn ! i then 1 else 0)))
                         (s_normalise (s_norm cfg) obs ! i)
                   \<and> (dn ! i \<longrightarrow> masked ! i = replicate (length (obs ! i)) 0)
                   \<and> (\<not> dn ! i \<longrightarrow> masked ! i = s_normalise (s_norm cfg) obs ! i)
                   \<and> done_masks dn ! i = 1 - (if dn ! i then 1 else 0))"
      by (auto simp: s_normalise_length)
  qed
  show ?thesis using 1 4 e 7 r p by blast
qed

theorem step_stores_masked_observation_witness:
  "map_sum id (\<lambda>ag. (ro_observations (rollouts ag) ! 1, ro_masks (rollouts ag) ! 1))
     (A2C_step toy_a2c_world toy_config 0 0 toy_a2c_agent)
   = Inr ([[0, 0], [4, 5]], [0, 1])
 \<and> fst (ac_env_step toy_a2c_world (envs toy_a2c_agent) [0, 0])
   = ([[2, 3], [4, 5]], [1, 1], [True, False],
      [[''episode'' \<mapsto> [''r'' \<mapsto> 7, ''l'' \<mapsto> 3]], Map.empty])
 \<and> mask_observations (done_masks [True, False]) (s_normalise (s_norm toy_config) [[2, 3], [4, 5]])
   = Inr [[0, 0], [4, 5]]
 \<and> (\<exists>ag'. A2C_step toy_a2c_world toy_config 0 0 toy_a2c_agent = Inr ag')"
proof -
  have a: "map_sum id (\<lambda>ag. (ro_observations (rollouts ag) ! 1, ro_masks (rollouts ag) ! 1))
     (A2C_step toy_a2c_world toy_config 0 0 toy_a2c_agent)
   = Inr ([[0, 0], [4, 5]], [0, 1])"
    by code_simp
  then obtain ag' where s: "A2C_step toy_a2c_world toy_config 0 0 toy_a2c_agent = Inr ag'"
    by (cases "A2C_step toy_a2c_world toy_config 0 0 toy_a2c_agent") auto
  have b: "fst (ac_env_step toy_a2c_world (envs toy_a2c_agent) [0, 0])
   = ([[2, 3], [4, 5]], [1, 1], [True, False],
      [[''episode'' \<mapsto> [''r'' \<mapsto> 7, ''l'' \<mapsto> 3]], Map.empty])"
    by (simp add: toy_a2c_world_def)
  have c: "mask_observations (done_masks [True, False]) (s_normalise (s_norm toy_config) [[2, 3], [4, 5]])
   = Inr [[0, 0], [4, 5]]"
    by (simp add: mask_observations_def done_masks_def s_normalise_def toy_config_def)
  show ?thesis
    using step_stores_masked_observation[OF s] a b c s by blast
qed

section \<open>The A2C update\<close>

lemma py_index_last:
  "py_index xs (- 1) = (if xs = [] then Inl IndexError else Inr (last xs))"
  by (cases xs rule: rev_cases) (auto simp: py_index_def nth_append)

lemma A2C_next_value_spec:
  assumes "A2C_next_value W ag = Inr nv"
  shows "ro_observations (rollouts ag) \<noteq> [] \<and> ro_states (rollouts ag) \<noteq> []
       \<and> ro_masks (rollouts ag) \<noteq> []
       \<and> nv = no_grad (get_values W (last (ro_observations (rollouts ag)))
                          (last (ro_states (rollouts ag))) (last (ro_masks (rollouts ag))) ag)
       \<and> (\<forall>v \<in> set nv. grad v = 0)"
  using assms
  by (auto simp: A2C_next_value_def py_index_last no_grad_def detach_def split: if_splits)

text \<open>
  Claim C9. Every call of the A2C agent's \<^verbatim>\<open>update\<close> that returns has computed the
  bootstrap value from the last slot of the window (\<^verbatim>\<open>observations[-1]\<close>, \<^verbatim>\<open>states[-1]\<close>,
  \<^verbatim>\<open>masks[-1]\<close>) without gradient, and ends with one application of the storage's
  \<^verbatim>\<open>after_update\<close>: to the untouched storage when \<open>current_tstep < learn_start\<close>, where
  nothing else of the agent changes, and to the storage as \<^verbatim>\<open>update_\<close> has left it
  otherwise. The rotation does not depend on \<open>learn_start\<close>.
\<close>

theorem update_always_rotates_window:
  "(\<forall>ag'. A2C_update W cfg t ag = Inr ag' \<longrightarrow>
      (\<exists>nv ro'.
          A2C_next_value W ag = Inr nv
        \<and> ro_observations (rollouts ag) \<noteq> []
        \<and> nv = no_grad (get_values W (last (ro_observations (rollouts ag)))
                           (last (ro_states (rollouts ag))) (last (ro_masks (rollouts ag))) ag)
        \<and> (\<forall>v \<in> set nv. grad v = 0)
        \<and> rollouts ag' = ro_after_update W ro'
        \<and> (t < learn_start cfg \<longrightarrow>
              ro' = rollouts ag \<and> ag' = ag\<lparr>rollouts := ro_after_update W (rollouts ag)\<rparr>)
        \<and> (learn_start cfg \<le> t \<longrightarrow>
              (\<exists>losses ag1. A2C_update' W cfg (rollouts ag) (map item nv) t ag
                             = Inr (losses, ro', ag1)
                           \<and> ag' = ag1\<lparr>rollouts := ro_after_update W ro'\<rparr>))))
 \<and> (t < learn_start cfg \<longrightarrow>
      A2C_update W cfg t ag
      = (case A2C_next_value W ag of
           Inl e \<Rightarrow> Inl e
         | Inr nv \<Rightarrow> Inr (ag\<lparr>rollouts := ro_after_update W (rollouts ag)\<rparr>)))"
proof (intro conjI allI impI)
  fix ag' assume u: "A2C_update W cfg t ag = Inr ag'"
  then obtain nv where nv: "A2C_next_value W ag = Inr nv"
    by (auto simp: A2C_update_def split: sum.splits)
  note sp = A2C_next_value_spec[OF nv]
  show "\<exists>nv ro'.
          A2C_next_value W ag = Inr nv
        \<and> ro_observations (rollouts ag) \<noteq> []
        \<and> nv = no_grad (get_values W (last (ro_observations (rollouts ag)))
                           (last (ro_states (rollouts ag))) (last (ro_masks (rollouts ag))) ag)
        \<and> (\<forall>v \<in> set nv. grad v = 0)
        \<and> rollouts ag' = ro_after_update W ro'
        \<and> (t < learn_start cfg \<longrightarrow>
              ro' = rollouts ag \<and> ag' = ag\<lparr>rollouts := ro_after_update W (rollouts ag)\<rparr>)
        \<and> (learn_start cfg \<le> t \<longrightarrow>
              (\<exists>losses ag1. A2C_update' W cfg (rollouts ag) (map item nv) t ag
                             = Inr (losses, ro', ag1)
                           \<and> ag' = ag1\<lparr>rollouts := ro_after_update W ro'\<rparr>))"
  proof (cases "learn_start cfg \<le> t")
    case True
    with u nv obtain losses ro' ag1 where
      up: "A2C_update' W cfg (rollouts ag) (map item nv) t ag = Inr (losses, ro', ag1)"
      by (auto simp: A2C_update_def split: sum.splits)
    with u nv True have "ag' = ag1\<lparr>rollouts := ro_after_update W ro'\<rparr>"
      by (simp add: A2C_update_def)
    then have r: "rollouts ag' = ro_after_update W ro'" by simp
    have i1: "t < learn_start cfg \<longrightarrow>
              ro' = rollouts ag \<and> ag' = ag\<lparr>rollouts := ro_after_update W (rollouts ag)\<rparr>"
      using True by simp
    have i2: "learn_start cfg \<le> t \<longrightarrow>
              (\<exists>losses ag1. A2C_update' W cfg (rollouts ag) (map item nv) t ag
                             = Inr (losses, ro', ag1)
                           \<and> ag' = ag1\<lparr>rollouts := ro_after_update W ro'\<rparr>)"
      using up \<open>ag' = ag1\<lparr>rollouts := ro_after_update W ro'\<rparr>\<close> by blast
    show ?thesis using nv sp r i1 i2
      by (intro exI[of _ nv] exI[of _ ro']) blast
  next
    case False
    with u nv have eq: "ag' = ag\<lparr>rollouts := ro_after_update W (rollouts ag)\<rparr>"
      by (simp add: A2C_update_def)
    then have r: "rollouts ag' = ro_after_update W (rollouts ag)" by simp
    have i1: "t < learn_start cfg \<longrightarrow>
              rollouts ag = rollouts ag \<and> ag' = ag\<lparr>rollouts := ro_after_update W (rollouts ag)\<rparr>"
      using eq by simp
    have i2: "learn_start cfg \<le> t \<longrightarrow>
              (\<exists>losses ag1. A2C_update' W cfg (rollouts ag) (map item nv) t ag
                             = Inr (losses, rollouts ag, ag1)
                           \<and> ag' = ag1\<lparr>rollouts := ro_after_update W (rollouts ag)\<rparr>)"
      using False by simp
    show ?thesis using nv sp r i1 i2
      by (intro exI[of _ nv] exI[of _ "rollouts ag"]) blast
  qed
next
  assume "t < learn_start cfg"
  then show "A2C_update W cfg t ag
      = (case A2C_next_value W ag of
           Inl e \<Rightarrow> Inl e
         | Inr nv \<Rightarrow> Inr (ag\<lparr>rollouts := ro_after_update W (rollouts ag)\<rparr>))"
    by (simp add: A2C_update_def split: sum.splits)
qed

lemma A2C_compute_loss_frame:
  assumes "A2C_compute_loss W cfg ro nv t ag = Inr (res, ro', ag1)"
  shows "ro' = ro_compute_returns W nv (gamma cfg) ro \<and> (\<exists>tb. ag1 = ag\<lparr>tb_writer := tb\<rparr>)"
  using assms unfolding A2C_compute_loss_def Let_def
  by (auto split: sum.splits prod.splits if_splits)

lemma toy_a2c_world_sel:
  "ac_clip_grad_norm toy_a2c_world = (\<lambda>g mx. max (- mx) (min mx g))"
  "ac_optimizer_step toy_a2c_world = (\<lambda>opt w g. (Suc opt, w - g))"
  "ro_after_update toy_a2c_world = (\<lambda>ro.
          (case ro_private ro of
             (step, n) \<Rightarrow>
               ro\<lparr>ro_observations := (ro_observations ro)[0 := last (ro_observations ro)],
                  ro_states := (ro_states ro)[0 := last (ro_states ro)],
                  ro_masks := (ro_masks ro)[0 := last (ro_masks ro)],
                  ro_private := (step, Suc n)\<rparr>))"
  by (simp_all add: toy_a2c_world_def)

lemma toy_a2c_compute_loss:
  "map_sum id (\<lambda>((l, al, vl, e, d), ro, ag). (l, ro_private ro))
   (A2C_compute_loss toy_a2c_world toy_config toy_rollouts [2, 2] 2 toy_a2c_agent)
   = Inr (Scalar (1 / 8) (- (1 / 2)), (0, 0))"
  by code_simp

lemma toy_a2c_next_value:
  "A2C_next_value toy_a2c_world toy_a2c_agent = Inr [Scalar 2 0, Scalar 2 0]"
  by code_simp

lemma toy_a2c_update_learning:
  "\<exists>ag'. A2C_update toy_a2c_world toy_config 2 toy_a2c_agent = Inr ag'
         \<and> snd (ro_private (rollouts ag')) = 1 \<and> model ag' = 3 / 2"
proof -
  from toy_a2c_compute_loss obtain al vl e d ro' ag1 where
    c: "A2C_compute_loss toy_a2c_world toy_config toy_rollouts [2, 2] 2 toy_a2c_agent
        = Inr ((Scalar (1 / 8) (- (1 / 2)), al, vl, e, d), ro', ag1)"
    and p: "ro_private ro' = (0, 0)"
    by (cases "A2C_compute_loss toy_a2c_world toy_config toy_rollouts [2, 2] 2 toy_a2c_agent")
       auto
  from A2C_compute_loss_frame[OF c] obtain tb where ag1: "ag1 = toy_a2c_agent\<lparr>tb_writer := tb\<rparr>"
    by blast
  have ls: "learn_start toy_config \<le> 2" "grad_norm_max toy_config = 10"
    by (simp_all add: toy_config_def)
  have r: "rollouts toy_a2c_agent = toy_rollouts" "model toy_a2c_agent = 1"
    by (simp_all add: toy_a2c_agent_def)
  show ?thesis
    by (simp add: A2C_update_def toy_a2c_next_value ls r A2C_update'_def c Let_def
        toy_a2c_world_sel ag1 p)
qed

theorem update_always_rotates_window_witness:
  "(0::int) < learn_start toy_config \<and> learn_start toy_config \<le> 2
 \<and> snd (ro_private (rollouts toy_a2c_agent)) = 0
 \<and> A2C_next_value toy_a2c_world toy_a2c_agent = Inr [Scalar 2 0, Scalar 2 0]
 \<and> A2C_update toy_a2c_world toy_config 0 toy_a2c_agent
     = Inr (toy_a2c_agent\<lparr>rollouts := ro_after_update toy_a2c_world toy_rollouts\<rparr>)
 \<and> snd (ro_private (ro_after_update toy_a2c_world toy_rollouts)) = 1
 \<and> (\<exists>ag'. A2C_update toy_a2c_world toy_config 2 toy_a2c_agent = Inr ag'
         \<and> snd (ro_private (rollouts ag')) = 1 \<and> model ag' = 3 / 2)"
proof -
  have f: "(0::int) < learn_start toy_config" "learn_start toy_config \<le> 2"
    "snd (ro_private (rollouts toy_a2c_agent)) = 0" "rollouts toy_a2c_agent = toy_rollouts"
    by (simp_all add: toy_config_def toy_a2c_agent_def toy_rollouts_def)
  have g: "snd (ro_private (ro_after_update toy_a2c_world toy_rollouts)) = 1"
    by (simp add: toy_a2c_world_sel toy_rollouts_def)
  have u0: "A2C_update toy_a2c_world toy_config 0 toy_a2c_agent
     = Inr (toy_a2c_agent\<lparr>rollouts := ro_after_update toy_a2c_world toy_rollouts\<rparr>)"
    using update_always_rotates_window
            [of toy_a2c_world toy_config 0 toy_a2c_agent, THEN conjunct2, THEN mp, OF f(1)]
    by (simp only: toy_a2c_next_value sum.case f(4))
  show ?thesis
    using u0 toy_a2c_update_learning toy_a2c_next_value f(1,2,3) g
    by (intro conjI)
qed

section \<open>The loss of the A2C agent\<close>

lemma sum_list_map_nth:
  fixes f :: "'a \<Rightarrow> 'b::comm_monoid_add"
  shows "sum_list (map f xs) = (\<Sum>i = 0..<length xs. f (xs ! i))"
proof -
  have "sum_list (map f xs) = (\<Sum>i = 0..<length (map f xs). map f xs ! i)"
    by (rule sum_list_sum_nth)
  also have "\<dots> = (\<Sum>i = 0..<length xs. f (xs ! i))"
    by (intro sum.cong) simp_all
  finally show ?thesis .
qed

lemma t_mean_item_grad:
  "item (t_mean xs) = (\<Sum>i = 0..<length xs. item (xs ! i)) / real (length xs)"
  "grad (t_mean xs) = (1 / real (length xs)) *\<^sub>R (\<Sum>i = 0..<length xs. grad (xs ! i))"
  by (simp_all add: t_mean_def sum_list_map_nth)

lemma length_concat_rect:
  "map length xss = replicate T N \<Longrightarrow> length (concat xss) = T * N"
  by (simp add: length_concat sum_list_replicate)

lemma A2C_compute_loss_decomp:
  assumes "A2C_compute_loss W cfg ro next_value tstep ag
           = Inr ((loss, action_loss, value_loss, dist_entropy, dyn), ro', ag')"
  shows "\<exists>states0 states vals logp states' advantages.
           ro' = ro_compute_returns W next_value (gamma cfg) ro
         \<and> py_index (ro_states ro') 0 = Inr states0
         \<and> view_feats (state_size W) states0 = Inr states
         \<and> evaluate_actions W (concat (butlast (ro_observations ro'))) (concat (ro_actions ro'))
               states (concat (butlast (ro_masks ro'))) ag
             = Inr (vals, logp, dist_entropy, states')
         \<and> length vals = length (concat (butlast (ro_returns ro')))
         \<and> length logp = length vals
         \<and> advantages = map2 (-) (map const (concat (butlast (ro_returns ro')))) vals
         \<and> value_loss = t_mean (map (\<lambda>a. pow2 a * const 0.5) advantages)
         \<and> action_loss = - t_mean (map2 (*) (map detach advantages) logp)
         \<and> loss = action_loss + const (value_loss_weight cfg) * value_loss
                   - const (entropy_loss_weight cfg) * dist_entropy
         \<and> dyn = 0"
proof -
  let ?ro = "ro_compute_returns W next_value (gamma cfg) ro"
  let ?T = "length (ro_rewards ro)"
  let ?N = "case ro_rewards ro of [] \<Rightarrow> 0 | r # _ \<Rightarrow> length r"
  note a = assms[unfolded A2C_compute_loss_def Let_def]
  from a obtain states0 where 1: "py_index (ro_states ?ro) 0 = Inr states0"
    by (auto split: sum.splits)
  note a1 = a[simplified 1 sum.case]
  from a1 obtain states where 2: "view_feats (state_size W) states0 = Inr states"
    by (auto split: sum.splits)
  note a2 = a1[simplified 2 sum.case]
  from a2 obtain vals logp de states' where
    3: "evaluate_actions W (concat (butlast (ro_observations ?ro))) (concat (ro_actions ?ro))
               states (concat (butlast (ro_masks ?ro))) ag
             = Inr (vals, logp, de, states')"
    by (auto split: sum.splits)
  note a3 = a2[simplified 3 sum.case prod.case]
  from a3 have 4: "length vals = ?T * ?N" "length logp = ?T * ?N"
    "map length (butlast (ro_returns ?ro)) = replicate ?T ?N"
    by (auto split: if_splits)
  have 5: "length (concat (butlast (ro_returns ?ro))) = ?T * ?N"
    using 4(3) by (rule length_concat_rect)
  from a3 4 have 7: "ro' = ?ro" "dist_entropy = de" "dyn = 0"
    "value_loss = t_mean (map (\<lambda>a. pow2 a * const 0.5)
                    (map2 (-) (map const (concat (butlast (ro_returns ?ro)))) vals))"
    "action_loss = - t_mean (map2 (*)
                    (map detach (map2 (-) (map const (concat (butlast (ro_returns ?ro)))) vals))
                    logp)"
    "loss = action_loss + const (value_loss_weight cfg) * value_loss
                   - const (entropy_loss_weight cfg) * dist_entropy"
    by (auto split: if_splits)
  show ?thesis using 1 2 3 4 5 7 by auto
qed

lemma evaluate_actions_entropy:
  assumes "evaluate_actions W s acts states masks ag = Inr (vals, logp, dist_entropy, states')"
  shows "dist_entropy
         = t_mean (map (categorical_entropy W) (fst (ac_forward W (model ag) s states masks)))"
  using assms unfolding evaluate_actions_def
  by (auto split: prod.splits sum.splits)

text \<open>
  Claim C2. Whenever \<^verbatim>\<open>compute_loss\<close> of the A2C agent returns: with \<open>advantage = return - value\<close> for the
  returns the storage has just computed and the values of the re-evaluated window,
  the value loss is the mean of \<open>0.5 * advantage\<^sup>2\<close>; the policy loss is minus the mean of
  \<open>advantage * log-probability\<close> and its gradient is minus the mean of
  \<open>advantage * gradient of the log-probability\<close>, with no term in the gradient of the
  values (the advantage is detached), while the value loss does carry the gradient of the
  values; the entropy is the mean of the rows' entropies; and the total loss is
  \<open>policy loss + value_loss_weight * value loss - entropy_loss_weight * entropy\<close>, in value and
  in gradient. (A window without entries gives NaN means in torch; the real-valued model
  says nothing about that case.)
\<close>

theorem a2c_loss_composition:
  assumes "A2C_compute_loss W cfg ro next_value tstep ag
           = Inr ((loss, action_loss, value_loss, dist_entropy, dyn), ro', ag')"
  shows "\<exists>states vals logp states' returns.
           ro' = ro_compute_returns W next_value (gamma cfg) ro
         \<and> returns = concat (butlast (ro_returns ro'))
         \<and> evaluate_actions W (concat (butlast (ro_observations ro'))) (concat (ro_actions ro'))
               states (concat (butlast (ro_masks ro'))) ag
             = Inr (vals, logp, dist_entropy, states')
         \<and> dist_entropy
             = t_mean (map (categorical_entropy W)
                 (fst (ac_forward W (model ag) (concat (butlast (ro_observations ro'))) states
                         (concat (butlast (ro_masks ro'))))))
         \<and> length vals = length returns \<and> length logp = length returns
         \<and> item value_loss
             = (\<Sum>i = 0..<length returns. 0.5 * (returns ! i - item (vals ! i))\<^sup>2)
               / real (length returns)
         \<and> grad value_loss
             = (1 / real (length returns)) *\<^sub>R
               (\<Sum>i = 0..<length returns. (returns ! i - item (vals ! i)) *\<^sub>R (- grad (vals ! i)))
         \<and> item action_loss
             = - ((\<Sum>i = 0..<length returns. (returns ! i - item (vals ! i)) * item (logp ! i))
                  / real (length returns))
         \<and> grad action_loss
             = - ((1 / real (length returns)) *\<^sub>R
                  (\<Sum>i = 0..<length returns. (returns ! i - item (vals ! i)) *\<^sub>R grad (logp ! i)))
         \<and> item loss
             = item action_loss + value_loss_weight cfg * item value_loss
               - entropy_loss_weight cfg * item dist_entropy
         \<and> grad loss
             = grad action_loss + value_loss_weight cfg *\<^sub>R grad value_loss
               - entropy_loss_weight cfg *\<^sub>R grad dist_entropy
         \<and> dyn = 0"
proof -
  from A2C_compute_loss_decomp[OF assms] obtain states0 states vals logp states' advantages
    where ro': "ro' = ro_compute_returns W next_value (gamma cfg) ro"
    and ev: "evaluate_actions W (concat (butlast (ro_observations ro'))) (concat (ro_actions ro'))
               states (concat (butlast (ro_masks ro'))) ag
             = Inr (vals, logp, dist_entropy, states')"
    and lv: "length vals = length (concat (butlast (ro_returns ro')))"
    and ll: "length logp = length vals"
    and advs0: "advantages = map2 (-) (map const (concat (butlast (ro_returns ro')))) vals"
    and vl: "value_loss = t_mean (map (\<lambda>a. pow2 a * const 0.5) advantages)"
    and al0: "action_loss = - t_mean (map2 (*) (map detach advantages) logp)"
    and lo: "loss = action_loss + const (value_loss_weight cfg) * value_loss
                   - const (entropy_loss_weight cfg) * dist_entropy"
    and dy: "dyn = 0"
    by blast
  define returns where "returns = concat (butlast (ro_returns ro'))"
  define n where "n = length returns"
  define prods where "prods = map2 (*) (map detach advantages) logp"
  have al: "action_loss = - t_mean prods" using al0 by (simp add: prods_def)
  have lr: "length vals = n" "length logp = n"
    using lv ll by (simp_all add: n_def returns_def)
  have advs: "advantages = map2 (-) (map const returns) vals"
    using advs0 by (simp add: returns_def)
  have la: "length advantages = n" using advs lr by (simp add: n_def)
  have prods: "prods = map2 (*) (map detach advantages) logp"
    by (simp add: prods_def)
  have lp: "length prods = n" using prods la lr by simp
  have ai: "item (advantages ! i) = returns ! i - item (vals ! i)"
           "grad (advantages ! i) = - grad (vals ! i)" if "i < n" for i
    using that lr by (simp_all add: advs n_def const_def minus_scalar_def)
  have v1: "item value_loss
             = (\<Sum>i = 0..<n. 0.5 * (returns ! i - item (vals ! i))\<^sup>2) / real n"
  proof -
    have "(\<Sum>i = 0..<n. item (map (\<lambda>a. pow2 a * const 0.5) advantages ! i))
          = (\<Sum>i = 0..<n. 0.5 * (returns ! i - item (vals ! i))\<^sup>2)"
      using la ai
      by (intro sum.cong refl)
         (simp add: pow2_def times_scalar_def const_def power2_eq_square)
    then show ?thesis by (simp add: vl t_mean_item_grad la)
  qed
  have v2: "grad value_loss
             = (1 / real n) *\<^sub>R
               (\<Sum>i = 0..<n. (returns ! i - item (vals ! i)) *\<^sub>R (- grad (vals ! i)))"
  proof -
    have "(\<Sum>i = 0..<n. grad (map (\<lambda>a. pow2 a * const 0.5) advantages ! i))
          = (\<Sum>i = 0..<n. (returns ! i - item (vals ! i)) *\<^sub>R (- grad (vals ! i)))"
    proof (intro sum.cong refl)
      fix i assume "i \<in> {0..<n}"
      then have i: "i < n" by simp
      have "grad (pow2 (advantages ! i) * const 0.5)
            = item (advantages ! i) *\<^sub>R grad (advantages ! i)"
        by (simp add: pow2_def times_scalar_def const_def scaleR_add_right[symmetric]
            scaleR_2[symmetric])
      then show "grad (map (\<lambda>a. pow2 a * const 0.5) advantages ! i)
                 = (returns ! i - item (vals ! i)) *\<^sub>R (- grad (vals ! i))"
        using i la ai by simp
    qed
    then show ?thesis by (simp add: vl t_mean_item_grad la)
  qed
  have pi: "item (prods ! i) = (returns ! i - item (vals ! i)) * item (logp ! i)"
           "grad (prods ! i) = (returns ! i - item (vals ! i)) *\<^sub>R grad (logp ! i)"
    if "i < n" for i
    using that la lr ai[OF that]
    by (simp_all add: prods detach_def times_scalar_def)
  have a1: "item action_loss
             = - ((\<Sum>i = 0..<n. (returns ! i - item (vals ! i)) * item (logp ! i)) / real n)"
  proof -
    have "(\<Sum>i = 0..<n. item (prods ! i))
          = (\<Sum>i = 0..<n. (returns ! i - item (vals ! i)) * item (logp ! i))"
      using pi by (intro sum.cong refl) simp
    then show ?thesis by (simp add: al uminus_scalar_def t_mean_item_grad lp)
  qed
  have a2: "grad action_loss
             = - ((1 / real n) *\<^sub>R
                  (\<Sum>i = 0..<n. (returns ! i - item (vals ! i)) *\<^sub>R grad (logp ! i)))"
  proof -
    have "(\<Sum>i = 0..<n. grad (prods ! i))
          = (\<Sum>i = 0..<n. (returns ! i - item (vals ! i)) *\<^sub>R grad (logp ! i))"
      using pi by (intro sum.cong refl) simp
    then show ?thesis by (simp add: al uminus_scalar_def t_mean_item_grad lp)
  qed
  have l1: "item loss
             = item action_loss + value_loss_weight cfg * item value_loss
               - entropy_loss_weight cfg * item dist_entropy"
    by (simp add: lo plus_scalar_def minus_scalar_def times_scalar_def const_def)
  have l2: "grad loss
             = grad action_loss + value_loss_weight cfg *\<^sub>R grad value_loss
               - entropy_loss_weight cfg *\<^sub>R grad dist_entropy"
    by (simp add: lo plus_scalar_def minus_scalar_def times_scalar_def const_def)
  note en = evaluate_actions_entropy[OF ev]
  show ?thesis
    using ro' ev en lr v1 v2 a1 a2 l1 l2 dy
    unfolding n_def returns_def
    by blast
qed

theorem a2c_loss_composition_witness:
  "\<exists>ro' ag'. A2C_compute_loss toy_a2c_world toy_config toy_rollouts [2, 2] 2 toy_a2c_agent
        = Inr ((Scalar (1 / 8) (- (1 / 2)), Scalar 0 0, Scalar (1 / 8) (- (1 / 2)), Scalar 0 0, 0),
               ro', ag')
      \<and> concat (butlast (ro_returns ro')) = [3, 2, 2, 2]"
proof -
  have p: "map_sum id (\<lambda>((l, al, vl, e, d), ro, ag). ((l, al, vl, e, d), concat (butlast (ro_returns ro))))
             (A2C_compute_loss toy_a2c_world toy_config toy_rollouts [2, 2] 2 toy_a2c_agent)
           = Inr ((Scalar (1 / 8) (- (1 / 2)), Scalar 0 0, Scalar (1 / 8) (- (1 / 2)), Scalar 0 0, 0),
                  [3, 2, 2, 2])"
    by code_simp
  then obtain ro' ag' where
    c: "A2C_compute_loss toy_a2c_world toy_config toy_rollouts [2, 2] 2 toy_a2c_agent
        = Inr ((Scalar (1 / 8) (- (1 / 2)), Scalar 0 0, Scalar (1 / 8) (- (1 / 2)), Scalar 0 0, 0),
               ro', ag')"
    and r: "concat (butlast (ro_returns ro')) = [3, 2, 2, 2]"
    by (cases "A2C_compute_loss toy_a2c_world toy_config toy_rollouts [2, 2] 2 toy_a2c_agent")
       auto
  show ?thesis
    using a2c_loss_composition[OF c] c r by blast
qed

end
